(* ===== verification/Prelude.thy ===== *)
theory Prelude
  imports Main
    "HOL-Library.Finite_Map"
    "HOL-Library.List_Lexorder"
    "HOL-Library.Char_ord"
    "HOL-Library.Word"
    "HOL-Library.Code_Target_Nat"
begin

text \<open>
  What every component shares. Go's \<open>string\<close> and \<open>[]byte\<close> are byte lists
  (\<open>string\<close>, one \<open>char\<close> per byte), a Go map is a finite map, \<open>int64\<close> is a
  64-bit word read with \<open>sint\<close>, \<open>float64\<close> is its IEEE-754 bit pattern. A call that
  can panic returns an \<open>outcome\<close>; a call that returns a Go \<open>error\<close> returns
  either a sum or an optional \<open>go_error\<close> beside its result.

  The collections \<open>repo_simps\<close> (storage operations), \<open>http_simps\<close> (response
  writer operations) and \<open>lib_simps\<close> (standard library) carry the component proofs.
\<close>

named_theorems repo_simps \<open>storage operations\<close>
named_theorems http_simps \<open>response writer operations\<close>
named_theorems lib_simps \<open>standard library functions\<close>

section \<open>Values\<close>

type_synonym bytes = string
type_synonym int64 = "64 word"
type_synonym float64 = "64 word"
type_synonym 'v gomap = "(string, 'v) fmap"

text \<open>The error values the code tells apart, and messages for the ones it only passes on.\<close>

datatype go_error =
    ErrMsg string
  | ErrWrap string go_error
  | ErrJoin go_error go_error
  | ErrSyntax
  | ErrRange
  | DeadlineExceeded
  | Canceled
  | ErrNoRows
  | PgError string

text \<open>
  A Go call returns, panics with the runtime's message, or waits for ever on a lock
  nobody will release.
\<close>

datatype 'a outcome = Ret 'a | Panic string | Blocked

primrec bind_outcome :: "'a outcome \<Rightarrow> ('a \<Rightarrow> 'b outcome) \<Rightarrow> 'b outcome" where
  "bind_outcome (Ret x) f = f x"
| "bind_outcome (Panic p) f = Panic p"
| "bind_outcome Blocked f = Blocked"

primrec returns :: "'a outcome \<Rightarrow> bool" where
  "returns (Ret x) = True"
| "returns (Panic p) = False"
| "returns Blocked = False"

lemma outcome_eq_Blocked [simp]:
  "bind_outcome x f = Blocked \<longleftrightarrow> x = Blocked \<or> (\<exists>y. x = Ret y \<and> f y = Blocked)"
  "map_outcome h x = Blocked \<longleftrightarrow> x = Blocked"
  by (cases x; simp)+

lemma bind_outcome_eq_Ret [simp]:
  "bind_outcome x f = Ret y \<longleftrightarrow> (\<exists>a. x = Ret a \<and> f a = Ret y)"
  by (cases x) auto

lemma returns_iff: "returns x \<longleftrightarrow> (\<exists>a. x = Ret a)"
  by (cases x) auto

section \<open>Finite maps: the loop \<open>for k, v := range m\<close>\<close>

text \<open>
  Go enumerates a map in an unspecified order. An enumeration of \<open>m\<close> is a list of its
  entries, each key once.
\<close>

definition enumerates :: "('k \<times> 'v) list \<Rightarrow> ('k, 'v) fmap \<Rightarrow> bool" where
  "enumerates kvs m \<longleftrightarrow> distinct (map fst kvs) \<and> fmap_of_list kvs = m"

lemma enumeratesD:
  assumes "enumerates kvs m"
  shows "distinct (map fst kvs)" and "map_of kvs = fmlookup m"
  using assms by (auto simp: enumerates_def fmlookup_of_list)

lemma enumerates_dom: "enumerates kvs m \<Longrightarrow> fst ` set kvs = fmdom' m"
proof -
  assume "enumerates kvs m"
  then have "map_of kvs = fmlookup m" by (rule enumeratesD)
  then have "k \<in> fst ` set kvs \<longleftrightarrow> k \<in> fmdom' m" for k
    by (metis dom_map_of_conv_image_fst domIff fmlookup_dom'_iff not_None_eq)
  then show ?thesis by blast
qed

lemma enumerates_sorted [simp, intro]: "enumerates (sorted_list_of_fmap m) m"
proof -
  have "fmap_of_list (sorted_list_of_fmap m) = m"
    by (intro fmap_ext) (simp add: fmlookup_of_list map_of_sorted_list)
  then show ?thesis
    by (simp add: enumerates_def sorted_list_of_fmap_def comp_def sorted_list_of_fset.rep_eq)
qed

lemma enumerates_exists: "\<exists>kvs. enumerates kvs (m :: 'v gomap)"
  using enumerates_sorted by blast

lemma fmadd_lookup [simp]:
  "fmlookup (fmadd m d) k = (case fmlookup d k of None \<Rightarrow> fmlookup m k | Some v \<Rightarrow> Some v)"
  by (auto simp: fmdom_notD split: option.splits)

declare fmlookup_add [simp del]

text \<open>The number of entries, Go's \<open>len(m)\<close>.\<close>

definition map_len :: "('k, 'v) fmap \<Rightarrow> nat" where
  "map_len m = fcard (fmdom m)"

lemma map_len_0_iff [simp]: "map_len m = 0 \<longleftrightarrow> m = fmempty"
proof
  assume "map_len m = 0"
  then have "fmdom m = {||}" by (simp add: map_len_def)
  then show "m = fmempty" by (intro fmap_ext) (simp add: fmdom_notD)
qed (simp add: map_len_def)

lemma map_len_empty [simp]: "map_len fmempty = 0"
  by simp

lemma map_len_pos_iff [simp]: "0 < map_len m \<longleftrightarrow> m \<noteq> fmempty"
  using map_len_0_iff [of m] by (metis gr0I less_irrefl)

text \<open>
  A loop that updates a map once per entry, the new value depending on the old one.
  Its result does not depend on the enumeration.
\<close>

definition upd_entry :: "('v option \<Rightarrow> 'w \<Rightarrow> 'v) \<Rightarrow> ('k, 'v) fmap \<Rightarrow> 'k \<times> 'w \<Rightarrow> ('k, 'v) fmap" where
  "upd_entry f m kv = fmupd (fst kv) (f (fmlookup m (fst kv)) (snd kv)) m"

lemma fmlookup_upd_entry [simp]:
  "fmlookup (upd_entry f m (k, v)) k' = (if k' = k then Some (f (fmlookup m k) v) else fmlookup m k')"
  by (simp add: upd_entry_def)

lemma fmlookup_foldl_upd_entry:
  "distinct (map fst kvs) \<Longrightarrow>
   fmlookup (foldl (upd_entry f) m kvs) k =
     (case map_of kvs k of None \<Rightarrow> fmlookup m k | Some v \<Rightarrow> Some (f (fmlookup m k) v))"
proof (induction kvs arbitrary: m)
  case Nil
  then show ?case by simp
next
  case (Cons kv kvs)
  obtain k1 v1 where kv: "kv = (k1, v1)" by (cases kv)
  from Cons.prems kv have "map_of kvs k1 = None" by (simp add: map_of_eq_None_iff)
  with Cons kv show ?case by (auto split: option.splits)
qed

lemma foldl_upd_entry_enum:
  assumes "enumerates kvs d"
  shows "fmlookup (foldl (upd_entry f) m kvs) k =
    (case fmlookup d k of None \<Rightarrow> fmlookup m k | Some v \<Rightarrow> Some (f (fmlookup m k) v))"
  using assms by (simp add: fmlookup_foldl_upd_entry enumeratesD)

lemma foldl_upd_entry_order:
  assumes "enumerates kvs d" and "enumerates kvs' d"
  shows "foldl (upd_entry f) m kvs = foldl (upd_entry f) m kvs'"
  using assms by (intro fmap_ext) (simp add: foldl_upd_entry_enum)

section \<open>Lists\<close>

lemma dropWhile_id: "xs = [] \<or> \<not> P (hd xs) \<Longrightarrow> dropWhile P xs = xs"
  by (cases xs) auto

lemma last_rev_hd: "xs \<noteq> [] \<Longrightarrow> hd (rev xs) = last xs"
  by (simp add: hd_rev)

lemma sum_map_update:
  fixes f :: "'a \<Rightarrow> 'b :: comm_monoid_add"
  shows "i < length xs \<Longrightarrow> sum_list (map f (xs[i := x])) + f (xs ! i) = sum_list (map f xs) + f x"
proof (induction xs arbitrary: i)
  case (Cons y ys)
  show ?case
  proof (cases i)
    case 0
    then show ?thesis by (simp add: ac_simps)
  next
    case (Suc j)
    with Cons.IH [of j] Cons.prems have "sum_list (map f (ys[j := x])) + f (ys ! j) = sum_list (map f ys) + f x" by simp
    with Suc show ?thesis by (simp add: add.assoc)
  qed
qed simp

end
