(* ===== verification/Go_Strings.thy ===== *)
theory Go_Strings
  imports Prelude "HOL-Library.Sublist"
begin

text \<open>
  The parts of Go's \<open>strings\<close>, \<open>bytes\<close> and \<open>strconv\<close> the program calls:
  substring search, cutset trimming, and the conversions between decimal text and
  \<open>int64\<close>, \<open>int\<close> and \<open>bool\<close>. The main lemma is the round trip
  \<open>ParseInt_FormatInt\<close>.
\<close>

section \<open>strings and bytes\<close>

fun Contains :: "bytes \<Rightarrow> bytes \<Rightarrow> bool" where
  "Contains s sub = (prefix sub s \<or> (case s of [] \<Rightarrow> False | c # t \<Rightarrow> Contains t sub))"

declare Contains.simps [simp del]

lemma Contains_iff_sublist: "Contains s sub \<longleftrightarrow> sublist sub s"
proof (induction s)
  case Nil
  show ?case by (subst Contains.simps) simp
next
  case (Cons c s)
  show ?case by (subst Contains.simps) (simp add: Cons.IH sublist_Cons_right)
qed

definition HasPrefix :: "bytes \<Rightarrow> bytes \<Rightarrow> bool" where
  "HasPrefix s p = prefix p s"

definition TrimLeft :: "bytes \<Rightarrow> bytes \<Rightarrow> bytes" where
  "TrimLeft s cutset = dropWhile (\<lambda>c. c \<in> set cutset) s"

definition TrimRight :: "bytes \<Rightarrow> bytes \<Rightarrow> bytes" where
  "TrimRight s cutset = rev (dropWhile (\<lambda>c. c \<in> set cutset) (rev s))"

definition Trim :: "bytes \<Rightarrow> bytes \<Rightarrow> bytes" where
  "Trim s cutset = TrimRight (TrimLeft s cutset) cutset"

lemma TrimRight_id: "s = [] \<or> last s \<notin> set cutset \<Longrightarrow> TrimRight s cutset = s"
  by (cases "s = []") (auto simp: TrimRight_def dropWhile_id hd_rev)

lemma TrimLeft_id: "s = [] \<or> hd s \<notin> set cutset \<Longrightarrow> TrimLeft s cutset = s"
  by (auto simp: TrimLeft_def dropWhile_id)

lemma TrimLeft_append: "set xs \<subseteq> set cutset \<Longrightarrow> TrimLeft (xs @ s) cutset = TrimLeft s cutset"
  unfolding TrimLeft_def by (induction xs) auto

lemma TrimRight_append: "set xs \<subseteq> set cutset \<Longrightarrow> TrimRight (s @ xs) cutset = TrimRight s cutset"
proof -
  assume "set xs \<subseteq> set cutset"
  then have "dropWhile (\<lambda>c. c \<in> set cutset) (rev xs @ rev s) = dropWhile (\<lambda>c. c \<in> set cutset) (rev s)"
    by (intro dropWhile_append2) auto
  then show ?thesis by (simp add: TrimRight_def)
qed

text \<open>Trimming a core that neither starts nor ends in the cutset.\<close>

lemma Trim_core:
  assumes "set xs \<subseteq> set cutset" and "set ys \<subseteq> set cutset"
    and "core \<noteq> []" and "hd core \<notin> set cutset" and "last core \<notin> set cutset"
  shows "Trim (xs @ core @ ys) cutset = core"
proof -
  from assms(1) have "TrimLeft (xs @ core @ ys) cutset = TrimLeft (core @ ys) cutset"
    by (rule TrimLeft_append)
  also have "\<dots> = core @ ys" using assms(3,4) by (simp add: TrimLeft_id)
  finally show ?thesis
    using assms(2,3,5) by (simp add: Trim_def TrimRight_append TrimRight_id)
qed

text \<open>ASCII lower case.\<close>

definition lower :: "char \<Rightarrow> char" where
  "lower c = (if 65 \<le> (of_char c :: nat) \<and> (of_char c :: nat) \<le> 90 then char_of (of_char c + 32 :: nat) else c)"

section \<open>Decimal digits\<close>

definition is_digit :: "char \<Rightarrow> bool" where
  "is_digit c \<longleftrightarrow> 48 \<le> (of_char c :: nat) \<and> (of_char c :: nat) \<le> 57"

definition digit_val :: "char \<Rightarrow> nat" where
  "digit_val c = of_char c - 48"

definition digit_char :: "nat \<Rightarrow> char" where
  "digit_char d = char_of (48 + d)"

lemma of_digit_char: "d < 10 \<Longrightarrow> (of_char (digit_char d) :: nat) = 48 + d"
  by (simp add: digit_char_def)

lemma digit_char_digit [simp]:
  assumes "d < 10"
  shows "is_digit (digit_char d)" and "digit_val (digit_char d) = d"
  using assms by (simp_all add: is_digit_def digit_val_def of_digit_char)

lemma digit_val_less: "is_digit c \<Longrightarrow> digit_val c < 10"
  by (auto simp: is_digit_def digit_val_def)

lemma not_is_digit [simp]:
  "\<not> is_digit CHR ''-''" "\<not> is_digit CHR ''+''" "\<not> is_digit CHR ''.''" "\<not> is_digit CHR ''e''"
  "\<not> is_digit CHR '',''" "\<not> is_digit CHR ''{''" "\<not> is_digit CHR ''}''" "\<not> is_digit CHR '']''"
  "\<not> is_digit CHR ''['' " "\<not> is_digit CHR ''E''" "\<not> is_digit CHR '':''" "\<not> is_digit CHR 0x22"
  by (simp_all add: is_digit_def)

lemma digit_neq_char: "is_digit c \<Longrightarrow> \<not> is_digit d \<Longrightarrow> c \<noteq> d"
  by auto

fun show_nat :: "nat \<Rightarrow> bytes" where
  "show_nat n = (if n < 10 then [digit_char n] else show_nat (n div 10) @ [digit_char (n mod 10)])"

declare show_nat.simps [simp del]

lemma show_nat_digits: "c \<in> set (show_nat n) \<Longrightarrow> is_digit c"
proof (induction n rule: show_nat.induct)
  case (1 n)
  then show ?case by (cases "n < 10") (auto simp: show_nat.simps [of n])
qed

lemma show_nat_nonempty [simp]: "show_nat n \<noteq> []"
  by (subst show_nat.simps) simp

lemma hd_show_nat_digit [simp]: "is_digit (hd (show_nat n))"
  using show_nat_digits [of "hd (show_nat n)" n] by simp

lemma hd_show_nat_nonzero: "0 < n \<Longrightarrow> hd (show_nat n) \<noteq> CHR ''0''"
proof (induction n rule: show_nat.induct)
  case (1 n)
  show ?case
  proof (cases "n < 10")
    case True
    have "hd (show_nat n) = digit_char n" using True by (subst show_nat.simps) simp
    moreover have "digit_char n \<noteq> CHR ''0''"
    proof
      assume "digit_char n = CHR ''0''"
      then have "(of_char (digit_char n) :: nat) = of_char CHR ''0''" by simp
      with True 1 show False by (simp add: of_digit_char)
    qed
    ultimately show ?thesis by simp
  next
    case False
    with 1 show ?thesis by (subst show_nat.simps) simp
  qed
qed

lemma show_nat_0 [simp]: "show_nat 0 = ''0''"
proof -
  have "digit_char 0 = CHR ''0''" by code_simp
  then show ?thesis by (subst show_nat.simps) simp
qed

text \<open>The value of a digit string, most significant digit first.\<close>

definition digits_val :: "nat \<Rightarrow> bytes \<Rightarrow> nat" where
  "digits_val n cs = foldl (\<lambda>a c. a * 10 + digit_val c) n cs"

lemma digits_val_simps [simp]:
  "digits_val n [] = n" "digits_val n (c # cs) = digits_val (n * 10 + digit_val c) cs"
  "digits_val n (cs @ ds) = digits_val (digits_val n cs) ds"
  by (simp_all add: digits_val_def)

lemma digits_val_show_nat [simp]: "digits_val 0 (show_nat n) = n"
proof (induction n rule: show_nat.induct)
  case (1 n)
  then show ?case by (cases "n < 10") (simp_all add: show_nat.simps [of n])
qed

lemma digits_val_ge: "n \<le> digits_val n cs"
proof (induction cs arbitrary: n)
  case (Cons c cs)
  have "n \<le> n * 10 + digit_val c" by simp
  also have "\<dots> \<le> digits_val (n * 10 + digit_val c) cs" by (rule Cons.IH)
  finally show ?case by simp
qed simp

lemma digits_val_shift: "digits_val n cs = n * 10 ^ length cs + digits_val 0 cs"
proof (induction cs arbitrary: n)
  case (Cons c cs)
  from Cons.IH [of "n * 10 + digit_val c"] Cons.IH [of "digit_val c"]
  show ?case by (simp add: algebra_simps)
qed simp

section \<open>strconv: int64\<close>

text \<open>
  The digit loop of \<open>ParseUint(s, 10, 64)\<close>: a byte that is no digit is a syntax error,
  an accumulator at the cutoff \<open>maxUint64/10 + 1\<close> or a sum beyond 64 bits a range error.
\<close>

fun parse_uint_loop :: "nat \<Rightarrow> bytes \<Rightarrow> go_error + nat" where
  "parse_uint_loop n [] = Inr n"
| "parse_uint_loop n (c # cs) =
     (if \<not> is_digit c then Inl ErrSyntax
      else if n \<ge> 1844674407370955162 then Inl ErrRange
      else let n1 = n * 10 + digit_val c
           in if n1 \<ge> 2 ^ 64 then Inl ErrRange else parse_uint_loop n1 cs)"

definition ParseUint :: "bytes \<Rightarrow> go_error + nat" where
  "ParseUint s = (if s = [] then Inl ErrSyntax else parse_uint_loop 0 s)"

definition ParseInt :: "bytes \<Rightarrow> go_error + int64" where
  "ParseInt s =
     (case s of [] \<Rightarrow> Inl ErrSyntax
      | c # cs \<Rightarrow>
          let neg = (c = CHR ''-''); ds = (if c = CHR ''+'' \<or> c = CHR ''-'' then cs else s)
          in case ParseUint ds of
               Inl e \<Rightarrow> Inl e
             | Inr un \<Rightarrow>
                 if \<not> neg \<and> un \<ge> 2 ^ 63 then Inl ErrRange
                 else if neg \<and> un > 2 ^ 63 then Inl ErrRange
                 else Inr (word_of_int (if neg then - int un else int un)))"

definition FormatInt :: "int64 \<Rightarrow> bytes" where
  "FormatInt v = (if sint v < 0 then CHR ''-'' # show_nat (nat (- sint v))
                  else show_nat (nat (sint v)))"

text \<open>\<open>strconv.Atoi\<close> on a 64-bit platform.\<close>

definition Atoi :: "bytes \<Rightarrow> go_error + int64" where
  "Atoi = ParseInt"

definition ParseBool :: "bytes \<Rightarrow> go_error + bool" where
  "ParseBool s =
     (if s \<in> {''1'', ''t'', ''T'', ''true'', ''TRUE'', ''True''} then Inr True
      else if s \<in> {''0'', ''f'', ''F'', ''false'', ''FALSE'', ''False''} then Inr False
      else Inl ErrSyntax)"

lemma parse_uint_loop_digits:
  "(\<And>c. c \<in> set cs \<Longrightarrow> is_digit c) \<Longrightarrow> digits_val n cs < 2 ^ 64 \<Longrightarrow>
   parse_uint_loop n cs = Inr (digits_val n cs)"
proof (induction cs arbitrary: n)
  case (Cons c cs)
  have le: "n * 10 + digit_val c \<le> digits_val n (c # cs)"
    using digits_val_ge by simp
  with Cons.prems(2) have "n * 10 + digit_val c < 2 ^ 64" by linarith
  moreover from this have "n < 1844674407370955162" by simp
  ultimately show ?case using Cons by (simp add: Let_def)
qed simp

lemma ParseUint_show_nat: "n < 2 ^ 64 \<Longrightarrow> ParseUint (show_nat n) = Inr n"
  using parse_uint_loop_digits [of "show_nat n" 0] show_nat_digits by (simp add: ParseUint_def)

lemma ParseInt_digits:
  "ds \<noteq> [] \<Longrightarrow> is_digit (hd ds) \<Longrightarrow>
   ParseInt ds = (case ParseUint ds of Inl e \<Rightarrow> Inl e
     | Inr un \<Rightarrow> if un \<ge> 2 ^ 63 then Inl ErrRange else Inr (word_of_int (int un)))"
  by (cases ds) (auto simp: ParseInt_def Let_def split: sum.splits)

lemma ParseInt_minus:
  "ParseInt (CHR ''-'' # ds) = (case ParseUint ds of Inl e \<Rightarrow> Inl e
     | Inr un \<Rightarrow> if un > 2 ^ 63 then Inl ErrRange else Inr (word_of_int (- int un)))"
  by (auto simp: ParseInt_def Let_def split: sum.splits)

lemma sint_bounds64: "- (2 ^ 63) \<le> sint (v :: int64)" "sint (v :: int64) < 2 ^ 63"
  using sint_greater_eq [of v] sint_less [of v] by simp_all

lemma ParseInt_FormatInt [simp, lib_simps]: "ParseInt (FormatInt v) = Inr v"
proof (cases "sint v < 0")
  case True
  then have "nat (- sint v) < 2 ^ 64" and "nat (- sint v) \<le> 2 ^ 63"
    using sint_bounds64 [of v] by simp_all
  with True show ?thesis by (simp add: FormatInt_def ParseInt_minus ParseUint_show_nat)
next
  case False
  then have "nat (sint v) < 2 ^ 64" and "nat (sint v) < 2 ^ 63"
    using sint_bounds64 [of v] by simp_all
  with False show ?thesis by (simp add: FormatInt_def ParseInt_digits ParseUint_show_nat)
qed

text \<open>A decimal text is accepted exactly when the integer it denotes fits.\<close>

lemma parse_uint_loop_Inr:
  "parse_uint_loop n cs = Inr m \<Longrightarrow> n < 2 ^ 64 \<Longrightarrow>
   (\<forall>c \<in> set cs. is_digit c) \<and> m = digits_val n cs \<and> m < 2 ^ 64"
proof (induction cs arbitrary: n)
  case (Cons c cs)
  then show ?case by (auto simp: Let_def split: if_splits)
qed auto

lemma ParseUint_Inr:
  "ParseUint s = Inr m \<Longrightarrow> s \<noteq> [] \<and> (\<forall>c \<in> set s. is_digit c) \<and> m = digits_val 0 s \<and> m < 2 ^ 64"
  using parse_uint_loop_Inr [of 0 s m] by (auto simp: ParseUint_def split: if_splits)

end
