(* ===== verification/Go_Flag.thy ===== *)
theory Go_Flag
  imports Go_Float
begin

text \<open>
  The command line: \<open>flag.Parse\<close> with the flag kinds the programs register, and
  \<open>strconv.ParseUint\<close> with base 0, which its \<open>uint\<close> flags use.
\<close>

section \<open>strconv.ParseUint(s, 0, 64)\<close>

definition digit_of :: "char \<Rightarrow> nat option" where
  "digit_of c =
     (if is_digit c then Some (digit_val c)
      else if CHR ''a'' \<le> lower c \<and> lower c \<le> CHR ''z'' then Some (of_char (lower c) - 87)
      else None)"

fun uint_loop :: "nat \<Rightarrow> nat \<Rightarrow> bytes \<Rightarrow> go_error + nat" where
  "uint_loop base n [] = Inr n"
| "uint_loop base n (c # cs) =
     (if c = CHR ''_'' then uint_loop base n cs
      else case digit_of c of
             None \<Rightarrow> Inl ErrSyntax
           | Some d \<Rightarrow>
               if base \<le> d then Inl ErrSyntax
               else if (2 ^ 64 - 1) div base < n then Inl ErrRange
               else if 2 ^ 64 \<le> n * base + d then Inl ErrRange
               else uint_loop base (n * base + d) cs)"

definition base_prefix :: "bytes \<Rightarrow> nat \<times> bytes" where
  "base_prefix s =
     (case s of
        z # x # y # cs \<Rightarrow>
          if z \<noteq> CHR ''0'' then (10, s)
          else if lower x = CHR ''b'' then (2, y # cs)
          else if lower x = CHR ''o'' then (8, y # cs)
          else if lower x = CHR ''x'' then (16, y # cs)
          else (8, tl s)
      | z # cs \<Rightarrow> if z = CHR ''0'' then (8, cs) else (10, s)
      | [] \<Rightarrow> (10, s))"

definition ParseUint0 :: "bytes \<Rightarrow> go_error + nat" where
  "ParseUint0 s =
     (if s = [] then Inl ErrSyntax
      else case base_prefix s of (base, ds) \<Rightarrow>
        (case uint_loop base 0 ds of
           Inl e \<Rightarrow> Inl e
         | Inr n \<Rightarrow> if CHR ''_'' \<in> set ds \<and> \<not> underscoreOK s then Inl ErrSyntax else Inr n))"

section \<open>flag.Parse\<close>

text \<open>A flag is what setting it does to the variables \<open>'c\<close>.\<close>

datatype 'c flag =
    StringFlag "string \<Rightarrow> 'c \<Rightarrow> 'c"
  | UintFlag "64 word \<Rightarrow> 'c \<Rightarrow> 'c"
  | BoolFlag "bool \<Rightarrow> 'c \<Rightarrow> 'c"

primrec flag_set :: "'c flag \<Rightarrow> string \<Rightarrow> 'c \<Rightarrow> 'c option" where
  "flag_set (StringFlag f) v c = Some (f v c)"
| "flag_set (UintFlag f) v c = (case ParseUint0 v of Inl e \<Rightarrow> None | Inr n \<Rightarrow> Some (f (of_nat n) c))"
| "flag_set (BoolFlag f) v c = (case ParseBool v of Inl e \<Rightarrow> None | Inr b \<Rightarrow> Some (f b c))"

primrec is_bool_flag :: "'c flag \<Rightarrow> bool" where
  "is_bool_flag (StringFlag f) = False"
| "is_bool_flag (UintFlag f) = False"
| "is_bool_flag (BoolFlag f) = True"

text \<open>
  The program exits with a status on a bad flag (\<open>ExitOnError\<close>); parsing stops at the
  first argument that is not a flag and after \<open>--\<close>.
\<close>

fun parse_flags :: "(string \<Rightarrow> 'c flag option) \<Rightarrow> string list \<Rightarrow> 'c \<Rightarrow> nat + 'c \<times> string list" where
  "parse_flags formal [] c = Inr (c, [])"
| "parse_flags formal (s # args) c =
     (if length s < 2 \<or> hd s \<noteq> CHR ''-'' then Inr (c, s # args)
      else let body = (if s ! 1 = CHR ''-'' then drop 2 s else drop 1 s)
        in if body = [] then Inr (c, args)
           else if hd body = CHR ''-'' \<or> hd body = CHR ''='' then Inl 2
           else let name = takeWhile (\<lambda>x. x \<noteq> CHR ''='') body;
                    given = (if CHR ''='' \<in> set body then Some (drop (length name + 1) body) else None)
             in case formal name of
                  None \<Rightarrow> Inl (if name = ''help'' \<or> name = ''h'' then 0 else 2)
                | Some fl \<Rightarrow>
                    if given = None \<and> \<not> is_bool_flag fl then
                      (case args of
                         [] \<Rightarrow> Inl 2
                       | v # args' \<Rightarrow>
                           (case flag_set fl v c of None \<Rightarrow> Inl 2 | Some c' \<Rightarrow> parse_flags formal args' c'))
                    else
                      (case flag_set fl (case given of None \<Rightarrow> ''true'' | Some v \<Rightarrow> v) c of
                         None \<Rightarrow> Inl 2
                       | Some c' \<Rightarrow> parse_flags formal args c'))"

section \<open>Well-formed command lines\<close>

text \<open>One setting: one or two dashes, the flag, its value, and whether \<open>=\<close> or a space joins them.\<close>

record setting =
  set_double :: bool
  set_name :: string
  set_value :: string
  set_joined :: bool

definition setting_args :: "setting \<Rightarrow> string list" where
  "setting_args t =
     (let flag = (if set_double t then ''--'' else ''-'') @ set_name t
      in if set_joined t then [flag @ ''='' @ set_value t] else [flag, set_value t])"

definition flag_name :: "string \<Rightarrow> bool" where
  "flag_name n \<longleftrightarrow> n \<noteq> [] \<and> hd n \<noteq> CHR ''-'' \<and> CHR ''='' \<notin> set n"

text \<open>A setting that is accepted: a known flag, a value it can take, \<open>=\<close> for a bool.\<close>

definition setting_ok :: "(string \<Rightarrow> 'c flag option) \<Rightarrow> setting \<Rightarrow> bool" where
  "setting_ok formal t \<longleftrightarrow> flag_name (set_name t) \<and>
     (case formal (set_name t) of
        None \<Rightarrow> False
      | Some fl \<Rightarrow> (\<forall>c. flag_set fl (set_value t) c \<noteq> None) \<and> (is_bool_flag fl \<longrightarrow> set_joined t))"

definition put_setting :: "(string \<Rightarrow> 'c flag option) \<Rightarrow> 'c \<Rightarrow> setting \<Rightarrow> 'c" where
  "put_setting formal c t = the (flag_set (the (formal (set_name t))) (set_value t) c)"

lemma takeWhile_flag: "CHR ''='' \<notin> set n \<Longrightarrow> takeWhile (\<lambda>x. x \<noteq> CHR ''='') (n @ CHR ''='' # v) = n"
  by (induction n) auto

lemma takeWhile_name: "CHR ''='' \<notin> set n \<Longrightarrow> takeWhile (\<lambda>x. x \<noteq> CHR ''='') n = n"
  by (induction n) auto

lemma parse_setting:
  assumes "setting_ok formal t"
  shows "parse_flags formal (setting_args t @ rest) c = parse_flags formal rest (put_setting formal c t)"
proof -
  obtain fl where fl: "formal (set_name t) = Some fl" "flag_set fl (set_value t) c \<noteq> None" "is_bool_flag fl \<longrightarrow> set_joined t"
    using assms by (auto simp: setting_ok_def split: option.splits)
  then obtain c' where c': "flag_set fl (set_value t) c = Some c'" by blast
  then have put: "put_setting formal c t = c'" using fl by (simp add: put_setting_def)
  obtain x xs where n: "set_name t = x # xs" "x \<noteq> CHR ''-''" "x \<noteq> CHR ''=''" "CHR ''='' \<notin> set xs"
    using assms by (cases "set_name t") (auto simp: setting_ok_def flag_name_def)
  show ?thesis
  proof (cases "set_joined t")
    case True
    with n fl c' put show ?thesis
      by (cases "set_double t") (simp_all add: setting_args_def Let_def takeWhile_flag)
  next
    case False
    with n fl c' put show ?thesis
      by (cases "set_double t") (simp_all add: setting_args_def Let_def takeWhile_name)
  qed
qed

lemma parse_settings:
  "list_all (setting_ok formal) ts \<Longrightarrow>
   parse_flags formal (concat (map setting_args ts)) c = Inr (foldl (put_setting formal) c ts, [])"
  by (induction ts arbitrary: c) (simp_all add: parse_setting)

text \<open>A variable that one flag sets has the flag's last value.\<close>

lemma last_setting:
  assumes "\<forall>c. \<forall>t \<in> set ts. get (put_setting formal c t) = (if set_name t = n then val (set_value t) else get c)"
  shows "get (foldl (put_setting formal) c ts) =
    (case map_of (rev (map (\<lambda>t. (set_name t, set_value t)) ts)) n of None \<Rightarrow> get c | Some v \<Rightarrow> val v)"
  using assms
proof (induction ts rule: rev_induct)
  case (snoc t ts)
  then show ?case by simp
qed simp

end
