(* ===== verification/Options.thy ===== *)
theory Options
  imports Go_Flag
begin

text \<open>
  \<open>internal/options/options.go\<close>, the settings taken from the environment, and
  \<open>internal/opts/opts.go\<close>, its predecessor, which also registers a flag and which nothing
  calls. The environment is what \<open>os.LookupEnv\<close> returns; the messages on standard output
  are left out.
\<close>

type_synonym env = "string \<Rightarrow> string option"

definition Getenv :: "env \<Rightarrow> string \<Rightarrow> string" where
  "Getenv env name = (case env name of None \<Rightarrow> [] | Some v \<Rightarrow> v)"

section \<open>options\<close>

definition SetEnvStr :: "env \<Rightarrow> string \<Rightarrow> string \<Rightarrow> string" where
  "SetEnvStr env envName p = (let v = Getenv env envName in if v \<noteq> [] then v else p)"

text \<open>The conversion \<open>uint(i)\<close> keeps the 64 bits.\<close>

definition SetEnvUint :: "env \<Rightarrow> string \<Rightarrow> 64 word \<Rightarrow> 64 word" where
  "SetEnvUint env envName p =
     (let v = Getenv env envName
      in if v \<noteq> [] then (case Atoi v of Inl err \<Rightarrow> p | Inr i \<Rightarrow> i) else p)"

definition SetEnvBool :: "env \<Rightarrow> string \<Rightarrow> bool \<Rightarrow> bool" where
  "SetEnvBool env envName p =
     (case env envName of
        None \<Rightarrow> p
      | Some v \<Rightarrow> (case ParseBool v of Inl err \<Rightarrow> p | Inr b \<Rightarrow> b))"

section \<open>opts\<close>

text \<open>
  What \<open>Atoi\<close> and \<open>ParseBool\<close> return beside an error: the nearest number when it is
  out of range, else zero.
\<close>

definition Atoi_value :: "bytes \<Rightarrow> int64" where
  "Atoi_value s =
     (case Atoi s of
        Inr i \<Rightarrow> i
      | Inl e \<Rightarrow> if e = ErrRange then (if has_minus s then word_of_int (- (2 ^ 63)) else word_of_int (2 ^ 63 - 1)) else 0)"

text \<open>The value of the variable, and the default the flag is registered with, if it is.\<close>

definition opts_SetStr :: "env \<Rightarrow> string \<Rightarrow> string \<Rightarrow> string \<times> string option" where
  "opts_SetStr env envName defaultValue =
     (let v = Getenv env envName in if v = [] then (defaultValue, Some defaultValue) else (v, None))"

definition opts_SetInt :: "env \<Rightarrow> string \<Rightarrow> 64 word \<Rightarrow> 64 word \<times> 64 word option" where
  "opts_SetInt env envName defaultValue =
     (let ev = Getenv env envName
      in if ev \<noteq> [] then (Atoi_value ev, (case Atoi ev of Inl err \<Rightarrow> Some defaultValue | Inr i \<Rightarrow> None))
         else (defaultValue, Some defaultValue))"

definition opts_SetBool :: "env \<Rightarrow> string \<Rightarrow> bool \<Rightarrow> bool \<times> bool option" where
  "opts_SetBool env envName defaultValue =
     (case env envName of
        Some ev \<Rightarrow> (case ParseBool ev of Inl err \<Rightarrow> (False, Some defaultValue) | Inr b \<Rightarrow> (b, None))
      | None \<Rightarrow> (defaultValue, Some defaultValue))"

section \<open>Facts\<close>

text \<open>A negative number is accepted and becomes a huge one; a bad one keeps the old value.\<close>

lemma SetEnvUint_cases:
  "Getenv env n = [] \<Longrightarrow> SetEnvUint env n p = p"
  "Getenv env n \<noteq> [] \<Longrightarrow> Atoi (Getenv env n) = Inl e \<Longrightarrow> SetEnvUint env n p = p"
  "Getenv env n \<noteq> [] \<Longrightarrow> Atoi (Getenv env n) = Inr i \<Longrightarrow> SetEnvUint env n p = i"
  by (simp_all add: SetEnvUint_def)

lemma SetEnvUint_negative: "Getenv env n = ''-1'' \<Longrightarrow> SetEnvUint env n p = 18446744073709551615"
proof -
  have "Atoi ''-1'' = Inr (- 1)" by code_simp
  then show "Getenv env n = ''-1'' \<Longrightarrow> ?thesis" by (simp add: SetEnvUint_def)
qed

text \<open>In \<open>opts\<close> a bad number replaces the default by zero, although the flag has the default.\<close>

lemma opts_SetInt_bad: "Getenv env n = ''x'' \<Longrightarrow> opts_SetInt env n d = (0, Some d)"
proof -
  have "Atoi ''x'' = Inl ErrSyntax" by code_simp
  then show "Getenv env n = ''x'' \<Longrightarrow> ?thesis" by (simp add: opts_SetInt_def Atoi_value_def)
qed

end
