(* ===== verification/Go_Json.thy ===== *)
theory Go_Json
  imports Go_Float
begin

text \<open>
  What the program uses of \<open>encoding/json\<close>: the syntax check and the decoding of a text
  into a tree (\<open>json_parse\<close>), the decoding of a tree into numbers, strings and maps with
  Go's rules for \<open>null\<close>, for duplicate keys and for values of the wrong type (the first
  error is reported, the decoding goes on), and the encoder for strings, numbers and maps.
  Byte strings that are not UTF-8 are repaired with U+FFFD, as the package does.
\<close>

section \<open>Syntax trees\<close>

datatype json =
    JNull
  | JBool bool
  | JNum bytes
  | JStr bytes
  | JArr "json list"
  | JObj "(bytes \<times> json) list"

section \<open>UTF-8\<close>

definition byte_in :: "nat \<Rightarrow> nat \<Rightarrow> char \<Rightarrow> bool" where
  "byte_in lo hi c \<longleftrightarrow> lo \<le> (of_char c :: nat) \<and> (of_char c :: nat) \<le> hi"

text \<open>
  The length of the valid multi-byte sequence a text starts with, 0 when its first byte
  starts none.
\<close>

definition utf8_len :: "bytes \<Rightarrow> nat" where
  "utf8_len s =
     (case s of
        a # b # t \<Rightarrow>
          if byte_in 0xC2 0xDF a then (if byte_in 0x80 0xBF b then 2 else 0)
          else if byte_in 0xE0 0xEF a then
            (case t of
               c # _ \<Rightarrow>
                 if byte_in (if of_char a = (0xE0::nat) then 0xA0 else 0x80)
                            (if of_char a = (0xED::nat) then 0x9F else 0xBF) b
                    \<and> byte_in 0x80 0xBF c then 3 else 0
             | [] \<Rightarrow> 0)
          else if byte_in 0xF0 0xF4 a then
            (case t of
               c # d # _ \<Rightarrow>
                 if byte_in (if of_char a = (0xF0::nat) then 0x90 else 0x80)
                            (if of_char a = (0xF4::nat) then 0x8F else 0xBF) b
                    \<and> byte_in 0x80 0xBF c \<and> byte_in 0x80 0xBF d then 4 else 0
             | _ \<Rightarrow> 0)
          else 0
      | _ \<Rightarrow> 0)"

definition encode_rune :: "nat \<Rightarrow> bytes" where
  "encode_rune r =
     (if r < 0x80 then [char_of r]
      else if r < 0x800 then [char_of (0xC0 + r div 64), char_of (0x80 + r mod 64)]
      else if 0xD800 \<le> r \<and> r \<le> 0xDFFF \<or> 0x10FFFF < r
      then [char_of (0xEF::nat), char_of (0xBF::nat), char_of (0xBD::nat)]
      else if r < 0x10000
      then [char_of (0xE0 + r div 4096), char_of (0x80 + r div 64 mod 64), char_of (0x80 + r mod 64)]
      else [char_of (0xF0 + r div 262144), char_of (0x80 + r div 4096 mod 64),
            char_of (0x80 + r div 64 mod 64), char_of (0x80 + r mod 64)])"

definition rune_error :: bytes where
  "rune_error = encode_rune 0xFFFD"

section \<open>Scanning\<close>

definition is_ws :: "char \<Rightarrow> bool" where
  "is_ws c \<longleftrightarrow> (of_char c :: nat) \<in> {32, 9, 10, 13}"

definition skip_ws :: "bytes \<Rightarrow> bytes" where
  "skip_ws s = dropWhile is_ws s"

definition is_hex :: "char \<Rightarrow> bool" where
  "is_hex c \<longleftrightarrow> is_digit c \<or> is_hex_letter c"

text \<open>\<open>getu4\<close> without the leading \<open>\u\<close>: four hexadecimal digits.\<close>

definition hex4 :: "bytes \<Rightarrow> nat option" where
  "hex4 s =
     (case s of
        a # b # c # d # _ \<Rightarrow>
          if is_hex a \<and> is_hex b \<and> is_hex c \<and> is_hex d
          then Some (((hex_val a * 16 + hex_val b) * 16 + hex_val c) * 16 + hex_val d)
          else None
      | _ \<Rightarrow> None)"

text \<open>The code point of a surrogate pair whose second half is the next escape, if it is one.\<close>

definition low_surrogate :: "nat \<Rightarrow> bytes \<Rightarrow> nat option" where
  "low_surrogate hi s =
     (case s of
        e # u # t \<Rightarrow>
          if e = CHR 0x5C \<and> u = CHR ''u'' \<and> hi < 0xDC00 then
            (case hex4 t of
               Some lo \<Rightarrow> if 0xDC00 \<le> lo \<and> lo \<le> 0xDFFF
                          then Some ((hi - 0xD800) * 1024 + (lo - 0xDC00) + 0x10000) else None
             | None \<Rightarrow> None)
          else None
      | _ \<Rightarrow> None)"

definition simple_escape :: "char \<Rightarrow> char option" where
  "simple_escape c =
     (if c = CHR 0x22 \<or> c = CHR 0x5C \<or> c = CHR ''/'' then Some c
      else if c = CHR ''b'' then Some (char_of (8::nat))
      else if c = CHR ''f'' then Some (char_of (12::nat))
      else if c = CHR ''n'' then Some (char_of (10::nat))
      else if c = CHR ''r'' then Some (char_of (13::nat))
      else if c = CHR ''t'' then Some (char_of (9::nat))
      else None)"

text \<open>
  A string literal after its opening quote: the decoded bytes and the text after the
  closing quote. The first argument is fuel; the length of the text is enough.
\<close>

fun scan_string :: "nat \<Rightarrow> bytes \<Rightarrow> (bytes \<times> bytes) option" where
  "scan_string 0 s = None"
| "scan_string (Suc n) str =
     (case str of [] \<Rightarrow> None | c # s \<Rightarrow>
      if c = CHR 0x22 then Some ([], s)
      else if c = CHR 0x5C then
        (case s of
           [] \<Rightarrow> None
         | e # t \<Rightarrow>
             (case simple_escape e of
                Some x \<Rightarrow> map_option (apfst (Cons x)) (scan_string n t)
              | None \<Rightarrow>
                  if e \<noteq> CHR ''u'' then None
                  else (case hex4 t of
                          None \<Rightarrow> None
                        | Some r \<Rightarrow>
                            let t' = drop 4 t
                            in if 0xD800 \<le> r \<and> r \<le> 0xDFFF then
                                 (case low_surrogate r t' of
                                    Some r' \<Rightarrow> map_option (apfst (append (encode_rune r')))
                                                (scan_string n (drop 6 t'))
                                  | None \<Rightarrow> map_option (apfst (append rune_error)) (scan_string n t'))
                               else map_option (apfst (append (encode_rune r))) (scan_string n t'))))
      else if (of_char c :: nat) < 32 then None
      else if (of_char c :: nat) < 128 then map_option (apfst (Cons c)) (scan_string n s)
      else let k = utf8_len (c # s)
           in if k = 0 then map_option (apfst (append rune_error)) (scan_string n s)
              else map_option (apfst (append (take k (c # s)))) (scan_string n (drop k (c # s))))"

text \<open>A number literal: an optional minus, an integer part without leading zeros, a fraction, an exponent.\<close>

definition scan_digits :: "bytes \<Rightarrow> (bytes \<times> bytes) option" where
  "scan_digits s = (let ds = takeWhile is_digit s
                    in if ds = [] then None else Some (ds, dropWhile is_digit s))"

definition scan_int :: "bytes \<Rightarrow> (bytes \<times> bytes) option" where
  "scan_int s =
     (case s of
        [] \<Rightarrow> None
      | c # t \<Rightarrow> if c = CHR ''0'' then Some ([c], t) else scan_digits s)"

definition scan_frac :: "bytes \<Rightarrow> (bytes \<times> bytes) option" where
  "scan_frac s =
     (case s of
        [] \<Rightarrow> Some ([], [])
      | c # t \<Rightarrow> if c = CHR ''.'' then map_option (apfst (Cons c)) (scan_digits t) else Some ([], s))"

definition scan_exp :: "bytes \<Rightarrow> (bytes \<times> bytes) option" where
  "scan_exp s =
     (case s of
        [] \<Rightarrow> Some ([], [])
      | c # t \<Rightarrow>
          if c = CHR ''e'' \<or> c = CHR ''E'' then
            (case t of
               [] \<Rightarrow> None
             | d # u \<Rightarrow>
                 if d = CHR ''+'' \<or> d = CHR ''-''
                 then map_option (apfst (append [c, d])) (scan_digits u)
                 else map_option (apfst (Cons c)) (scan_digits t))
          else Some ([], s))"

definition scan_unsigned :: "bytes \<Rightarrow> (bytes \<times> bytes) option" where
  "scan_unsigned s =
     (case scan_int s of
        None \<Rightarrow> None
      | Some (i, s1) \<Rightarrow>
          (case scan_frac s1 of
             None \<Rightarrow> None
           | Some (f, s2) \<Rightarrow>
               (case scan_exp s2 of None \<Rightarrow> None | Some (e, s3) \<Rightarrow> Some (i @ f @ e, s3))))"

definition scan_number :: "bytes \<Rightarrow> (bytes \<times> bytes) option" where
  "scan_number s =
     (case s of
        [] \<Rightarrow> None
      | c # t \<Rightarrow> if c = CHR ''-'' then map_option (apfst (Cons c)) (scan_unsigned t)
                  else scan_unsigned s)"

definition strip_prefix :: "bytes \<Rightarrow> bytes \<Rightarrow> bytes option" where
  "strip_prefix p s = (if prefix p s then Some (drop (length p) s) else None)"

text \<open>
  Values. The first argument bounds the nesting (Go allows 10000 open brackets), the
  second is fuel: twice the length of the text, plus two, is enough.
\<close>

fun json_value :: "nat \<Rightarrow> nat \<Rightarrow> bytes \<Rightarrow> (json \<times> bytes) option"
and json_elems :: "nat \<Rightarrow> nat \<Rightarrow> bytes \<Rightarrow> (json list \<times> bytes) option"
and json_members :: "nat \<Rightarrow> nat \<Rightarrow> bytes \<Rightarrow> ((bytes \<times> json) list \<times> bytes) option" where
  "json_value d 0 s = None"
| "json_value d (Suc n) s =
     (case skip_ws s of
        [] \<Rightarrow> None
      | c # t \<Rightarrow>
          if c = CHR 0x22 then map_option (apfst JStr) (scan_string (length t) t)
          else if c = CHR ''{'' then
            (if d = 0 then None
             else case skip_ws t of
                    [] \<Rightarrow> None
                  | b # u \<Rightarrow> if b = CHR ''}'' then Some (JObj [], u)
                              else map_option (apfst JObj) (json_members (d - 1) n (b # u)))
          else if c = CHR ''['' then
            (if d = 0 then None
             else case skip_ws t of
                    [] \<Rightarrow> None
                  | b # u \<Rightarrow> if b = CHR '']'' then Some (JArr [], u)
                              else map_option (apfst JArr) (json_elems (d - 1) n (b # u)))
          else if c = CHR ''-'' \<or> is_digit c then map_option (apfst JNum) (scan_number (c # t))
          else (case strip_prefix ''true'' (c # t) of Some u \<Rightarrow> Some (JBool True, u)
                | None \<Rightarrow> (case strip_prefix ''false'' (c # t) of Some u \<Rightarrow> Some (JBool False, u)
                | None \<Rightarrow> (case strip_prefix ''null'' (c # t) of Some u \<Rightarrow> Some (JNull, u)
                | None \<Rightarrow> None))))"
| "json_elems d 0 s = None"
| "json_elems d (Suc n) s =
     (case json_value d n s of
        None \<Rightarrow> None
      | Some (v, t) \<Rightarrow>
          (case skip_ws t of
             [] \<Rightarrow> None
           | c # u \<Rightarrow> if c = CHR '']'' then Some ([v], u)
                       else if c = CHR '','' then map_option (apfst (Cons v)) (json_elems d n u)
                       else None))"
| "json_members d 0 s = None"
| "json_members d (Suc n) s =
     (case skip_ws s of
        [] \<Rightarrow> None
      | q # t \<Rightarrow>
          if q \<noteq> CHR 0x22 then None
          else case scan_string (length t) t of
                 None \<Rightarrow> None
               | Some (k, t1) \<Rightarrow>
                   (case skip_ws t1 of
                      [] \<Rightarrow> None
                    | c # t2 \<Rightarrow>
                        if c \<noteq> CHR '':'' then None
                        else case json_value d n t2 of
                               None \<Rightarrow> None
                             | Some (v, t3) \<Rightarrow>
                                 (case skip_ws t3 of
                                    [] \<Rightarrow> None
                                  | e # u \<Rightarrow>
                                      if e = CHR ''}'' then Some ([(k, v)], u)
                                      else if e = CHR '','' then map_option (apfst (Cons (k, v))) (json_members d n u)
                                      else None)))"

definition json_parse :: "bytes \<Rightarrow> json option" where
  "json_parse s =
     (case json_value 10000 (2 * length s + 2) s of
        Some (v, t) \<Rightarrow> if skip_ws t = [] then Some v else None
      | None \<Rightarrow> None)"

section \<open>Decoding into Go values\<close>

definition type_error :: go_error where
  "type_error = ErrMsg ''json: cannot unmarshal''"

definition syntax_error :: go_error where
  "syntax_error = ErrMsg ''json: invalid syntax''"

text \<open>The decoder keeps the first error it saves and goes on.\<close>

definition first_error :: "go_error option \<Rightarrow> go_error option \<Rightarrow> go_error option" where
  "first_error e e' = (case e of Some x \<Rightarrow> Some x | None \<Rightarrow> e')"

text \<open>
  A literal into a variable that already holds a value: \<open>null\<close> and a value of the wrong
  type leave it alone.
\<close>

definition decode_float :: "json \<Rightarrow> float64 \<Rightarrow> go_error option \<times> float64" where
  "decode_float j old =
     (case j of
        JNull \<Rightarrow> (None, old)
      | JNum l \<Rightarrow> (case ParseFloat l of Inl e \<Rightarrow> (Some type_error, old) | Inr f \<Rightarrow> (None, f))
      | _ \<Rightarrow> (Some type_error, old))"

definition decode_int :: "json \<Rightarrow> int64 \<Rightarrow> go_error option \<times> int64" where
  "decode_int j old =
     (case j of
        JNull \<Rightarrow> (None, old)
      | JNum l \<Rightarrow> (case ParseInt l of Inl e \<Rightarrow> (Some type_error, old) | Inr i \<Rightarrow> (None, i))
      | _ \<Rightarrow> (Some type_error, old))"

definition decode_string :: "json \<Rightarrow> bytes \<Rightarrow> go_error option \<times> bytes" where
  "decode_string j old =
     (case j of JNull \<Rightarrow> (None, old) | JStr s \<Rightarrow> (None, s) | _ \<Rightarrow> (Some type_error, old))"

text \<open>Into a pointer: \<open>null\<close> sets it to nil, anything else allocates before it decodes.\<close>

definition decode_ptr :: "(json \<Rightarrow> 'a \<Rightarrow> go_error option \<times> 'a) \<Rightarrow> 'a \<Rightarrow> json \<Rightarrow> 'a option \<Rightarrow> go_error option \<times> 'a option" where
  "decode_ptr dec zero j old =
     (case j of
        JNull \<Rightarrow> (None, None)
      | _ \<Rightarrow> apsnd Some (dec j (case old of None \<Rightarrow> zero | Some x \<Rightarrow> x)))"

text \<open>Into a map: every member is stored, also the zero value of one that failed to decode.\<close>

fun decode_members :: "(json \<Rightarrow> 'v \<Rightarrow> go_error option \<times> 'v) \<Rightarrow> 'v \<Rightarrow> (bytes \<times> json) list
    \<Rightarrow> go_error option \<Rightarrow> 'v gomap \<Rightarrow> go_error option \<times> 'v gomap" where
  "decode_members dec zero [] err m = (err, m)"
| "decode_members dec zero ((k, j) # js) err m =
     (case dec j zero of (e, v) \<Rightarrow> decode_members dec zero js (first_error err e) (fmupd k v m))"

definition decode_map :: "(json \<Rightarrow> 'v \<Rightarrow> go_error option \<times> 'v) \<Rightarrow> 'v \<Rightarrow> json \<Rightarrow> go_error option \<times> 'v gomap" where
  "decode_map dec zero j =
     (case j of
        JNull \<Rightarrow> (None, fmempty)
      | JObj js \<Rightarrow> decode_members dec zero js None fmempty
      | _ \<Rightarrow> (Some type_error, fmempty))"

text \<open>\<open>json.Unmarshal\<close> into a nil map: a syntax error leaves the map nil (here, empty).\<close>

definition unmarshal_map :: "(json \<Rightarrow> 'v \<Rightarrow> go_error option \<times> 'v) \<Rightarrow> 'v \<Rightarrow> bytes \<Rightarrow> go_error option \<times> 'v gomap" where
  "unmarshal_map dec zero s =
     (case json_parse s of None \<Rightarrow> (Some syntax_error, fmempty) | Some j \<Rightarrow> decode_map dec zero j)"

definition unmarshal_gauges :: "bytes \<Rightarrow> go_error option \<times> float64 gomap" where
  "unmarshal_gauges = unmarshal_map decode_float 0"

definition unmarshal_counters :: "bytes \<Rightarrow> go_error option \<times> int64 gomap" where
  "unmarshal_counters = unmarshal_map decode_int 0"

section \<open>Encoding\<close>

definition hex_digit :: "nat \<Rightarrow> char" where
  "hex_digit d = char_of (if d < 10 then 48 + d else 87 + d)"

definition escape_byte :: "char \<Rightarrow> bytes" where
  "escape_byte c =
     (let b = of_char c :: nat
      in if c = CHR 0x22 \<or> c = CHR 0x5C then [CHR 0x5C, c]
         else if b = 8 then [CHR 0x5C, CHR ''b'']
         else if b = 12 then [CHR 0x5C, CHR ''f'']
         else if b = 10 then [CHR 0x5C, CHR ''n'']
         else if b = 13 then [CHR 0x5C, CHR ''r'']
         else if b = 9 then [CHR 0x5C, CHR ''t'']
         else if b < 32 \<or> c \<in> {CHR ''<'', CHR ''>'', CHR ''&''}
         then [CHR 0x5C, CHR ''u'', CHR ''0'', CHR ''0'', hex_digit (b div 16), hex_digit (b mod 16)]
         else [c])"

text \<open>\<open>appendString\<close> with HTML escaping; the fuel is the length of the text.\<close>

fun quote_body :: "nat \<Rightarrow> bytes \<Rightarrow> bytes" where
  "quote_body 0 s = []"
| "quote_body (Suc n) str =
     (case str of [] \<Rightarrow> [] | c # s \<Rightarrow>
      if (of_char c :: nat) < 128 then escape_byte c @ quote_body n s
      else let k = utf8_len (c # s)
           in if k = 0 then CHR 0x5C # ''ufffd'' @ quote_body n s
              else (if take k (c # s) = encode_rune 0x2028 then CHR 0x5C # ''u2028''
                    else if take k (c # s) = encode_rune 0x2029 then CHR 0x5C # ''u2029''
                    else take k (c # s)) @ quote_body n (drop k (c # s)))"

definition json_quote :: "bytes \<Rightarrow> bytes" where
  "json_quote s = CHR 0x22 # quote_body (length s) s @ [CHR 0x22]"

text \<open>Numbers: format \<open>'e'\<close> for magnitudes below 1e-6 or from 1e21 on.\<close>

definition json_float :: "float64 \<Rightarrow> bytes option" where
  "json_float f =
     (if \<not> is_finite f then None
      else Some (with_sign f
        (case shortest (f64_mag f) of
           (c, k) \<Rightarrow>
             if f64_mag f \<noteq> 0 \<and> (f64_mag f < round_mag (1, 10 ^ 6) \<or> round_mag (10 ^ 21, 1) \<le> f64_mag f)
             then fmt_e 1 c k else fmt_f c k)))"

definition json_int :: "int64 \<Rightarrow> bytes option" where
  "json_int v = Some (FormatInt v)"

text \<open>The members of an object, keys sorted; \<open>None\<close> when a value has no JSON form.\<close>

fun encode_members :: "('v \<Rightarrow> bytes option) \<Rightarrow> (bytes \<times> 'v) list \<Rightarrow> bytes option" where
  "encode_members enc [] = Some []"
| "encode_members enc ((k, v) # kvs) =
     (case enc v of
        None \<Rightarrow> None
      | Some b \<Rightarrow>
          (case encode_members enc kvs of
             None \<Rightarrow> None
           | Some r \<Rightarrow> Some (json_quote k @ CHR '':'' # b @ (if kvs = [] then [] else CHR '','' # r))))"

definition marshal_map :: "('v \<Rightarrow> bytes option) \<Rightarrow> 'v gomap \<Rightarrow> go_error + bytes" where
  "marshal_map enc m =
     (case encode_members enc (sorted_list_of_fmap m) of
        None \<Rightarrow> Inl (ErrMsg ''json: unsupported value'')
      | Some b \<Rightarrow> Inr (CHR ''{'' # b @ ''}''))"

definition marshal_gauges :: "float64 gomap \<Rightarrow> go_error + bytes" where
  "marshal_gauges = marshal_map json_float"

definition marshal_counters :: "int64 gomap \<Rightarrow> go_error + bytes" where
  "marshal_counters = marshal_map json_int"

end
