(* ===== verification/Config.thy ===== *)
theory Config
  imports Options Go_Json
begin

text \<open>
  The settings of the two programs (\<open>flags\<close>, \<open>init\<close> and \<open>setEnv\<close> of
  \<open>cmd/server/main.go\<close> and \<open>cmd/agent/main.go\<close>): the built-in values, the JSON file,
  the command line and the environment. The agent's \<open>init\<close> also names a field that does
  not exist (\<open>agOpts.key\<close>), so the package does not compile as it is; that line is left
  out.
\<close>

section \<open>The configuration file\<close>

text \<open>
  \<open>os.Stat\<close> and \<open>os.ReadFile\<close>: a failing \<open>Stat\<close> other than "not exist" leaves a nil
  \<open>FileInfo\<close>; a failing read gives the bytes read so far, which are used all the same.
\<close>

datatype config_file = NoFile | StatFailed | Directory | ConfigFile bytes

definition decode_bool :: "json \<Rightarrow> bool \<Rightarrow> bool" where
  "decode_bool j old = (case j of JBool b \<Rightarrow> b | _ \<Rightarrow> old)"

definition decode_uint :: "json \<Rightarrow> 64 word \<Rightarrow> 64 word" where
  "decode_uint j old =
     (case j of JNum l \<Rightarrow> (case ParseUint l of Inl e \<Rightarrow> old | Inr n \<Rightarrow> of_nat n) | _ \<Rightarrow> old)"

definition decode_str :: "json \<Rightarrow> string \<Rightarrow> string" where
  "decode_str j old = snd (decode_string j old)"

text \<open>Field names match up to case, with the two code points beyond ASCII that fold to \<open>s\<close> and \<open>k\<close>.\<close>

fun fold_name :: "bytes \<Rightarrow> bytes" where
  "fold_name [] = []"
| "fold_name (c # cs) =
     (if HasPrefix (c # cs) [CHR 0xC5, CHR 0xBF] then CHR ''s'' # fold_name (drop 1 cs)
      else if HasPrefix (c # cs) [CHR 0xE2, CHR 0x84, CHR 0xAA] then CHR ''k'' # fold_name (drop 2 cs)
      else lower c # fold_name cs)"

text \<open>\<open>json.Unmarshal\<close> into the defaults; its error is only printed.\<close>

definition unmarshal_into :: "(string \<Rightarrow> json \<Rightarrow> 'c \<Rightarrow> 'c) \<Rightarrow> bytes \<Rightarrow> 'c \<Rightarrow> 'c" where
  "unmarshal_into field b c =
     (case json_parse b of
        Some (JObj js) \<Rightarrow> foldl (\<lambda>c (k, j). field (fold_name k) j c) c js
      | _ \<Rightarrow> c)"

definition read_config :: "(string \<Rightarrow> json \<Rightarrow> 'c \<Rightarrow> 'c) \<Rightarrow> config_file \<Rightarrow> 'c \<Rightarrow> 'c outcome" where
  "read_config field stat c =
     (case stat of
        NoFile \<Rightarrow> Ret c
      | StatFailed \<Rightarrow> Panic ''runtime error: invalid memory address or nil pointer dereference''
      | Directory \<Rightarrow> Ret c
      | ConfigFile b \<Rightarrow> Ret (unmarshal_into field b c))"

section \<open>The server\<close>

record server_flags =
  sf_Addr :: string
  sf_DBConnStr :: string
  sf_Mode :: string
  sf_Path :: string
  sf_Key :: string
  sf_PrivateKeyPath :: string
  sf_StoreInterval :: "64 word"
  sf_Restore :: bool

definition defSrvOpts :: server_flags where
  "defSrvOpts = \<lparr>sf_Addr = ''localhost:8080'', sf_DBConnStr = [], sf_Mode = ''dev'', sf_Path = ''./backup.json'',
     sf_Key = [], sf_PrivateKeyPath = [], sf_StoreInterval = 300, sf_Restore = False\<rparr>"

definition server_field :: "string \<Rightarrow> json \<Rightarrow> server_flags \<Rightarrow> server_flags" where
  "server_field n j c =
     (if n = ''address'' then c\<lparr>sf_Addr := decode_str j (sf_Addr c)\<rparr>
      else if n = ''database_dsn'' then c\<lparr>sf_DBConnStr := decode_str j (sf_DBConnStr c)\<rparr>
      else if n = ''mode'' then c\<lparr>sf_Mode := decode_str j (sf_Mode c)\<rparr>
      else if n = ''store_file'' then c\<lparr>sf_Path := decode_str j (sf_Path c)\<rparr>
      else if n = ''key'' then c\<lparr>sf_Key := decode_str j (sf_Key c)\<rparr>
      else if n = ''crypto_key'' then c\<lparr>sf_PrivateKeyPath := decode_str j (sf_PrivateKeyPath c)\<rparr>
      else if n = ''store_interval'' then c\<lparr>sf_StoreInterval := decode_uint j (sf_StoreInterval c)\<rparr>
      else if n = ''restore'' then c\<lparr>sf_Restore := decode_bool j (sf_Restore c)\<rparr>
      else c)"

text \<open>Every flag's default is the variable's value after the configuration file.\<close>

definition server_formal :: "string \<Rightarrow> server_flags flag option" where
  "server_formal = map_of
     [(''a'', StringFlag (\<lambda>v c. c\<lparr>sf_Addr := v\<rparr>)),
      (''d'', StringFlag (\<lambda>v c. c\<lparr>sf_DBConnStr := v\<rparr>)),
      (''m'', StringFlag (\<lambda>v c. c\<lparr>sf_Mode := v\<rparr>)),
      (''k'', StringFlag (\<lambda>v c. c\<lparr>sf_Key := v\<rparr>)),
      (''crypto-key'', StringFlag (\<lambda>v c. c\<lparr>sf_PrivateKeyPath := v\<rparr>)),
      (''f'', StringFlag (\<lambda>v c. c\<lparr>sf_Path := v\<rparr>)),
      (''i'', UintFlag (\<lambda>v c. c\<lparr>sf_StoreInterval := v\<rparr>)),
      (''r'', BoolFlag (\<lambda>v c. c\<lparr>sf_Restore := v\<rparr>))]"

definition server_setEnv :: "env \<Rightarrow> server_flags \<Rightarrow> server_flags" where
  "server_setEnv env c =
     \<lparr>sf_Addr = SetEnvStr env ''ADDRESS'' (sf_Addr c),
      sf_DBConnStr = SetEnvStr env ''DATABASE_DSN'' (sf_DBConnStr c),
      sf_Mode = SetEnvStr env ''MODE'' (sf_Mode c),
      sf_Path = SetEnvStr env ''FILE_STORAGE_PATH'' (sf_Path c),
      sf_Key = SetEnvStr env ''KEY'' (sf_Key c),
      sf_PrivateKeyPath = SetEnvStr env ''CRYPTO_KEY'' (sf_PrivateKeyPath c),
      sf_StoreInterval = SetEnvUint env ''STORE_INTERVAL'' (sf_StoreInterval c),
      sf_Restore = SetEnvBool env ''RESTORE'' (sf_Restore c)\<rparr>"

text \<open>The settings \<open>main\<close> runs on, or the status the program exits with.\<close>

definition server_config :: "config_file \<Rightarrow> string list \<Rightarrow> env \<Rightarrow> (nat + server_flags) outcome" where
  "server_config stat args env =
     map_outcome (\<lambda>c. map_sum id (\<lambda>(c, _). server_setEnv env c) (parse_flags server_formal args c))
       (read_config server_field stat defSrvOpts)"

section \<open>The agent\<close>

record agent_flags =
  af_Addr :: string
  af_Key :: string
  af_PublicKeyPath :: string
  af_RateLimit :: "64 word"
  af_ReportInterval :: "64 word"
  af_PollInterval :: "64 word"

definition defOpts :: agent_flags where
  "defOpts = \<lparr>af_Addr = ''http://localhost:8080'', af_Key = [], af_PublicKeyPath = [],
     af_RateLimit = 3, af_ReportInterval = 10, af_PollInterval = 2\<rparr>"

definition agent_field :: "string \<Rightarrow> json \<Rightarrow> agent_flags \<Rightarrow> agent_flags" where
  "agent_field n j c =
     (if n = ''address'' then c\<lparr>af_Addr := decode_str j (af_Addr c)\<rparr>
      else if n = ''key'' then c\<lparr>af_Key := decode_str j (af_Key c)\<rparr>
      else if n = ''crypto_key'' then c\<lparr>af_PublicKeyPath := decode_str j (af_PublicKeyPath c)\<rparr>
      else if n = ''rate_limit'' then c\<lparr>af_RateLimit := decode_uint j (af_RateLimit c)\<rparr>
      else if n = ''report_interval'' then c\<lparr>af_ReportInterval := decode_uint j (af_ReportInterval c)\<rparr>
      else if n = ''poll_interval'' then c\<lparr>af_PollInterval := decode_uint j (af_PollInterval c)\<rparr>
      else c)"

text \<open>
  The address pattern: any character but a newline, a word character, a colon and a digit in
  a row. The regular expression of the source asks for no more (\<open>addr_matched_regex\<close>).
\<close>

definition word_char :: "char \<Rightarrow> bool" where
  "word_char c \<longleftrightarrow> is_digit c \<or> c = CHR ''_'' \<or> (CHR ''a'' \<le> lower c \<and> lower c \<le> CHR ''z'')"

fun addr_matched :: "bytes \<Rightarrow> bool" where
  "addr_matched (a # w # c # d # s) =
     ((a \<noteq> CHR 0x0A \<and> word_char w \<and> c = CHR '':'' \<and> is_digit d) \<or> addr_matched (w # c # d # s))"
| "addr_matched _ = False"

definition setAddr :: "string \<Rightarrow> string \<Rightarrow> string" where
  "setAddr v defaultValue =
     (let hasProto = Contains v ''http://'' \<or> Contains v ''https://'';
          v1 = (if hasProto then v else ''http://'' @ v)
      in if addr_matched v1 then v1 else defaultValue)"

text \<open>\<open>config\<close> is the configuration the flags' defaults come from; \<open>-a\<close> has none.\<close>

definition agent_formal :: "agent_flags \<Rightarrow> string \<Rightarrow> agent_flags flag option" where
  "agent_formal config = map_of
     [(''a'', StringFlag (\<lambda>v c. c\<lparr>af_Addr := setAddr v (af_Addr config)\<rparr>)),
      (''k'', StringFlag (\<lambda>v c. c\<lparr>af_Key := v\<rparr>)),
      (''crypto-key'', StringFlag (\<lambda>v c. c\<lparr>af_PublicKeyPath := v\<rparr>)),
      (''l'', UintFlag (\<lambda>v c. c\<lparr>af_RateLimit := v\<rparr>)),
      (''r'', UintFlag (\<lambda>v c. c\<lparr>af_ReportInterval := v\<rparr>)),
      (''p'', UintFlag (\<lambda>v c. c\<lparr>af_PollInterval := v\<rparr>))]"

definition agent_setEnv :: "env \<Rightarrow> agent_flags \<Rightarrow> agent_flags" where
  "agent_setEnv env c =
     (let addr = (case env ''ADDRESS'' of
                    None \<Rightarrow> af_Addr c
                  | Some v \<Rightarrow> (let a = setAddr v [] in if a \<noteq> [] then a else af_Addr c))
      in c\<lparr>af_Addr := addr, af_Key := SetEnvStr env ''KEY'' (af_Key c),
           af_ReportInterval := SetEnvUint env ''REPORT_INTERVAL'' (af_ReportInterval c),
           af_PollInterval := SetEnvUint env ''POLL_INTERVAL'' (af_PollInterval c)\<rparr>)"

text \<open>The address variable starts with the built-in address, before the file is read.\<close>

definition agent_config :: "config_file \<Rightarrow> string list \<Rightarrow> env \<Rightarrow> (nat + agent_flags) outcome" where
  "agent_config stat args env =
     map_outcome (\<lambda>config. map_sum id (\<lambda>(c, _). agent_setEnv env c)
         (parse_flags (agent_formal config) args (config\<lparr>af_Addr := af_Addr defOpts\<rparr>)))
       (read_config agent_field stat defOpts)"

end
