(* ===== verification/Ciphers.thy ===== *)
theory Ciphers
  imports Go_Strings
begin

text \<open>
  \<open>internal/ciphers/ciphers.go\<close>: a message is encrypted with a fresh AES key in GCM mode,
  the key with RSA-OAEP in front of it. The primitives of \<open>crypto/*\<close> and the random bytes
  are the parameters \<open>cr\<close> and \<open>rnd\<close>; \<open>crypto_laws\<close> states what is documented of them.
\<close>

section \<open>Primitives\<close>

text \<open>\<open>rsa_Size\<close> is \<open>Size\<close> of the public key: the bytes of its modulus.\<close>

record ('pub, 'priv) Crypto =
  rsa_Size :: "'pub \<Rightarrow> nat"
  EncryptOAEP :: "bytes \<Rightarrow> 'pub \<Rightarrow> bytes \<Rightarrow> go_error + bytes"
  DecryptOAEP :: "'priv \<Rightarrow> bytes \<Rightarrow> go_error + bytes"
  gcm_Seal :: "bytes \<Rightarrow> bytes \<Rightarrow> bytes \<Rightarrow> bytes"
  gcm_Open :: "bytes \<Rightarrow> bytes \<Rightarrow> bytes \<Rightarrow> go_error + bytes"

text \<open>The three reads of the random source in one encryption.\<close>

record Entropy =
  rnd_key :: "go_error + bytes"
  rnd_nonce :: "go_error + bytes"
  rnd_oaep :: bytes

definition keySize :: nat where
  "keySize = 32"

definition encKeySize :: nat where
  "encKeySize = 256"

text \<open>\<open>gcm.NonceSize()\<close> of the standard mode.\<close>

definition NonceSize :: nat where
  "NonceSize = 12"

text \<open>\<open>aes.NewCipher\<close> accepts keys of 16, 24 and 32 bytes.\<close>

definition aes_NewCipher :: "bytes \<Rightarrow> go_error + bytes" where
  "aes_NewCipher key =
     (if length key \<in> {16, 24, 32} then Inr key else Inl (ErrMsg ''crypto/aes: invalid key size''))"

section \<open>Messages\<close>

definition EncryptMsg :: "('pub, 'priv) Crypto \<Rightarrow> Entropy \<Rightarrow> 'pub \<Rightarrow> bytes \<Rightarrow> go_error + bytes" where
  "EncryptMsg cr rnd publicKey message =
     (case rnd_key rnd of
        Inl e \<Rightarrow> Inl e
      | Inr aesKey \<Rightarrow>
          (case aes_NewCipher aesKey of
             Inl e \<Rightarrow> Inl e
           | Inr block \<Rightarrow>
               (case rnd_nonce rnd of
                  Inl e \<Rightarrow> Inl e
                | Inr nonce \<Rightarrow>
                    let encryptedMsg = nonce @ gcm_Seal cr block nonce message
                    in case EncryptOAEP cr (rnd_oaep rnd) publicKey aesKey of
                         Inl e \<Rightarrow> Inl e
                       | Inr encryptedKey \<Rightarrow> Inr (encryptedKey @ encryptedMsg))))"

text \<open>Slicing off the key panics when the message is shorter than the key.\<close>

definition slice_panic :: string where
  "slice_panic = ''runtime error: slice bounds out of range''"

definition DecryptMsg :: "('pub, 'priv) Crypto \<Rightarrow> 'priv \<Rightarrow> bytes \<Rightarrow> (go_error + bytes) outcome" where
  "DecryptMsg cr privateKey encMsg =
     (if length encMsg < encKeySize then Panic slice_panic
      else let encKey = take encKeySize encMsg; rest = drop encKeySize encMsg
           in Ret (case DecryptOAEP cr privateKey encKey of
                     Inl e \<Rightarrow> Inl e
                   | Inr aesKey \<Rightarrow>
                       (case aes_NewCipher aesKey of
                          Inl e \<Rightarrow> Inl e
                        | Inr block \<Rightarrow>
                            if length rest < NonceSize then Inl (ErrMsg ''ciphertext too short'')
                            else gcm_Open cr block (take NonceSize rest) (drop NonceSize rest))))"

section \<open>Keys\<close>

text \<open>
  \<open>os.ReadFile\<close>, \<open>pem.Decode\<close> and the \<open>x509\<close> parsers are parameters; a key of another
  kind fails the unchecked type assertion.
\<close>

datatype 'k parsed_key = RSAKey 'k | OtherKey

definition read_key :: "(string \<Rightarrow> go_error + bytes) \<Rightarrow> (bytes \<Rightarrow> bytes option) \<Rightarrow> (bytes \<Rightarrow> go_error + 'k parsed_key)
    \<Rightarrow> string \<Rightarrow> (go_error + 'k) outcome" where
  "read_key readFile pemDecode parse path =
     (case readFile path of
        Inl e \<Rightarrow> Ret (Inl e)
      | Inr p \<Rightarrow>
          (case pemDecode p of
             None \<Rightarrow> Ret (Inl (ErrMsg ''error decoding pem block''))
           | Some b \<Rightarrow>
               (case parse b of
                  Inl e \<Rightarrow> Ret (Inl e)
                | Inr (RSAKey k) \<Rightarrow> Ret (Inr k)
                | Inr OtherKey \<Rightarrow> Panic ''interface conversion'')))"

definition ReadPublicKey :: "(string \<Rightarrow> go_error + bytes) \<Rightarrow> (bytes \<Rightarrow> bytes option) \<Rightarrow> (bytes \<Rightarrow> go_error + 'k parsed_key)
    \<Rightarrow> string \<Rightarrow> (go_error + 'k) outcome" where
  "ReadPublicKey readFile pemDecode ParsePKIXPublicKey filepath = read_key readFile pemDecode ParsePKIXPublicKey filepath"

definition ReadPrivateKey :: "(string \<Rightarrow> go_error + bytes) \<Rightarrow> (bytes \<Rightarrow> bytes option) \<Rightarrow> (bytes \<Rightarrow> go_error + 'k parsed_key)
    \<Rightarrow> string \<Rightarrow> (go_error + 'k) outcome" where
  "ReadPrivateKey readFile pemDecode ParsePKCS8PrivateKey filepath = read_key readFile pemDecode ParsePKCS8PrivateKey filepath"

section \<open>Correctness\<close>

text \<open>
  What is documented of the primitives for a key pair, of whatever size: OAEP makes as many
  bytes as the modulus has, which decrypt to the plaintext, GCM opens what it sealed under the
  same key and nonce.
\<close>

definition crypto_laws :: "('pub, 'priv) Crypto \<Rightarrow> 'pub \<Rightarrow> 'priv \<Rightarrow> bool" where
  "crypto_laws cr pub priv \<longleftrightarrow>
     (\<forall>seed k c. EncryptOAEP cr seed pub k = Inr c \<longrightarrow> length c = rsa_Size cr pub \<and> DecryptOAEP cr priv c = Inr k) \<and>
     (\<forall>k n m. length n = NonceSize \<longrightarrow> gcm_Open cr k n (gcm_Seal cr k n m) = Inr m)"

text \<open>RFC 8017, 7.1.2: a ciphertext that is not as long as the modulus is a decryption error.\<close>

definition oaep_length_checked :: "('pub, 'priv) Crypto \<Rightarrow> 'pub \<Rightarrow> 'priv \<Rightarrow> bool" where
  "oaep_length_checked cr pub priv \<longleftrightarrow> (\<forall>c. length c \<noteq> rsa_Size cr pub \<longrightarrow> (\<exists>e. DecryptOAEP cr priv c = Inl e))"

text \<open>The reads of the random source return as many bytes as asked, or fail.\<close>

definition entropy_ok :: "Entropy \<Rightarrow> bool" where
  "entropy_ok rnd \<longleftrightarrow> (\<forall>k. rnd_key rnd = Inr k \<longrightarrow> length k = keySize) \<and> (\<forall>n. rnd_nonce rnd = Inr n \<longrightarrow> length n = NonceSize)"

text \<open>What is sent: the wrapped key, the nonce and the sealed message.\<close>

lemma EncryptMsg_shape:
  assumes "crypto_laws cr pub priv" and "entropy_ok rnd" and "EncryptMsg cr rnd pub msg = Inr c"
  obtains k n ek where "length k = 32" and "length n = NonceSize" and "length ek = rsa_Size cr pub"
    and "DecryptOAEP cr priv ek = Inr k" and "c = ek @ n @ gcm_Seal cr k n msg"
    and "gcm_Open cr k n (gcm_Seal cr k n msg) = Inr msg"
proof -
  from assms(3) obtain k n ek where k: "rnd_key rnd = Inr k" and n: "rnd_nonce rnd = Inr n"
    and ek: "EncryptOAEP cr (rnd_oaep rnd) pub k = Inr ek" and c: "c = ek @ n @ gcm_Seal cr k n msg"
    by (auto simp: EncryptMsg_def aes_NewCipher_def Let_def split: sum.splits if_splits)
  from assms(2) k n have len: "length k = 32" "length n = NonceSize" by (simp_all add: entropy_ok_def keySize_def)
  moreover from assms(1) ek have "length ek = rsa_Size cr pub" "DecryptOAEP cr priv ek = Inr k"
    unfolding crypto_laws_def by blast+
  moreover have "gcm_Open cr k n (gcm_Seal cr k n msg) = Inr msg"
    using assms(1) len(2) unfolding crypto_laws_def by blast
  ultimately show ?thesis using that c by blast
qed

lemma decrypt_encrypt:
  assumes "crypto_laws cr pub priv" and "rsa_Size cr pub = encKeySize" and "entropy_ok rnd" and "EncryptMsg cr rnd pub msg = Inr c"
  shows "DecryptMsg cr priv c = Ret (Inr msg)"
  by (rule EncryptMsg_shape [OF assms(1,3,4)]) (use assms(2) in \<open>simp add: DecryptMsg_def aes_NewCipher_def\<close>)

text \<open>
  A concrete instance for the examples, for keys of any size: the sealed message is the
  plaintext with its key and nonce checked, the wrapped key is padded to the key's size.
\<close>

definition sized_crypto :: "nat \<Rightarrow> (unit, unit) Crypto" where
  "sized_crypto sz = \<lparr>
     rsa_Size = (\<lambda>pub. sz),
     EncryptOAEP = (\<lambda>seed pub k. if length k = 32 \<and> 32 \<le> sz then Inr (k @ replicate (sz - 32) CHR ''#'')
                               else Inl (ErrMsg ''message too long'')),
     DecryptOAEP = (\<lambda>priv c. if length c = sz then Inr (take 32 c) else Inl (ErrMsg ''crypto/rsa: decryption error'')),
     gcm_Seal = (\<lambda>k n m. k @ n @ m),
     gcm_Open = (\<lambda>k n c. if take (length k + length n) c = k @ n then Inr (drop (length k + length n) c)
                         else Inl (ErrMsg ''cipher: message authentication failed''))\<rparr>"

definition toy_crypto :: "(unit, unit) Crypto" where
  "toy_crypto = sized_crypto 256"

definition toy_entropy :: Entropy where
  "toy_entropy = \<lparr>rnd_key = Inr (replicate 32 CHR ''k''), rnd_nonce = Inr (replicate 12 CHR ''n''), rnd_oaep = []\<rparr>"

lemma sized_laws: "crypto_laws (sized_crypto sz) () ()" "oaep_length_checked (sized_crypto sz) () ()"
  by (auto simp: crypto_laws_def oaep_length_checked_def sized_crypto_def split: if_splits)

lemma toy_laws: "crypto_laws toy_crypto () ()" "entropy_ok toy_entropy" "rsa_Size toy_crypto () = encKeySize"
  by (simp_all add: toy_crypto_def sized_laws, simp_all add: sized_crypto_def entropy_ok_def toy_entropy_def keySize_def
      NonceSize_def encKeySize_def)

lemma sized_encrypts: "32 \<le> sz \<Longrightarrow> \<exists>c. EncryptMsg (sized_crypto sz) toy_entropy () msg = Inr c"
  by (simp add: EncryptMsg_def toy_entropy_def sized_crypto_def aes_NewCipher_def Let_def)

lemma toy_encrypts: "\<exists>c. EncryptMsg toy_crypto toy_entropy () msg = Inr c"
  by (simp add: toy_crypto_def sized_encrypts)

text \<open>
  C16. Encryption and decryption with a matching pair of keys. With keys whose modulus has 256
  bytes (2048 bits), whatever
  \<open>EncryptMsg\<close> makes of a message is at least 268 bytes long and \<open>DecryptMsg\<close> recovers
  the message. With keys of any other size, which \<open>ReadPublicKey\<close> accepts as well and
  \<open>EncryptMsg\<close> encrypts with, no message is ever recovered: the wrapped key is cut off at
  256 bytes (when OAEP rejects a ciphertext of the wrong length, as RFC 8017 demands). And a
  message of less than 256 bytes makes \<open>DecryptMsg\<close> panic instead of returning an error,
  whatever the key.
\<close>

theorem encrypt_decrypt_roundtrip:
  assumes "crypto_laws cr pub priv" and "entropy_ok rnd" and "EncryptMsg cr rnd pub msg = Inr c"
  shows "(rsa_Size cr pub = 256 \<longrightarrow> DecryptMsg cr priv c = Ret (Inr msg) \<and> 268 \<le> length c) \<and>
    (rsa_Size cr pub \<noteq> 256 \<and> oaep_length_checked cr pub priv \<longrightarrow> (\<forall>m. DecryptMsg cr priv c \<noteq> Ret (Inr m))) \<and>
    (\<forall>b. length b < 256 \<longrightarrow> DecryptMsg cr priv b = Panic slice_panic)"
proof (intro conjI impI allI)
  assume sz: "rsa_Size cr pub = 256"
  then show "DecryptMsg cr priv c = Ret (Inr msg)" by (intro decrypt_encrypt [OF assms(1) _ assms(2,3)]) (simp add: encKeySize_def)
  show "268 \<le> length c" by (rule EncryptMsg_shape [OF assms]) (use sz in \<open>simp add: NonceSize_def\<close>)
next
  fix m
  assume other: "rsa_Size cr pub \<noteq> 256 \<and> oaep_length_checked cr pub priv"
  show "DecryptMsg cr priv c \<noteq> Ret (Inr m)"
  proof (cases "length c < 256")
    case False
    then have "length (take 256 c) \<noteq> rsa_Size cr pub" using other by simp
    with other obtain e where "DecryptOAEP cr priv (take 256 c) = Inl e" unfolding oaep_length_checked_def by blast
    with False show ?thesis by (simp add: DecryptMsg_def encKeySize_def)
  qed (simp add: DecryptMsg_def encKeySize_def)
qed (simp add: DecryptMsg_def encKeySize_def)

theorem encrypt_decrypt_roundtrip_witness:
  "(\<exists>c. EncryptMsg toy_crypto toy_entropy () ''hello'' = Inr c \<and> DecryptMsg toy_crypto () c = Ret (Inr ''hello'') \<and>
     DecryptMsg toy_crypto () ''short'' = Panic slice_panic) \<and>
   (\<exists>c. EncryptMsg (sized_crypto 512) toy_entropy () ''hello'' = Inr c \<and> (\<forall>m. DecryptMsg (sized_crypto 512) () c \<noteq> Ret (Inr m)))"
proof
  obtain c where c: "EncryptMsg toy_crypto toy_entropy () ''hello'' = Inr c" using toy_encrypts by blast
  with encrypt_decrypt_roundtrip [OF toy_laws(1,2) c] toy_laws(3)
  show "\<exists>c. EncryptMsg toy_crypto toy_entropy () ''hello'' = Inr c \<and> DecryptMsg toy_crypto () c = Ret (Inr ''hello'') \<and>
      DecryptMsg toy_crypto () ''short'' = Panic slice_panic" by (simp add: encKeySize_def)
  obtain c where c: "EncryptMsg (sized_crypto 512) toy_entropy () ''hello'' = Inr c" using sized_encrypts [of 512] by auto
  have "rsa_Size (sized_crypto 512) () \<noteq> 256" by (simp add: sized_crypto_def)
  with encrypt_decrypt_roundtrip [OF sized_laws(1) toy_laws(2) c] sized_laws(2) c
  show "\<exists>c. EncryptMsg (sized_crypto 512) toy_entropy () ''hello'' = Inr c \<and> (\<forall>m. DecryptMsg (sized_crypto 512) () c \<noteq> Ret (Inr m))"
    by blast
qed

end
