(* ===== verification/Mondata.thy ===== *)
theory Mondata
  imports Go_Json
begin

text \<open>
  \<open>internal/mondata/mondata.go\<close>: the wire record \<open>Metrics\<close>, the metric kinds, the
  \<open>Gauge\<close> and \<open>Counter\<close> values with their text forms, and the JSON form of
  \<open>Metrics\<close> its struct tags define (\<open>SValue\<close> has the tag \<open>-\<close> and never appears).
\<close>

section \<open>Types\<close>

record Metrics =
  ID :: string
  MType :: string
  Delta :: "int64 option"
  Value :: "float64 option"
  SValue :: string

definition Metrics_zero :: Metrics where
  "Metrics_zero = \<lparr>ID = [], MType = [], Delta = None, Value = None, SValue = []\<rparr>"

definition GaugeType :: string where
  "GaugeType = ''gauge''"

definition CounterType :: string where
  "CounterType = ''counter''"

lemma type_names [simp]: "GaugeType \<noteq> CounterType" "CounterType \<noteq> GaugeType"
  by (simp_all add: GaugeType_def CounterType_def)

record Gauge =
  g_MetricType :: string
  g_Name :: string
  g_Value :: float64

record Counter =
  c_MetricType :: string
  c_Name :: string
  c_Value :: int64

section \<open>Text forms\<close>

definition ParseGauge :: "string \<Rightarrow> go_error + float64" where
  "ParseGauge s = ParseFloat s"

definition FormatGauge :: "float64 \<Rightarrow> string" where
  "FormatGauge f = TrimRight (FormatF f) ''0.''"

text \<open>The conversion \<open>float64(f)\<close> of the generic parameter is the argument \<open>conv\<close>.\<close>

definition NewGauge :: "('a \<Rightarrow> float64) \<Rightarrow> string \<Rightarrow> 'a \<Rightarrow> Gauge" where
  "NewGauge conv name f = \<lparr>g_MetricType = GaugeType, g_Name = name, g_Value = conv f\<rparr>"

definition Gauge_String :: "Gauge \<Rightarrow> string" where
  "Gauge_String g = FormatGauge (g_Value g)"

definition ParseCounter :: "string \<Rightarrow> go_error + int64" where
  "ParseCounter s = ParseInt s"

definition FormatCounter :: "int64 \<Rightarrow> string" where
  "FormatCounter i = FormatInt i"

definition NewCounter :: "string \<Rightarrow> int64 \<Rightarrow> Counter" where
  "NewCounter name i = \<lparr>c_MetricType = CounterType, c_Name = name, c_Value = i\<rparr>"

definition Counter_String :: "Counter \<Rightarrow> string" where
  "Counter_String c = FormatCounter (c_Value c)"

section \<open>JSON\<close>

text \<open>
  Keys match field names without regard to ASCII case (no other code point folds to a
  letter of these names); unknown keys are skipped.
\<close>

definition decode_field :: "bytes \<Rightarrow> json \<Rightarrow> Metrics \<Rightarrow> go_error option \<times> Metrics" where
  "decode_field k j m =
     (let f = map lower k
      in if f = ''id'' then apsnd (\<lambda>s. m\<lparr>ID := s\<rparr>) (decode_string j (ID m))
         else if f = ''type'' then apsnd (\<lambda>s. m\<lparr>MType := s\<rparr>) (decode_string j (MType m))
         else if f = ''delta'' then apsnd (\<lambda>d. m\<lparr>Delta := d\<rparr>) (decode_ptr decode_int 0 j (Delta m))
         else if f = ''value'' then apsnd (\<lambda>v. m\<lparr>Value := v\<rparr>) (decode_ptr decode_float 0 j (Value m))
         else (None, m))"

fun decode_fields :: "(bytes \<times> json) list \<Rightarrow> go_error option \<Rightarrow> Metrics \<Rightarrow> go_error option \<times> Metrics" where
  "decode_fields [] err m = (err, m)"
| "decode_fields ((k, j) # js) err m =
     (case decode_field k j m of (e, m') \<Rightarrow> decode_fields js (first_error err e) m')"

definition decode_Metrics :: "json \<Rightarrow> Metrics \<Rightarrow> go_error option \<times> Metrics" where
  "decode_Metrics j m =
     (case j of
        JNull \<Rightarrow> (None, m)
      | JObj js \<Rightarrow> decode_fields js None m
      | _ \<Rightarrow> (Some type_error, m))"

text \<open>\<open>json.Unmarshal(b, &m)\<close> on a zero \<open>Metrics\<close>.\<close>

definition unmarshal_Metrics :: "bytes \<Rightarrow> go_error option \<times> Metrics" where
  "unmarshal_Metrics b =
     (case json_parse b of
        None \<Rightarrow> (Some syntax_error, Metrics_zero)
      | Some j \<Rightarrow> decode_Metrics j Metrics_zero)"

fun decode_elems :: "json list \<Rightarrow> go_error option \<Rightarrow> go_error option \<times> Metrics list" where
  "decode_elems [] err = (err, [])"
| "decode_elems (j # js) err =
     (case decode_Metrics j Metrics_zero of
        (e, m) \<Rightarrow> apsnd (Cons m) (decode_elems js (first_error err e)))"

text \<open>\<open>json.Unmarshal(b, &mm)\<close> on an empty \<open>[]Metrics\<close>.\<close>

definition unmarshal_batch :: "bytes \<Rightarrow> go_error option \<times> Metrics list" where
  "unmarshal_batch b =
     (case json_parse b of
        None \<Rightarrow> (Some syntax_error, [])
      | Some JNull \<Rightarrow> (None, [])
      | Some (JArr js) \<Rightarrow> decode_elems js None
      | Some _ \<Rightarrow> (Some type_error, []))"

text \<open>The encoder writes the fields in order, a nil pointer (\<open>omitempty\<close>) not at all.\<close>

definition json_field :: "string \<Rightarrow> bytes \<Rightarrow> bytes" where
  "json_field name b = json_quote name @ CHR '':'' # b"

definition marshal_Metrics :: "Metrics \<Rightarrow> go_error + bytes" where
  "marshal_Metrics m =
     (let head = CHR ''{'' # json_field ''id'' (json_quote (ID m)) @
                 CHR '','' # json_field ''type'' (json_quote (MType m)) @
                 (case Delta m of None \<Rightarrow> [] | Some d \<Rightarrow> CHR '','' # json_field ''delta'' (FormatInt d))
      in case Value m of
           None \<Rightarrow> Inr (head @ ''}'')
         | Some v \<Rightarrow>
             (case json_float v of
                None \<Rightarrow> Inl (ErrMsg ''json: unsupported value'')
              | Some b \<Rightarrow> Inr (head @ CHR '','' # json_field ''value'' b @ ''}'')))"

fun marshal_batch_elems :: "Metrics list \<Rightarrow> go_error + bytes" where
  "marshal_batch_elems [] = Inr []"
| "marshal_batch_elems (m # ms) =
     (case marshal_Metrics m of
        Inl e \<Rightarrow> Inl e
      | Inr b \<Rightarrow> (case marshal_batch_elems ms of
                   Inl e \<Rightarrow> Inl e
                 | Inr r \<Rightarrow> Inr (b @ (if ms = [] then [] else CHR '','' # r))))"

definition marshal_batch :: "Metrics list \<Rightarrow> go_error + bytes" where
  "marshal_batch ms =
     (case marshal_batch_elems ms of Inl e \<Rightarrow> Inl e | Inr b \<Rightarrow> Inr (CHR ''['' # b @ '']''))"

end
