(* ===== verification/Metrics_Repo.thy ===== *)
theory Metrics_Repo
  imports Mondata
begin

text \<open>
  The interface \<open>MetricsRepo\<close> of \<open>internal/repo/repo.go\<close> (and its subsets \<open>MDB\<close> of
  \<open>handlers\<close> and \<open>fw\<close>) as a record of operations on the provider's state, the
  abstract specification of a store of gauges and counters, and the contracts a provider
  promises: \<open>metrics_repo\<close>, whose operations may fail but then leave either the old or
  the new value, and \<open>reliable_repo\<close>, whose operations never fail.
\<close>

section \<open>The interface\<close>

record 's MetricsRepo =
  GetGauge :: "string \<Rightarrow> 's \<Rightarrow> ((go_error + float64 option) \<times> 's) outcome"
  GetGaugeAll :: "'s \<Rightarrow> ((go_error + float64 gomap) \<times> 's) outcome"
  GetCounter :: "string \<Rightarrow> 's \<Rightarrow> ((go_error + int64 option) \<times> 's) outcome"
  GetCounterAll :: "'s \<Rightarrow> ((go_error + int64 gomap) \<times> 's) outcome"
  SetGauge :: "string \<Rightarrow> float64 \<Rightarrow> 's \<Rightarrow> (go_error option \<times> 's) outcome"
  SetGaugeAll :: "float64 gomap \<Rightarrow> 's \<Rightarrow> (go_error option \<times> 's) outcome"
  SetCounter :: "string \<Rightarrow> int64 \<Rightarrow> 's \<Rightarrow> (go_error option \<times> 's) outcome"
  SetCounterAll :: "int64 gomap \<Rightarrow> 's \<Rightarrow> (go_error option \<times> 's) outcome"
  Ping :: "'s \<Rightarrow> (go_error option \<times> 's) outcome"
  Close :: "'s \<Rightarrow> 's outcome"

section \<open>The abstract store\<close>

text \<open>A gauge is overwritten, a counter accumulates (and wraps, as \<open>int64\<close> does).\<close>

definition plus_opt :: "int64 option \<Rightarrow> int64 \<Rightarrow> int64" where
  "plus_opt old v = (case old of None \<Rightarrow> v | Some o' \<Rightarrow> o' + v)"

definition add_counter :: "string \<Rightarrow> int64 \<Rightarrow> int64 gomap \<Rightarrow> int64 gomap" where
  "add_counter n v m = fmupd n (plus_opt (fmlookup m n) v) m"

definition add_counters :: "int64 gomap \<Rightarrow> int64 gomap \<Rightarrow> int64 gomap" where
  "add_counters d m = fmadd m (fmmap_keys (\<lambda>k v. plus_opt (fmlookup m k) v) d)"

lemma fmlookup_add_counter [simp]:
  "fmlookup (add_counter n v m) k = (if k = n then Some (plus_opt (fmlookup m n) v) else fmlookup m k)"
  by (simp add: add_counter_def)

lemma fmlookup_add_counters [simp]:
  "fmlookup (add_counters d m) k =
    (case fmlookup d k of None \<Rightarrow> fmlookup m k | Some v \<Rightarrow> Some (plus_opt (fmlookup m k) v))"
  by (auto simp: add_counters_def split: option.splits)

lemma plus_opt_simps [simp]: "plus_opt None v = v" "plus_opt (Some x) v = x + v"
  by (simp_all add: plus_opt_def)

lemma add_counters_empty [simp]: "add_counters fmempty m = m" "add_counters d fmempty = d"
  by (intro fmap_ext; simp split: option.splits)+

text \<open>A batch is the sequence of its entries, in any order.\<close>

lemma add_counters_seq:
  assumes "enumerates kvs d"
  shows "foldl (\<lambda>m kv. add_counter (fst kv) (snd kv) m) m kvs = add_counters d m"
proof -
  have "(\<lambda>m kv. add_counter (fst kv) (snd kv) m) = upd_entry plus_opt"
    by (intro ext) (simp add: add_counter_def upd_entry_def)
  then show ?thesis
    using assms by (intro fmap_ext) (simp add: foldl_upd_entry_enum split: option.splits)
qed

section \<open>Contracts\<close>

locale metrics_repo =
  fixes db :: "'s MetricsRepo"
    and inv :: "'s \<Rightarrow> bool"
    and gauges :: "'s \<Rightarrow> float64 gomap"
    and counters :: "'s \<Rightarrow> int64 gomap"
  assumes get_gauge: "inv s \<Longrightarrow> \<exists>r s'. GetGauge db n s = Ret (r, s') \<and>
      inv s' \<and> gauges s' = gauges s \<and> counters s' = counters s \<and>
      (\<forall>v. r = Inr v \<longrightarrow> v = fmlookup (gauges s) n)"
    and get_gauge_all: "inv s \<Longrightarrow> \<exists>r s'. GetGaugeAll db s = Ret (r, s') \<and>
      inv s' \<and> gauges s' = gauges s \<and> counters s' = counters s \<and>
      (\<forall>m. r = Inr m \<longrightarrow> m = gauges s)"
    and get_counter: "inv s \<Longrightarrow> \<exists>r s'. GetCounter db n s = Ret (r, s') \<and>
      inv s' \<and> gauges s' = gauges s \<and> counters s' = counters s \<and>
      (\<forall>v. r = Inr v \<longrightarrow> v = fmlookup (counters s) n)"
    and get_counter_all: "inv s \<Longrightarrow> \<exists>r s'. GetCounterAll db s = Ret (r, s') \<and>
      inv s' \<and> gauges s' = gauges s \<and> counters s' = counters s \<and>
      (\<forall>m. r = Inr m \<longrightarrow> m = counters s)"
    and set_gauge: "inv s \<Longrightarrow> \<exists>e s'. SetGauge db n v s = Ret (e, s') \<and>
      inv s' \<and> counters s' = counters s \<and> gauges s' \<in> {gauges s, fmupd n v (gauges s)} \<and>
      (e = None \<longrightarrow> gauges s' = fmupd n v (gauges s))"
    and set_gauge_all: "inv s \<Longrightarrow> \<exists>e s'. SetGaugeAll db d s = Ret (e, s') \<and>
      inv s' \<and> counters s' = counters s \<and> gauges s' \<in> {gauges s, fmadd (gauges s) d} \<and>
      (e = None \<longrightarrow> gauges s' = fmadd (gauges s) d)"
    and set_counter: "inv s \<Longrightarrow> \<exists>e s'. SetCounter db n i s = Ret (e, s') \<and>
      inv s' \<and> gauges s' = gauges s \<and> counters s' \<in> {counters s, add_counter n i (counters s)} \<and>
      (e = None \<longrightarrow> counters s' = add_counter n i (counters s))"
    and set_counter_all: "inv s \<Longrightarrow> \<exists>e s'. SetCounterAll db c s = Ret (e, s') \<and>
      inv s' \<and> gauges s' = gauges s \<and> counters s' \<in> {counters s, add_counters c (counters s)} \<and>
      (e = None \<longrightarrow> counters s' = add_counters c (counters s))"
    and ping: "inv s \<Longrightarrow> \<exists>e s'. Ping db s = Ret (e, s') \<and>
      inv s' \<and> gauges s' = gauges s \<and> counters s' = counters s"

locale reliable_repo = metrics_repo +
  assumes gets_succeed: "inv s \<Longrightarrow> GetGauge db n s \<noteq> Ret (Inl e, s')"
      "inv s \<Longrightarrow> GetGaugeAll db s \<noteq> Ret (Inl e, s')"
      "inv s \<Longrightarrow> GetCounter db n s \<noteq> Ret (Inl e, s')"
      "inv s \<Longrightarrow> GetCounterAll db s \<noteq> Ret (Inl e, s')"
    and sets_succeed: "inv s \<Longrightarrow> SetGauge db n v s \<noteq> Ret (Some e, s')"
      "inv s \<Longrightarrow> SetGaugeAll db d s \<noteq> Ret (Some e, s')"
      "inv s \<Longrightarrow> SetCounter db n i s \<noteq> Ret (Some e, s')"
      "inv s \<Longrightarrow> SetCounterAll db c s \<noteq> Ret (Some e, s')"
begin

text \<open>The equations a client computes with.\<close>

lemma get_gauge_eq:
  assumes "inv s"
  obtains s' where "GetGauge db n s = Ret (Inr (fmlookup (gauges s) n), s')"
    "inv s'" "gauges s' = gauges s" "counters s' = counters s"
  using get_gauge [OF assms, of n] gets_succeed(1) [OF assms, of n] by (metis sumE)

lemma get_gauge_all_eq:
  assumes "inv s"
  obtains s' where "GetGaugeAll db s = Ret (Inr (gauges s), s')"
    "inv s'" "gauges s' = gauges s" "counters s' = counters s"
  using get_gauge_all [OF assms] gets_succeed(2) [OF assms] by (metis sumE)

lemma get_counter_eq:
  assumes "inv s"
  obtains s' where "GetCounter db n s = Ret (Inr (fmlookup (counters s) n), s')"
    "inv s'" "gauges s' = gauges s" "counters s' = counters s"
  using get_counter [OF assms, of n] gets_succeed(3) [OF assms, of n] by (metis sumE)

lemma get_counter_all_eq:
  assumes "inv s"
  obtains s' where "GetCounterAll db s = Ret (Inr (counters s), s')"
    "inv s'" "gauges s' = gauges s" "counters s' = counters s"
  using get_counter_all [OF assms] gets_succeed(4) [OF assms] by (metis sumE)

lemma set_gauge_eq:
  assumes "inv s"
  obtains s' where "SetGauge db n v s = Ret (None, s')"
    "inv s'" "gauges s' = fmupd n v (gauges s)" "counters s' = counters s"
  using set_gauge [OF assms, of n v] sets_succeed(1) [OF assms, of n v] by (metis option.exhaust)

lemma set_gauge_all_eq:
  assumes "inv s"
  obtains s' where "SetGaugeAll db d s = Ret (None, s')"
    "inv s'" "gauges s' = fmadd (gauges s) d" "counters s' = counters s"
  using set_gauge_all [OF assms, of d] sets_succeed(2) [OF assms, of d] by (metis option.exhaust)

lemma set_counter_eq:
  assumes "inv s"
  obtains s' where "SetCounter db n i s = Ret (None, s')"
    "inv s'" "gauges s' = gauges s" "counters s' = add_counter n i (counters s)"
  using set_counter [OF assms, of n i] sets_succeed(3) [OF assms, of n i] by (metis option.exhaust)

lemma set_counter_all_eq:
  assumes "inv s"
  obtains s' where "SetCounterAll db c s = Ret (None, s')"
    "inv s'" "gauges s' = gauges s" "counters s' = add_counters c (counters s)"
  using set_counter_all [OF assms, of c] sets_succeed(4) [OF assms, of c] by (metis option.exhaust)

end

text \<open>A store without a database behind it: its \<open>Ping\<close> always fails.\<close>

locale offline_repo = reliable_repo +
  assumes ping_fails: "inv s \<Longrightarrow> \<exists>e s'. Ping db s = Ret (Some e, s')"

end
