(* ===== verification/Pgsql.thy ===== *)
theory Pgsql
  imports Metrics_Repo
begin

text \<open>
  \<open>internal/repo/pgsql/pgsql.go\<close>: the PostgreSQL store. The driver pgx (a pool with at
  most one transaction of ours at a time, state \<open>'p\<close>), the retry policy of failsafe and
  the code tables of pgerrcode are parameters. Every operation is one closure run in a
  transaction by \<open>ExecuteTx\<close>, which is repeated on the errors \<open>IsRetryable\<close> accepts.
\<close>

section \<open>Errors\<close>

text \<open>\<open>errors.Is\<close> and \<open>errors.As\<close> walk the chain of wrapped errors; \<open>==\<close> does not.\<close>

fun errors_Is :: "go_error \<Rightarrow> go_error \<Rightarrow> bool" where
  "errors_Is (ErrWrap m e) t = (ErrWrap m e = t \<or> errors_Is e t)"
| "errors_Is (ErrJoin a b) t = (ErrJoin a b = t \<or> errors_Is a t \<or> errors_Is b t)"
| "errors_Is e t = (e = t)"

fun errors_As_PgError :: "go_error \<Rightarrow> string option" where
  "errors_As_PgError (PgError code) = Some code"
| "errors_As_PgError (ErrWrap m e) = errors_As_PgError e"
| "errors_As_PgError (ErrJoin a b) = (case errors_As_PgError a of Some c \<Rightarrow> Some c | None \<Rightarrow> errors_As_PgError b)"
| "errors_As_PgError e = None"

record Pgerrcode =
  SerializationFailure :: string
  DeadlockDetected :: string
  IsConnectionException :: "string \<Rightarrow> bool"

definition IsRetryable :: "Pgerrcode \<Rightarrow> go_error option \<Rightarrow> bool" where
  "IsRetryable codes err =
     (case err of
        None \<Rightarrow> False
      | Some e \<Rightarrow>
          if e = DeadlineExceeded \<or> e = Canceled then True
          else case errors_As_PgError e of
                 None \<Rightarrow> False
               | Some code \<Rightarrow>
                   if code = SerializationFailure codes \<or> code = DeadlockDetected codes then True
                   else IsConnectionException codes code)"

section \<open>The driver\<close>

text \<open>
  The statements of the source, with one blank where it breaks a line, and their named
  arguments.
\<close>

definition createGaugeQry :: string where
  "createGaugeQry = ''CREATE TABLE IF NOT EXISTS gauge_m_table ( m_id SERIAL PRIMARY KEY, name VARCHAR(64) UNIQUE, value DOUBLE PRECISION NOT NULL DEFAULT 0 );''"

definition createCounterQry :: string where
  "createCounterQry = ''CREATE TABLE IF NOT EXISTS counter_m_table ( m_id SERIAL PRIMARY KEY, name VARCHAR(64) UNIQUE, value BIGINT NOT NULL DEFAULT 0 );''"

definition upsertGaugeQry :: string where
  "upsertGaugeQry = ''INSERT INTO gauge_m_table (name, value) VALUES (@name, @value) ON CONFLICT(name) DO UPDATE SET value = EXCLUDED.value;''"

definition upsertCounterQry :: string where
  "upsertCounterQry = ''INSERT INTO counter_m_table (name, value) VALUES (@name, @value) ON CONFLICT(name) DO UPDATE SET value = counter_m_table.value + EXCLUDED.value;''"

datatype sql_value = Text string | DoublePrecision float64 | BigInt int64

type_synonym NamedArgs = "(string \<times> sql_value) list"
type_synonym sql = "string \<times> NamedArgs"

definition upsert_gauge :: "string \<Rightarrow> float64 \<Rightarrow> sql" where
  "upsert_gauge name v = (upsertGaugeQry, [(''name'', Text name), (''value'', DoublePrecision v)])"

definition upsert_counter :: "string \<Rightarrow> int64 \<Rightarrow> sql" where
  "upsert_counter name v = (upsertCounterQry, [(''name'', Text name), (''value'', BigInt v)])"

text \<open>
  \<open>QueryRow\<close> includes the \<open>Scan\<close> of its row into a variable of the type of the
  column; \<open>Query\<close> yields the result of each \<open>Scan\<close> up to the point where
  \<open>rows.Next\<close> is false, also when that is an error of the connection (\<open>rows.Err\<close>,
  which the code does not ask for).
\<close>

record 'p Pgx =
  BeginTx :: "bool \<Rightarrow> 'p \<Rightarrow> go_error option \<times> 'p"
  tx_Exec :: "sql \<Rightarrow> 'p \<Rightarrow> go_error option \<times> 'p"
  tx_GaugeRow :: "sql \<Rightarrow> 'p \<Rightarrow> (go_error + float64) \<times> 'p"
  tx_CounterRow :: "sql \<Rightarrow> 'p \<Rightarrow> (go_error + int64) \<times> 'p"
  tx_GaugeRows :: "sql \<Rightarrow> 'p \<Rightarrow> (go_error + (go_error + string \<times> float64) list) \<times> 'p"
  tx_CounterRows :: "sql \<Rightarrow> 'p \<Rightarrow> (go_error + (go_error + string \<times> int64) list) \<times> 'p"
  tx_Commit :: "'p \<Rightarrow> go_error option \<times> 'p"
  tx_Rollback :: "'p \<Rightarrow> 'p"
  pool_Ping :: "'p \<Rightarrow> go_error option \<times> 'p"
  pool_Close :: "'p \<Rightarrow> 'p"

text \<open>The variables the closures capture; they survive a retry.\<close>

record Vars =
  v_gauge :: float64
  v_gm :: "float64 gomap"
  v_counter :: int64
  v_cm :: "int64 gomap"

definition vars0 :: Vars where
  "vars0 = \<lparr>v_gauge = 0, v_gm = fmempty, v_counter = 0, v_cm = fmempty\<rparr>"

type_synonym 'p body = "Vars \<times> 'p \<Rightarrow> go_error option \<times> Vars \<times> 'p"

text \<open>
  failsafe's executor: which errors to handle, how many retries, what to run. The context of
  the request, which may end a run at any time, is part of it.
\<close>

record 'p PgSQL =
  pg_pool :: "'p Pgx"
  pg_codes :: Pgerrcode
  pg_Run :: "(go_error option \<Rightarrow> bool) \<Rightarrow> nat \<Rightarrow> 'p body \<Rightarrow> 'p body"
  pg_range_g :: "float64 gomap \<Rightarrow> (string \<times> float64) list"
  pg_range_c :: "int64 gomap \<Rightarrow> (string \<times> int64) list"

definition maxRetryes :: nat where
  "maxRetryes = 3"

text \<open>One attempt: the deferred \<open>Rollback\<close> runs on every path after \<open>BeginTx\<close>.\<close>

definition run_tx :: "'p Pgx \<Rightarrow> bool \<Rightarrow> 'p body \<Rightarrow> 'p body" where
  "run_tx px readWrite fnc vp =
     (case BeginTx px readWrite (snd vp) of
        (Some e, p) \<Rightarrow> (Some (ErrWrap ''failed to begin tx: '' e), fst vp, p)
      | (None, p) \<Rightarrow>
          (case fnc (fst vp, p) of
             (Some fnErr, v, p1) \<Rightarrow> (Some fnErr, v, tx_Rollback px p1)
           | (None, v, p1) \<Rightarrow>
               (case tx_Commit px p1 of
                  (Some e, p2) \<Rightarrow> (Some (ErrWrap ''failed to commit: '' e), v, tx_Rollback px p2)
                | (None, p2) \<Rightarrow> (None, v, tx_Rollback px p2))))"

definition ExecuteTx :: "'p PgSQL \<Rightarrow> bool \<Rightarrow> 'p body \<Rightarrow> 'p body" where
  "ExecuteTx pg readWrite fnc = pg_Run pg (IsRetryable (pg_codes pg)) maxRetryes (run_tx (pg_pool pg) readWrite fnc)"

section \<open>Operations\<close>

definition exec_body :: "'p Pgx \<Rightarrow> sql \<Rightarrow> 'p body" where
  "exec_body px q vp = (case tx_Exec px q (snd vp) of (err, p) \<Rightarrow> (err, fst vp, p))"

fun exec_all :: "'p Pgx \<Rightarrow> sql list \<Rightarrow> 'p body" where
  "exec_all px [] vp = (None, vp)"
| "exec_all px (q # qs) vp =
     (case exec_body px q vp of (Some e, vp') \<Rightarrow> (Some e, vp') | (None, vp') \<Rightarrow> exec_all px qs vp')"

text \<open>The loop over the rows: the map filled so far stays when a \<open>Scan\<close> fails.\<close>

fun scan_rows :: "(go_error + string \<times> 'v) list \<Rightarrow> 'v gomap \<Rightarrow> go_error option \<times> 'v gomap" where
  "scan_rows [] m = (None, m)"
| "scan_rows (Inl e # rs) m = (Some e, m)"
| "scan_rows (Inr (k, v) # rs) m = scan_rows rs (fmupd k v m)"

definition run_op :: "'p PgSQL \<Rightarrow> bool \<Rightarrow> 'p body \<Rightarrow> 'p \<Rightarrow> (go_error option \<times> 'p)" where
  "run_op pg readWrite fnc p = (case ExecuteTx pg readWrite fnc (vars0, p) of (err, _, p') \<Rightarrow> (err, p'))"

definition Pg_Init :: "(string \<Rightarrow> go_error + 'cfg) \<Rightarrow> ('cfg \<Rightarrow> go_error + 'p) \<Rightarrow> 'p PgSQL \<Rightarrow> string \<Rightarrow> go_error + 'p" where
  "Pg_Init ParseConfig NewWithConfig pg connStr =
     (case ParseConfig connStr of
        Inl e \<Rightarrow> Inl e
      | Inr config \<Rightarrow>
          (case NewWithConfig config of
             Inl e \<Rightarrow> Inl e
           | Inr p \<Rightarrow>
               (case run_op pg True (exec_body (pg_pool pg) (createGaugeQry, [])) p of
                  (Some e, _) \<Rightarrow> Inl e
                | (None, p1) \<Rightarrow>
                    (case run_op pg True (exec_body (pg_pool pg) (createCounterQry, [])) p1 of
                       (Some e, _) \<Rightarrow> Inl e
                     | (None, p2) \<Rightarrow> Inr p2))))"

definition Pg_GetGauge :: "'p PgSQL \<Rightarrow> string \<Rightarrow> 'p \<Rightarrow> (go_error + float64 option) \<times> 'p" where
  "Pg_GetGauge pg name p =
     (case ExecuteTx pg True (\<lambda>(v, p).
             case tx_GaugeRow (pg_pool pg) (''SELECT value FROM gauge_m_table WHERE name = @name'', [(''name'', Text name)]) p of
               (Inl e, p') \<Rightarrow> (Some e, v, p')
             | (Inr x, p') \<Rightarrow> (None, v\<lparr>v_gauge := x\<rparr>, p')) (vars0, p) of
        (Some e, _, p') \<Rightarrow> (if errors_Is e ErrNoRows then Inr None else Inl e, p')
      | (None, v, p') \<Rightarrow> (Inr (Some (v_gauge v)), p'))"

definition Pg_GetGaugeAll :: "'p PgSQL \<Rightarrow> 'p \<Rightarrow> (go_error + float64 gomap) \<times> 'p" where
  "Pg_GetGaugeAll pg p =
     (case ExecuteTx pg True (\<lambda>(v, p).
             case tx_GaugeRows (pg_pool pg) (''SELECT name, value FROM gauge_m_table'', []) p of
               (Inl e, p') \<Rightarrow> (Some e, v, p')
             | (Inr rows, p') \<Rightarrow> (case scan_rows rows (v_gm v) of (err, m) \<Rightarrow> (err, v\<lparr>v_gm := m\<rparr>, p'))) (vars0, p) of
        (Some e, _, p') \<Rightarrow> (Inl e, p')
      | (None, v, p') \<Rightarrow> (Inr (v_gm v), p'))"

definition Pg_SetGauge :: "'p PgSQL \<Rightarrow> string \<Rightarrow> float64 \<Rightarrow> 'p \<Rightarrow> go_error option \<times> 'p" where
  "Pg_SetGauge pg name v = run_op pg True (exec_body (pg_pool pg) (upsert_gauge name v))"

definition Pg_SetGaugeAll :: "'p PgSQL \<Rightarrow> float64 gomap \<Rightarrow> 'p \<Rightarrow> go_error option \<times> 'p" where
  "Pg_SetGaugeAll pg metrics =
     run_op pg True (exec_all (pg_pool pg) (map (\<lambda>(k, v). upsert_gauge k v) (pg_range_g pg metrics)))"

definition Pg_GetCounter :: "'p PgSQL \<Rightarrow> string \<Rightarrow> 'p \<Rightarrow> (go_error + int64 option) \<times> 'p" where
  "Pg_GetCounter pg name p =
     (case ExecuteTx pg False (\<lambda>(v, p).
             case tx_CounterRow (pg_pool pg) (''SELECT value FROM counter_m_table WHERE name = @name'', [(''name'', Text name)]) p of
               (Inl e, p') \<Rightarrow> (Some e, v, p')
             | (Inr x, p') \<Rightarrow> (None, v\<lparr>v_counter := x\<rparr>, p')) (vars0, p) of
        (Some e, _, p') \<Rightarrow> (if errors_Is e ErrNoRows then Inr None else Inl e, p')
      | (None, v, p') \<Rightarrow> (Inr (Some (v_counter v)), p'))"

definition Pg_GetCounterAll :: "'p PgSQL \<Rightarrow> 'p \<Rightarrow> (go_error + int64 gomap) \<times> 'p" where
  "Pg_GetCounterAll pg p =
     (case ExecuteTx pg False (\<lambda>(v, p).
             case tx_CounterRows (pg_pool pg) (''SELECT name, value FROM counter_m_table'', []) p of
               (Inl e, p') \<Rightarrow> (Some e, v, p')
             | (Inr rows, p') \<Rightarrow> (case scan_rows rows (v_cm v) of (err, m) \<Rightarrow> (err, v\<lparr>v_cm := m\<rparr>, p'))) (vars0, p) of
        (Some e, _, p') \<Rightarrow> (Inl e, p')
      | (None, v, p') \<Rightarrow> (Inr (v_cm v), p'))"

definition Pg_SetCounter :: "'p PgSQL \<Rightarrow> string \<Rightarrow> int64 \<Rightarrow> 'p \<Rightarrow> go_error option \<times> 'p" where
  "Pg_SetCounter pg name v = run_op pg True (exec_body (pg_pool pg) (upsert_counter name v))"

definition Pg_SetCounterAll :: "'p PgSQL \<Rightarrow> int64 gomap \<Rightarrow> 'p \<Rightarrow> go_error option \<times> 'p" where
  "Pg_SetCounterAll pg metrics =
     run_op pg True (exec_all (pg_pool pg) (map (\<lambda>(k, v). upsert_counter k v) (pg_range_c pg metrics)))"

definition Pg_Close :: "'p PgSQL \<Rightarrow> 'p \<Rightarrow> 'p" where
  "Pg_Close pg = pool_Close (pg_pool pg)"

definition pgsql_db :: "'p PgSQL \<Rightarrow> 'p MetricsRepo" where
  "pgsql_db pg =
     \<lparr>GetGauge = (\<lambda>n p. Ret (Pg_GetGauge pg n p)), GetGaugeAll = (\<lambda>p. Ret (Pg_GetGaugeAll pg p)),
      GetCounter = (\<lambda>n p. Ret (Pg_GetCounter pg n p)), GetCounterAll = (\<lambda>p. Ret (Pg_GetCounterAll pg p)),
      SetGauge = (\<lambda>n v p. Ret (Pg_SetGauge pg n v p)), SetGaugeAll = (\<lambda>m p. Ret (Pg_SetGaugeAll pg m p)),
      SetCounter = (\<lambda>n v p. Ret (Pg_SetCounter pg n v p)), SetCounterAll = (\<lambda>m p. Ret (Pg_SetCounterAll pg m p)),
      Ping = (\<lambda>p. Ret (pool_Ping (pg_pool pg) p)), Close = (\<lambda>p. Ret (Pg_Close pg p))\<rparr>"

end
