(* ===== verification/Safe.thy ===== *)
theory Safe
  imports Mondata
begin

text \<open>
  \<open>internal/repo/safe/safe.go\<close>, the map guarded by a \<open>sync.RWMutex\<close>, and the
  transaction interfaces of \<open>internal/repo/transaction\<close>. A transaction is the repository
  with the lock it took; its closure returns the error of the Go closure, the value the
  closure assigns to a captured variable, and the transaction. \<open>Read\<close> and
  \<open>Update\<close> run it between \<open>Lock\<close> and the deferred \<open>Unlock\<close>.
\<close>

section \<open>sync.RWMutex\<close>

record RWMutex =
  readers :: nat
  writer :: bool

definition RWMutex_zero :: RWMutex where
  "RWMutex_zero = \<lparr>readers = 0, writer = False\<rparr>"

definition mu_Lock :: "RWMutex \<Rightarrow> RWMutex outcome" where
  "mu_Lock m = (if writer m \<or> readers m \<noteq> 0 then Blocked else Ret (m\<lparr>writer := True\<rparr>))"

definition mu_RLock :: "RWMutex \<Rightarrow> RWMutex outcome" where
  "mu_RLock m = (if writer m then Blocked else Ret (m\<lparr>readers := Suc (readers m)\<rparr>))"

definition mu_Unlock :: "RWMutex \<Rightarrow> RWMutex outcome" where
  "mu_Unlock m = (if writer m then Ret (m\<lparr>writer := False\<rparr>)
                  else Panic ''sync: Unlock of unlocked RWMutex'')"

definition mu_RUnlock :: "RWMutex \<Rightarrow> RWMutex outcome" where
  "mu_RUnlock m = (if readers m = 0 then Panic ''sync: RUnlock of unlocked RWMutex''
                   else Ret (m\<lparr>readers := readers m - 1\<rparr>))"

section \<open>The repository and its transactions\<close>

record 'v MRepo =
  mu :: RWMutex
  Data :: "'v gomap"

record 'v MRepoTx =
  repo :: "'v MRepo"
  writable :: bool

definition tx_map :: "('v gomap \<Rightarrow> 'v gomap) \<Rightarrow> 'v MRepoTx \<Rightarrow> 'v MRepoTx" where
  "tx_map f tx = tx\<lparr>repo := (repo tx)\<lparr>Data := f (Data (repo tx))\<rparr>\<rparr>"

definition Get :: "string \<Rightarrow> 'v MRepoTx \<Rightarrow> 'v option" where
  "Get name tx = fmlookup (Data (repo tx)) name"

definition GetAll :: "'v MRepoTx \<Rightarrow> 'v gomap" where
  "GetAll tx = Data (repo tx)"

definition Set :: "string \<Rightarrow> 'v \<Rightarrow> 'v MRepoTx \<Rightarrow> 'v MRepoTx" where
  "Set name v = tx_map (fmupd name v)"

text \<open>\<open>add\<close> is the type parameter's \<open>+\<close>.\<close>

definition accum_entry :: "('v \<Rightarrow> 'v \<Rightarrow> 'v) \<Rightarrow> 'v gomap \<Rightarrow> string \<times> 'v \<Rightarrow> 'v gomap" where
  "accum_entry add m kv =
     (case kv of (name, v) \<Rightarrow>
        (case fmlookup m name of
           Some old \<Rightarrow> fmupd name (add old v) m
         | None \<Rightarrow> fmupd name v m))"

definition SetAccum :: "('v \<Rightarrow> 'v \<Rightarrow> 'v) \<Rightarrow> string \<Rightarrow> 'v \<Rightarrow> 'v MRepoTx \<Rightarrow> 'v MRepoTx" where
  "SetAccum add name v = tx_map (\<lambda>m. accum_entry add m (name, v))"

text \<open>
  The two loops run over the entries of their argument in the order \<open>kvs\<close> the runtime
  picks.
\<close>

definition set_entry :: "'v gomap \<Rightarrow> string \<times> 'v \<Rightarrow> 'v gomap" where
  "set_entry m kv =
     (case kv of (k, v) \<Rightarrow>
        (case fmlookup m k of Some old \<Rightarrow> fmupd k v m | None \<Rightarrow> fmupd k v m))"

definition SetAll :: "(string \<times> 'v) list \<Rightarrow> 'v MRepoTx \<Rightarrow> 'v MRepoTx" where
  "SetAll kvs = tx_map (\<lambda>m. foldl set_entry m kvs)"

definition SetAccumAll :: "('v \<Rightarrow> 'v \<Rightarrow> 'v) \<Rightarrow> (string \<times> 'v) list \<Rightarrow> 'v MRepoTx \<Rightarrow> 'v MRepoTx" where
  "SetAccumAll add kvs = tx_map (\<lambda>m. foldl (accum_entry add) m kvs)"

definition Lock :: "'v MRepoTx \<Rightarrow> 'v MRepoTx outcome" where
  "Lock tx = bind_outcome (if writable tx then mu_Lock (mu (repo tx)) else mu_RLock (mu (repo tx)))
     (\<lambda>m. Ret (tx\<lparr>repo := (repo tx)\<lparr>mu := m\<rparr>\<rparr>))"

definition Unlock :: "'v MRepoTx \<Rightarrow> 'v MRepoTx outcome" where
  "Unlock tx = bind_outcome (if writable tx then mu_Unlock (mu (repo tx)) else mu_RUnlock (mu (repo tx)))
     (\<lambda>m. Ret (tx\<lparr>repo := (repo tx)\<lparr>mu := m\<rparr>\<rparr>))"

definition NewMRepo :: "'v MRepo" where
  "NewMRepo = \<lparr>mu = RWMutex_zero, Data = fmempty\<rparr>"

definition Begin :: "bool \<Rightarrow> 'v MRepo \<Rightarrow> 'v MRepoTx outcome" where
  "Begin w r = Lock \<lparr>repo = r, writable = w\<rparr>"

text \<open>A closure: its error, what it assigns to captured variables, the transaction after it.\<close>

type_synonym ('v, 'a) txfn = "'v MRepoTx \<Rightarrow> (go_error option \<times> 'a) \<times> 'v MRepoTx"

definition managed :: "bool \<Rightarrow> ('v, 'a) txfn \<Rightarrow> 'v MRepo \<Rightarrow> ((go_error option \<times> 'a) \<times> 'v MRepo) outcome" where
  "managed w fn r =
     bind_outcome (Begin w r) (\<lambda>tx.
       case fn tx of (res, tx') \<Rightarrow> bind_outcome (Unlock tx') (\<lambda>tx''. Ret (res, repo tx'')))"

text \<open>A query closure has the reading half of the interface only: it leaves the transaction alone.\<close>

definition Read :: "('v MRepoTx \<Rightarrow> go_error option \<times> 'a) \<Rightarrow> 'v MRepo \<Rightarrow> ((go_error option \<times> 'a) \<times> 'v MRepo) outcome" where
  "Read fn = managed False (\<lambda>tx. (fn tx, tx))"

definition Update :: "('v MRepoTx \<Rightarrow> go_error option \<times> 'v MRepoTx) \<Rightarrow> 'v MRepo \<Rightarrow> (go_error option \<times> 'v MRepo) outcome" where
  "Update fn r =
     bind_outcome (managed True (\<lambda>tx. case fn tx of (e, tx') \<Rightarrow> ((e, ()), tx')) r)
       (\<lambda>((e, _), r'). Ret (e, r'))"

section \<open>Lemmas\<close>

text \<open>A repository no transaction is running on.\<close>

definition idle :: "'v MRepo \<Rightarrow> bool" where
  "idle r \<longleftrightarrow> mu r = RWMutex_zero"

lemma idle_NewMRepo [simp]: "idle NewMRepo"
  by (simp add: idle_def NewMRepo_def)

lemma Data_NewMRepo [simp]: "Data NewMRepo = fmempty"
  by (simp add: NewMRepo_def)

lemmas mutex_defs = mu_Lock_def mu_RLock_def mu_Unlock_def mu_RUnlock_def RWMutex_zero_def

lemma tx_map_simps [simp]:
  "Data (repo (tx_map f tx)) = f (Data (repo tx))" "mu (repo (tx_map f tx)) = mu (repo tx)"
  "writable (tx_map f tx) = writable tx"
  by (simp_all add: tx_map_def)

lemmas tx_defs = Get_def GetAll_def Set_def SetAccum_def SetAll_def SetAccumAll_def

lemma set_entry_upd: "set_entry = upd_entry (\<lambda>_ v. v)"
  by (intro ext) (auto simp: set_entry_def upd_entry_def split: option.splits prod.splits)

lemma accum_entry_upd: "accum_entry add = upd_entry (\<lambda>old v. case old of None \<Rightarrow> v | Some o' \<Rightarrow> add o' v)"
  by (intro ext) (auto simp: accum_entry_def upd_entry_def split: option.splits prod.splits)

text \<open>
  On an idle repository \<open>Read\<close> and \<open>Update\<close> never wait, run the closure once, and
  leave the lock free whatever error the closure returns.
\<close>

lemma Read_idle [repo_simps]: "idle r \<Longrightarrow>
  Read fn r = Ret (fn \<lparr>repo = r\<lparr>mu := \<lparr>readers = 1, writer = False\<rparr>\<rparr>, writable = False\<rparr>, r)"
  by (cases r) (simp add: Read_def managed_def Begin_def Lock_def Unlock_def idle_def mutex_defs)

text \<open>An update closure of the interface changes data only.\<close>

definition keeps_lock :: "('v MRepoTx \<Rightarrow> go_error option \<times> 'v MRepoTx) \<Rightarrow> bool" where
  "keeps_lock fn \<longleftrightarrow> (\<forall>tx. mu (repo (snd (fn tx))) = mu (repo tx) \<and> writable (snd (fn tx)) = writable tx)"

lemma Update_idle: "idle r \<Longrightarrow> keeps_lock fn \<Longrightarrow>
  Update fn r =
    (let res = fn \<lparr>repo = r\<lparr>mu := \<lparr>readers = 0, writer = True\<rparr>\<rparr>, writable = True\<rparr>
     in Ret (fst res, (repo (snd res))\<lparr>mu := RWMutex_zero\<rparr>))"
proof -
  assume r: "idle r" and fn: "keeps_lock fn"
  let ?tx = "\<lparr>repo = r\<lparr>mu := \<lparr>readers = 0, writer = True\<rparr>\<rparr>, writable = True\<rparr>"
  obtain e tx where res: "fn ?tx = (e, tx)" by (cases "fn ?tx")
  have "mu (repo tx) = \<lparr>readers = 0, writer = True\<rparr>" and "writable tx"
    using fn [unfolded keeps_lock_def, rule_format, of ?tx] res by simp_all
  with r res show ?thesis
    by (simp add: Update_def managed_def Begin_def Lock_def Unlock_def idle_def mutex_defs Let_def)
qed

lemma Update_tx_map [repo_simps]: "idle r \<Longrightarrow>
  Update (\<lambda>tx. (e, tx_map f tx)) r = Ret (e, r\<lparr>Data := f (Data r)\<rparr>)"
  by (subst Update_idle) (auto simp: keeps_lock_def tx_map_def idle_def Let_def)

end
