(* ===== verification/Memory.thy ===== *)
theory Memory
  imports Safe Metrics_Repo
begin

text \<open>
  \<open>internal/repo/memory/memory.go\<close>: the in-memory store, two guarded maps. Every
  operation is a transaction of \<open>Safe\<close>; the logging calls and the unused context are
  left out. The store is an \<open>offline_repo\<close> (interpretation \<open>mem\<close>).
\<close>

section \<open>State and operations\<close>

record MemorySt =
  mGauge :: "float64 MRepo"
  mCounter :: "int64 MRepo"

definition Memory_Init :: MemorySt where
  "Memory_Init = \<lparr>mGauge = NewMRepo, mCounter = NewMRepo\<rparr>"

definition Memory_Close :: "MemorySt \<Rightarrow> MemorySt outcome" where
  "Memory_Close ms = Ret ms"

definition Memory_GetGauge :: "string \<Rightarrow> MemorySt \<Rightarrow> ((go_error + float64 option) \<times> MemorySt) outcome" where
  "Memory_GetGauge name ms =
     bind_outcome (Read (\<lambda>tx. (None, Get name tx)) (mGauge ms))
       (\<lambda>((_, v), r). Ret (Inr v, ms\<lparr>mGauge := r\<rparr>))"

definition Memory_GetGaugeAll :: "MemorySt \<Rightarrow> ((go_error + float64 gomap) \<times> MemorySt) outcome" where
  "Memory_GetGaugeAll ms =
     bind_outcome (Read (\<lambda>tx. (None, GetAll tx)) (mGauge ms))
       (\<lambda>((_, m), r). Ret (Inr m, ms\<lparr>mGauge := r\<rparr>))"

definition Memory_SetGauge :: "string \<Rightarrow> float64 \<Rightarrow> MemorySt \<Rightarrow> (go_error option \<times> MemorySt) outcome" where
  "Memory_SetGauge name value ms =
     bind_outcome (Update (\<lambda>tx. (None, Set name value tx)) (mGauge ms))
       (\<lambda>(_, r). Ret (None, ms\<lparr>mGauge := r\<rparr>))"

definition Memory_SetGaugeAll :: "float64 gomap \<Rightarrow> MemorySt \<Rightarrow> (go_error option \<times> MemorySt) outcome" where
  "Memory_SetGaugeAll metrics ms =
     bind_outcome (Update (\<lambda>tx. (None, SetAll (sorted_list_of_fmap metrics) tx)) (mGauge ms))
       (\<lambda>(_, r). Ret (None, ms\<lparr>mGauge := r\<rparr>))"

definition Memory_GetCounter :: "string \<Rightarrow> MemorySt \<Rightarrow> ((go_error + int64 option) \<times> MemorySt) outcome" where
  "Memory_GetCounter name ms =
     bind_outcome (Read (\<lambda>tx. (None, Get name tx)) (mCounter ms))
       (\<lambda>((_, v), r). Ret (Inr v, ms\<lparr>mCounter := r\<rparr>))"

definition Memory_GetCounterAll :: "MemorySt \<Rightarrow> ((go_error + int64 gomap) \<times> MemorySt) outcome" where
  "Memory_GetCounterAll ms =
     bind_outcome (Read (\<lambda>tx. (None, GetAll tx)) (mCounter ms))
       (\<lambda>((_, m), r). Ret (Inr m, ms\<lparr>mCounter := r\<rparr>))"

definition Memory_SetCounter :: "string \<Rightarrow> int64 \<Rightarrow> MemorySt \<Rightarrow> (go_error option \<times> MemorySt) outcome" where
  "Memory_SetCounter name value ms =
     bind_outcome (Update (\<lambda>tx. (None, SetAccum (+) name value tx)) (mCounter ms))
       (\<lambda>(_, r). Ret (None, ms\<lparr>mCounter := r\<rparr>))"

definition Memory_SetCounterAll :: "int64 gomap \<Rightarrow> MemorySt \<Rightarrow> (go_error option \<times> MemorySt) outcome" where
  "Memory_SetCounterAll values ms =
     bind_outcome (Update (\<lambda>tx. (None, SetAccumAll (+) (sorted_list_of_fmap values) tx)) (mCounter ms))
       (\<lambda>(_, r). Ret (None, ms\<lparr>mCounter := r\<rparr>))"

definition Memory_Ping :: "MemorySt \<Rightarrow> (go_error option \<times> MemorySt) outcome" where
  "Memory_Ping ms =
     Ret (Some (ErrMsg ''there is no connection to remote db, in-memory storage is used''), ms)"

definition memory_db :: "MemorySt MetricsRepo" where
  "memory_db =
     \<lparr>GetGauge = Memory_GetGauge, GetGaugeAll = Memory_GetGaugeAll,
      GetCounter = Memory_GetCounter, GetCounterAll = Memory_GetCounterAll,
      SetGauge = Memory_SetGauge, SetGaugeAll = Memory_SetGaugeAll,
      SetCounter = Memory_SetCounter, SetCounterAll = Memory_SetCounterAll,
      Ping = Memory_Ping, Close = Memory_Close\<rparr>"

section \<open>Correctness\<close>

definition mem_inv :: "MemorySt \<Rightarrow> bool" where
  "mem_inv ms \<longleftrightarrow> idle (mGauge ms) \<and> idle (mCounter ms)"

definition mem_gauges :: "MemorySt \<Rightarrow> float64 gomap" where
  "mem_gauges ms = Data (mGauge ms)"

definition mem_counters :: "MemorySt \<Rightarrow> int64 gomap" where
  "mem_counters ms = Data (mCounter ms)"

text \<open>The effect of one operation: the state with one of the two maps replaced.\<close>

definition put_gauges :: "float64 gomap \<Rightarrow> MemorySt \<Rightarrow> MemorySt" where
  "put_gauges m ms = ms\<lparr>mGauge := (mGauge ms)\<lparr>Data := m\<rparr>\<rparr>"

definition put_counters :: "int64 gomap \<Rightarrow> MemorySt \<Rightarrow> MemorySt" where
  "put_counters m ms = ms\<lparr>mCounter := (mCounter ms)\<lparr>Data := m\<rparr>\<rparr>"

lemma put_simps [simp, repo_simps]:
  "mem_gauges (put_gauges m ms) = m" "mem_counters (put_gauges m ms) = mem_counters ms"
  "mem_counters (put_counters c ms) = c" "mem_gauges (put_counters c ms) = mem_gauges ms"
  "mem_inv (put_gauges m ms) = mem_inv ms" "mem_inv (put_counters c ms) = mem_inv ms"
  by (simp_all add: put_gauges_def put_counters_def mem_gauges_def mem_counters_def mem_inv_def idle_def)

lemma mem_inv_Init [simp, repo_simps]: "mem_inv Memory_Init"
  "mem_gauges Memory_Init = fmempty" "mem_counters Memory_Init = fmempty"
  by (simp_all add: mem_inv_def Memory_Init_def mem_gauges_def mem_counters_def)

lemma add_counters_foldl:
  "enumerates kvs d \<Longrightarrow> foldl (accum_entry (+)) m kvs = add_counters d m"
  by (intro fmap_ext)
    (simp add: accum_entry_upd foldl_upd_entry_enum plus_opt_def split: option.splits)

lemma fmadd_foldl: "enumerates kvs d \<Longrightarrow> foldl set_entry m kvs = fmadd m d"
  by (intro fmap_ext) (simp add: set_entry_upd foldl_upd_entry_enum split: option.splits)

lemma accum_entry_add: "accum_entry (+) m (n, i) = add_counter n i m"
  by (simp add: accum_entry_def add_counter_def plus_opt_def split: option.splits)

lemma memory_gets [repo_simps]:
  assumes "mem_inv ms"
  shows "Memory_GetGauge n ms = Ret (Inr (fmlookup (mem_gauges ms) n), ms)"
    and "Memory_GetGaugeAll ms = Ret (Inr (mem_gauges ms), ms)"
    and "Memory_GetCounter n ms = Ret (Inr (fmlookup (mem_counters ms) n), ms)"
    and "Memory_GetCounterAll ms = Ret (Inr (mem_counters ms), ms)"
  using assms
  by (simp_all add: Memory_GetGauge_def Memory_GetGaugeAll_def Memory_GetCounter_def
      Memory_GetCounterAll_def Read_idle mem_inv_def Get_def GetAll_def mem_gauges_def mem_counters_def)

lemma memory_sets [repo_simps]:
  assumes "mem_inv ms"
  shows "Memory_SetGauge n v ms = Ret (None, put_gauges (fmupd n v (mem_gauges ms)) ms)"
    and "Memory_SetGaugeAll d ms = Ret (None, put_gauges (fmadd (mem_gauges ms) d) ms)"
    and "Memory_SetCounter n i ms = Ret (None, put_counters (add_counter n i (mem_counters ms)) ms)"
    and "Memory_SetCounterAll c ms = Ret (None, put_counters (add_counters c (mem_counters ms)) ms)"
  using assms
  by (simp_all add: Memory_SetGauge_def Memory_SetGaugeAll_def Memory_SetCounter_def
      Memory_SetCounterAll_def Update_tx_map mem_inv_def Set_def SetAll_def SetAccum_def SetAccumAll_def
      put_gauges_def put_counters_def mem_gauges_def mem_counters_def
      add_counters_foldl fmadd_foldl accum_entry_add)

lemma memory_db_sel [simp]:
  "GetGauge memory_db = Memory_GetGauge" "GetGaugeAll memory_db = Memory_GetGaugeAll"
  "GetCounter memory_db = Memory_GetCounter" "GetCounterAll memory_db = Memory_GetCounterAll"
  "SetGauge memory_db = Memory_SetGauge" "SetGaugeAll memory_db = Memory_SetGaugeAll"
  "SetCounter memory_db = Memory_SetCounter" "SetCounterAll memory_db = Memory_SetCounterAll"
  "Ping memory_db = Memory_Ping" "Close memory_db = Memory_Close"
  by (simp_all add: memory_db_def)

interpretation mem: offline_repo memory_db mem_inv mem_gauges mem_counters
  by unfold_locales (simp_all add: repo_simps Memory_Ping_def)

end
