(* ===== verification/Go_Scanner.thy ===== *)
theory Go_Scanner
  imports Go_Strings
begin

text \<open>
  \<open>bufio.Scanner\<close> over a file, with its buffer as an explicit array: a token is a slice
  of that array (\<open>Bytes\<close> does not copy), so a later \<open>Scan\<close> that moves the buffer's
  contents changes what an earlier token reads. Sizes are the package's: the buffer starts
  at 4096 bytes, doubles, and stops at 65536.
\<close>

section \<open>State\<close>

text \<open>
  All arrays allocated so far, the last one current; a slice names an array, an offset and a
  length. \<open>sc_err\<close> says that an error or the end of the file was recorded.
\<close>

record Scanner =
  arrays :: "bytes list"
  sc_start :: nat
  sc_end :: nat
  sc_rest :: bytes
  sc_err :: bool

record slice =
  s_arr :: nat
  s_off :: nat
  s_len :: nat

definition slice_bytes :: "bytes list \<Rightarrow> slice \<Rightarrow> bytes" where
  "slice_bytes as sl = take (s_len sl) (drop (s_off sl) (as ! s_arr sl))"

definition startBufSize :: nat where
  "startBufSize = 4096"

definition maxTokenSize :: nat where
  "maxTokenSize = 65536"

definition cur_buf :: "Scanner \<Rightarrow> bytes" where
  "cur_buf sc = last (arrays sc)"

definition sc_data :: "Scanner \<Rightarrow> bytes" where
  "sc_data sc = take (sc_end sc - sc_start sc) (drop (sc_start sc) (cur_buf sc))"

text \<open>\<open>NewScanner\<close>: the current array is the nil buffer.\<close>

definition NewScanner :: "bytes \<Rightarrow> Scanner" where
  "NewScanner file = \<lparr>arrays = [[]], sc_start = 0, sc_end = 0, sc_rest = file, sc_err = False\<rparr>"

text \<open>Overwriting an array from an offset on, as \<open>copy\<close> and \<open>Read\<close> do.\<close>

definition overwrite :: "nat \<Rightarrow> bytes \<Rightarrow> bytes \<Rightarrow> bytes" where
  "overwrite off b arr = take off arr @ b @ drop (off + length b) arr"

definition set_cur :: "bytes \<Rightarrow> Scanner \<Rightarrow> Scanner" where
  "set_cur b sc = sc\<lparr>arrays := butlast (arrays sc) @ [b]\<rparr>"

section \<open>One step of the loop of Scan\<close>

text \<open>Moving the data to the front of the buffer when space is needed or most of it is spent.\<close>

definition shift_buf :: "Scanner \<Rightarrow> Scanner" where
  "shift_buf sc =
     (if 0 < sc_start sc \<and> (sc_end sc = length (cur_buf sc) \<or> length (cur_buf sc) div 2 < sc_start sc)
      then (set_cur (overwrite 0 (sc_data sc) (cur_buf sc)) sc)\<lparr>sc_end := sc_end sc - sc_start sc, sc_start := 0\<rparr>
      else sc)"

text \<open>A full buffer is replaced by a larger one; \<open>None\<close> is \<open>ErrTooLong\<close>.\<close>

definition grow_buf :: "Scanner \<Rightarrow> Scanner option" where
  "grow_buf sc =
     (let n = length (cur_buf sc)
      in if sc_end sc = n then
           (if maxTokenSize \<le> n then None
            else let size = min (if n = 0 then startBufSize else 2 * n) maxTokenSize
                 in Some (sc\<lparr>arrays := arrays sc @ [overwrite 0 (sc_data sc) (replicate size (CHR 0x00))],
                             sc_end := sc_end sc - sc_start sc, sc_start := 0\<rparr>))
         else Some sc)"

text \<open>A read fills what space there is; at the end of the file it reports EOF.\<close>

definition read_buf :: "Scanner \<Rightarrow> Scanner" where
  "read_buf sc =
     (let b = take (length (cur_buf sc) - sc_end sc) (sc_rest sc)
      in if sc_rest sc = [] then sc\<lparr>sc_err := True\<rparr>
         else (set_cur (overwrite (sc_end sc) b (cur_buf sc)) sc)
                \<lparr>sc_end := sc_end sc + length b, sc_rest := drop (length b) (sc_rest sc)\<rparr>)"

text \<open>
  A split function looks at the data and says how far to advance and which prefix-based
  part of the data is the token (offset and length), if there is one; it may panic.
\<close>

type_synonym split_fn = "bytes \<Rightarrow> bool \<Rightarrow> (nat \<times> (nat \<times> nat) option) outcome"

datatype scan_step = Token slice Scanner | Stop Scanner | More Scanner | Crash string

definition try_split :: "split_fn \<Rightarrow> Scanner \<Rightarrow> scan_step" where
  "try_split f sc =
     (if sc_start sc < sc_end sc \<or> sc_err sc then
        (case f (sc_data sc) (sc_err sc) of
           Panic p \<Rightarrow> Crash p
         | Blocked \<Rightarrow> Stop sc
         | Ret (adv, tok) \<Rightarrow>
             let sc' = sc\<lparr>sc_start := sc_start sc + adv\<rparr>
             in case tok of
                  Some (off, len) \<Rightarrow>
                    Token \<lparr>s_arr = length (arrays sc) - 1, s_off = sc_start sc + off, s_len = len\<rparr> sc'
                | None \<Rightarrow> More sc')
      else More sc)"

text \<open>
  \<open>Scan\<close>: the token found, or \<open>None\<close> at the end. The fuel bounds the reads left: one
  per byte of the file, one for EOF, and the pass after it.
\<close>

fun Scan :: "nat \<Rightarrow> split_fn \<Rightarrow> Scanner \<Rightarrow> (slice option \<times> Scanner) outcome" where
  "Scan 0 f sc = Blocked"
| "Scan (Suc n) f sc =
     (case try_split f sc of
        Crash p \<Rightarrow> Panic p
      | Token t sc' \<Rightarrow> Ret (Some t, sc')
      | Stop sc' \<Rightarrow> Ret (None, sc')
      | More sc' \<Rightarrow>
          if sc_err sc' then Ret (None, sc'\<lparr>sc_start := 0, sc_end := 0\<rparr>)
          else case grow_buf (shift_buf sc') of
                 None \<Rightarrow> Ret (None, (shift_buf sc')\<lparr>sc_err := True\<rparr>)
               | Some sc'' \<Rightarrow> Scan n f (read_buf sc''))"

definition scan_fuel :: "Scanner \<Rightarrow> nat" where
  "scan_fuel sc = length (sc_rest sc) + 2"

text \<open>What every scanner keeps.\<close>

definition sc_ok :: "Scanner \<Rightarrow> bool" where
  "sc_ok sc \<longleftrightarrow> arrays sc \<noteq> [] \<and> sc_end sc \<le> length (cur_buf sc) \<and> sc_start sc \<le> sc_end sc"

end
