(* ===== verification/Fw.thy ===== *)
theory Fw
  imports Metrics_Repo Go_Scanner
begin

text \<open>
  \<open>internal/monserv/fw/fw.go\<close>: the backup file. The disk is explicit: the files by
  their paths and the faults of the system calls. \<open>Backup_Write\<close> writes the store as
  \<open>[{gauges},{counters}]\<close>, \<open>RestorePrev\<close> cuts the file at the first \<open>,{\<close> with
  a \<open>bufio.Scanner\<close> and loads the two parts, \<open>Schedule\<close> waits for the end of the
  context to write the last backup.
\<close>

section \<open>State\<close>

record Backup =
  b_mu :: bool
  b_Path :: string
  b_Interval :: int64
  b_RestoreFlag :: bool

text \<open>
  The disk: the files by their paths (links and other spellings of a path are left out). A
  fault is \<open>None\<close> when the call on that path succeeds; a failing \<open>Write\<close> writes a
  number of bytes first.
\<close>

record Disk =
  d_files :: "string \<Rightarrow> bytes option"
  d_open_err :: "string \<Rightarrow> go_error option"
  d_truncate_fails :: "string \<Rightarrow> bool"
  d_write_err :: "string \<Rightarrow> (nat \<times> go_error) option"

definition put_file :: "string \<Rightarrow> bytes \<Rightarrow> Disk \<Rightarrow> Disk" where
  "put_file p txt d = d\<lparr>d_files := (d_files d)(p \<mapsto> txt)\<rparr>"

lemma put_file_simps [simp]:
  "d_files (put_file p txt d) q = (if q = p then Some txt else d_files d q)"
  "d_open_err (put_file p txt d) = d_open_err d"
  "d_truncate_fails (put_file p txt d) = d_truncate_fails d"
  "d_write_err (put_file p txt d) = d_write_err d"
  "put_file p txt (put_file p txt' d) = put_file p txt d"
  by (simp_all add: put_file_def)

lemma put_file_same: "d_files d p = Some txt \<Longrightarrow> put_file p txt d = d"
  by (simp add: put_file_def map_upd_triv)

definition ShouldRestore :: "Backup \<Rightarrow> bool" where
  "ShouldRestore b = b_RestoreFlag b"

text \<open>\<open>os.OpenFile\<close> with \<open>O_CREATE\<close>: a missing file is created empty.\<close>

definition OpenFile :: "string \<Rightarrow> Disk \<Rightarrow> go_error + Disk" where
  "OpenFile p d =
     (case d_open_err d p of
        Some e \<Rightarrow> Inl e
      | None \<Rightarrow> Inr (case d_files d p of None \<Rightarrow> put_file p [] d | Some b \<Rightarrow> d))"

text \<open>\<open>os.Truncate\<close>; its error, also that of a missing file, is dropped.\<close>

definition Truncate :: "string \<Rightarrow> Disk \<Rightarrow> Disk" where
  "Truncate p d =
     (if d_truncate_fails d p then d
      else case d_files d p of None \<Rightarrow> d | Some b \<Rightarrow> put_file p [] d)"

definition file_contents :: "string \<Rightarrow> Disk \<Rightarrow> bytes" where
  "file_contents p d = (case d_files d p of None \<Rightarrow> [] | Some b \<Rightarrow> b)"

text \<open>A write at offset 0 into a file that was not truncated on opening.\<close>

definition write_file :: "string \<Rightarrow> bytes \<Rightarrow> Disk \<Rightarrow> go_error option \<times> Disk" where
  "write_file p data d =
     (case d_write_err d p of
        None \<Rightarrow> (None, put_file p (overwrite 0 data (file_contents p d)) d)
      | Some (n, e) \<Rightarrow> (Some e, put_file p (overwrite 0 (take n data) (file_contents p d)) d))"

section \<open>RestorePrev\<close>

text \<open>
  The split function. The search reads the byte after a comma without a bounds check, so a
  comma at the end of the data panics.
\<close>

fun split_search :: "nat \<Rightarrow> bytes \<Rightarrow> nat option outcome" where
  "split_search i [] = Ret None"
| "split_search i (b # bs) =
     (if b = CHR '','' then
        (case bs of
           [] \<Rightarrow> Panic ''runtime error: index out of range''
         | c # _ \<Rightarrow> if c = CHR ''{'' then Ret (Some i) else split_search (Suc i) bs)
      else split_search (Suc i) bs)"

definition backup_split :: split_fn where
  "backup_split data atEOF =
     bind_outcome (split_search 0 data) (\<lambda>r.
       Ret (case r of
              Some i \<Rightarrow> (i + 1, Some (0, i + 1))
            | None \<Rightarrow> if atEOF \<and> 0 < length data then (length data, Some (0, length data))
                      else (0, None)))"

text \<open>\<open>bytes.Trim\<close> of a slice is a subslice of the same array.\<close>

definition trim_slice :: "bytes list \<Rightarrow> bytes \<Rightarrow> slice \<Rightarrow> slice" where
  "trim_slice as cutset sl =
     (let b = slice_bytes as sl;
          l = length (takeWhile (\<lambda>c. c \<in> set cutset) b)
      in sl\<lparr>s_off := s_off sl + l, s_len := length (Trim b cutset)\<rparr>)"

text \<open>
  The two scans. Both slices are read only after the second scan, so the result is what the
  arrays hold then; a missing token is the nil slice.
\<close>

definition read_parts :: "bytes \<Rightarrow> (bytes \<times> bytes) outcome" where
  "read_parts file =
     (let sc0 = NewScanner file
      in bind_outcome (Scan (scan_fuel sc0) backup_split sc0) (\<lambda>(t1, sc1).
           let gj = map_option (trim_slice (arrays sc1) ''[,]'') t1
           in bind_outcome (Scan (scan_fuel sc1) backup_split sc1) (\<lambda>(t2, sc2).
                let cj = map_option (trim_slice (arrays sc2) ''[,]'') t2;
                    deref = (\<lambda>sl. case sl of None \<Rightarrow> [] | Some x \<Rightarrow> slice_bytes (arrays sc2) x)
                in Ret (deref gj, deref cj))))"

definition empty_err :: "Backup \<Rightarrow> string \<Rightarrow> go_error" where
  "empty_err b what = ErrMsg (''couldn't read any meaningful '' @ what @ '' values from the file: '' @ b_Path b @ '';'')"

text \<open>The gauges: \<open>gParseErr\<close>, \<open>gEmptyErr\<close> and the store after the load.\<close>

definition restore_gauges :: "Backup \<Rightarrow> 's MetricsRepo \<Rightarrow> bytes \<Rightarrow> 's \<Rightarrow> ((go_error option \<times> go_error option) \<times> 's) outcome" where
  "restore_gauges b db gj s =
     (if 2 < length gj then
        (case unmarshal_gauges gj of
           (None, m) \<Rightarrow> bind_outcome (SetGaugeAll db m s) (\<lambda>(_, s'). Ret ((None, None), s'))
         | (Some e, _) \<Rightarrow> Ret ((Some e, None), s))
      else Ret ((None, Some (empty_err b ''gauge'')), s))"

definition restore_counters :: "Backup \<Rightarrow> 's MetricsRepo \<Rightarrow> bytes \<Rightarrow> go_error option \<times> go_error option \<Rightarrow> 's \<Rightarrow> (go_error option \<times> 's) outcome" where
  "restore_counters b db cj gerrs s =
     (case gerrs of (gParseErr, gEmptyErr) \<Rightarrow>
        if 2 < length cj then
          (case unmarshal_counters cj of
             (err, m) \<Rightarrow>
               (case (err, gParseErr) of
                  (Some e, Some ge) \<Rightarrow> Ret (Some (ErrJoin ge e), s)
                | _ \<Rightarrow> bind_outcome (SetCounterAll db m s) (\<lambda>(_, s'). Ret (None, s'))))
        else (case gEmptyErr of
                Some ge \<Rightarrow> Ret (Some (ErrJoin ge (empty_err b ''counter'')), s)
              | None \<Rightarrow> Ret (None, s)))"

definition RestorePrev :: "Backup \<Rightarrow> 's MetricsRepo \<Rightarrow> Disk \<Rightarrow> 's \<Rightarrow> (go_error option \<times> Disk \<times> 's) outcome" where
  "RestorePrev b db d s =
     (if \<not> ShouldRestore b then Ret (None, d, s)
      else if b_mu b then Blocked
      else case OpenFile (b_Path b) d of
             Inl e \<Rightarrow> Ret (Some e, d, s)
           | Inr d' \<Rightarrow>
               bind_outcome (read_parts (file_contents (b_Path b) d')) (\<lambda>(gj, cj).
                 bind_outcome (restore_gauges b db gj s) (\<lambda>(gerrs, s1).
                   bind_outcome (restore_counters b db cj gerrs s1) (\<lambda>(err, s2).
                     Ret (err, d', s2)))))"

section \<open>Write\<close>

text \<open>Both parts: the errors of the two reads are dropped, an unreadable map counts as empty.\<close>

definition gauge_part :: "float64 gomap \<Rightarrow> go_error + bytes" where
  "gauge_part gVals = (if 0 < map_len gVals then marshal_gauges gVals else Inr ''{}'')"

definition counter_part :: "int64 gomap \<Rightarrow> go_error + bytes" where
  "counter_part cVals = (if 0 < map_len cVals then marshal_counters cVals else Inr [])"

definition backup_data :: "bytes \<Rightarrow> bytes \<Rightarrow> bytes" where
  "backup_data pt1 pt2 =
     CHR ''['' # (if 3 \<le> length pt2 then pt1 @ '','' @ pt2 else pt1) @ '']''"

definition or_empty :: "go_error + ('k, 'v) fmap \<Rightarrow> ('k, 'v) fmap" where
  "or_empty r = (case r of Inl e \<Rightarrow> fmempty | Inr m \<Rightarrow> m)"

definition Backup_Write :: "Backup \<Rightarrow> 's MetricsRepo \<Rightarrow> bool \<Rightarrow> Disk \<Rightarrow> 's \<Rightarrow> (go_error option \<times> Disk \<times> 's) outcome" where
  "Backup_Write b db truncateFlag d s =
     (if b_mu b then Blocked
      else let d0 = (if truncateFlag then Truncate (b_Path b) d else d)
           in case OpenFile (b_Path b) d0 of
                Inl e \<Rightarrow> Ret (Some e, d0, s)
              | Inr d1 \<Rightarrow>
                  bind_outcome (GetGaugeAll db s) (\<lambda>(g, s1).
                  bind_outcome (GetCounterAll db s1) (\<lambda>(c, s2).
                    case gauge_part (or_empty g) of
                      Inl e \<Rightarrow> Ret (Some e, d1, s2)
                    | Inr pt1 \<Rightarrow>
                        (case counter_part (or_empty c) of
                           Inl e \<Rightarrow> Ret (Some e, d1, s2)
                         | Inr pt2 \<Rightarrow>
                             if length pt1 < 3 \<and> length pt2 < 3
                             then Ret (Some (ErrMsg (''nothing to write to the backup file: '' @ b_Path b)), d1, s2)
                             else case write_file (b_Path b) (backup_data pt1 pt2) d1 of
                                    (err, d2) \<Rightarrow> Ret (err, d2, s2)))))"

section \<open>Schedule\<close>

text \<open>
  What the loop's \<open>select\<close> receives. A tick does nothing (its body is commented out in
  the source); with no event left the loop waits.
\<close>

datatype sched_event = Tick | CtxDone

fun Schedule :: "Backup \<Rightarrow> 's MetricsRepo \<Rightarrow> sched_event list \<Rightarrow> Disk \<Rightarrow> 's \<Rightarrow> (go_error option \<times> Disk \<times> 's) outcome" where
  "Schedule b db [] d s = Blocked"
| "Schedule b db (Tick # evs) d s = Schedule b db evs d s"
| "Schedule b db (CtxDone # evs) d s = Backup_Write b db True d s"

end
