(* ===== verification/Repo.thy ===== *)
theory Repo
  imports Pgsql Memory Fw
begin

text \<open>
  \<open>internal/repo/repo.go\<close>: the store the server runs on, PostgreSQL or memory, and its
  backup. \<open>'p + MemorySt\<close> is the state behind the interface value \<open>MetricsRepo\<close>:
  the driver's on the left, the in-memory store's on the right; \<open>repo_db\<close> is the
  dispatch of the interface's methods.
\<close>

section \<open>Dispatch\<close>

definition on_left :: "('p \<Rightarrow> ('r \<times> 'p) outcome) \<Rightarrow> ('m \<Rightarrow> ('r \<times> 'm) outcome) \<Rightarrow> 'p + 'm \<Rightarrow> ('r \<times> ('p + 'm)) outcome" where
  "on_left f g s =
     (case s of
        Inl p \<Rightarrow> map_outcome (apsnd Inl) (f p)
      | Inr m \<Rightarrow> map_outcome (apsnd Inr) (g m))"

definition dispatch :: "'p MetricsRepo \<Rightarrow> 'm MetricsRepo \<Rightarrow> ('p + 'm) MetricsRepo" where
  "dispatch a b =
     \<lparr>GetGauge = (\<lambda>n. on_left (GetGauge a n) (GetGauge b n)), GetGaugeAll = on_left (GetGaugeAll a) (GetGaugeAll b),
      GetCounter = (\<lambda>n. on_left (GetCounter a n) (GetCounter b n)), GetCounterAll = on_left (GetCounterAll a) (GetCounterAll b),
      SetGauge = (\<lambda>n v. on_left (SetGauge a n v) (SetGauge b n v)), SetGaugeAll = (\<lambda>m. on_left (SetGaugeAll a m) (SetGaugeAll b m)),
      SetCounter = (\<lambda>n v. on_left (SetCounter a n v) (SetCounter b n v)), SetCounterAll = (\<lambda>m. on_left (SetCounterAll a m) (SetCounterAll b m)),
      Ping = on_left (Ping a) (Ping b),
      Close = (\<lambda>s. case s of Inl p \<Rightarrow> map_outcome Inl (Close a p) | Inr m \<Rightarrow> map_outcome Inr (Close b m))\<rparr>"

definition repo_db :: "'p PgSQL \<Rightarrow> ('p + MemorySt) MetricsRepo" where
  "repo_db pg = dispatch (pgsql_db pg) memory_db"

section \<open>Current\<close>

record 'p Current =
  cur_repo :: "'p + MemorySt"
  cur_bkp :: Backup
  isInMemory :: bool

text \<open>\<open>pgInit\<close> is \<open>Pg_Init\<close> on the driver. Its failure is logged and memory is used.\<close>

definition Repo_Init :: "(string \<Rightarrow> go_error + 'p) \<Rightarrow> string \<Rightarrow> Backup \<Rightarrow> 'p Current" where
  "Repo_Init pgInit connStr bkp =
     (let memory = \<lparr>cur_repo = Inr Memory_Init, cur_bkp = bkp, isInMemory = True\<rparr>
      in if connStr \<noteq> [] then
           (case pgInit connStr of
              Inl err \<Rightarrow> memory
            | Inr p \<Rightarrow> \<lparr>cur_repo = Inl p, cur_bkp = bkp, isInMemory = False\<rparr>)
         else memory)"

definition Restore :: "'p PgSQL \<Rightarrow> Disk \<Rightarrow> 'p Current \<Rightarrow> (go_error option \<times> Disk \<times> 'p Current) outcome" where
  "Restore pg d c =
     (if isInMemory c then
        (if ShouldRestore (cur_bkp c) then
           bind_outcome (RestorePrev (cur_bkp c) (repo_db pg) d (cur_repo c)) (\<lambda>(err, d', s').
             Ret (err, d', c\<lparr>cur_repo := s'\<rparr>))
         else Ret (None, d, c))
      else Ret (None, d, c))"

definition ScheduleBackup :: "'p PgSQL \<Rightarrow> sched_event list \<Rightarrow> Disk \<Rightarrow> 'p Current \<Rightarrow> (go_error option \<times> Disk \<times> 'p Current) outcome" where
  "ScheduleBackup pg evs d c =
     (if isInMemory c then
        bind_outcome (Schedule (cur_bkp c) (repo_db pg) evs d (cur_repo c)) (\<lambda>(err, d', s').
          Ret (err, d', c\<lparr>cur_repo := s'\<rparr>))
      else Ret (None, d, c))"

end
