(* ===== verification/Go_Http.thy ===== *)
theory Go_Http
  imports Go_Strings
begin

text \<open>
  The parts of \<open>net/http\<close> the server's code meets: headers, requests, the
  \<open>ResponseWriter\<close> interface as a record of operations, the server's own writer, and
  \<open>http.Error\<close>. The locale \<open>resp_writer\<close> states what the handlers rely on: the first
  status sent is the status of the response, and a \<open>Write\<close> sends 200 if none was. The
  wrapping writers of the middlewares satisfy it too.
\<close>

section \<open>Headers\<close>

text \<open>Header names are compared without regard to ASCII case.\<close>

type_synonym header = "(string, string list) fmap"

definition hkey :: "string \<Rightarrow> string" where
  "hkey k = map lower k"

definition hdr_Get :: "string \<Rightarrow> header \<Rightarrow> string" where
  "hdr_Get k h = (case fmlookup h (hkey k) of Some (v # _) \<Rightarrow> v | _ \<Rightarrow> [])"

definition hdr_Set :: "string \<Rightarrow> string \<Rightarrow> header \<Rightarrow> header" where
  "hdr_Set k v h = fmupd (hkey k) [v] h"

definition hdr_Add :: "string \<Rightarrow> string \<Rightarrow> header \<Rightarrow> header" where
  "hdr_Add k v h = fmupd (hkey k) ((case fmlookup h (hkey k) of None \<Rightarrow> [] | Some vs \<Rightarrow> vs) @ [v]) h"

definition hdr_Del :: "string \<Rightarrow> header \<Rightarrow> header" where
  "hdr_Del k h = fmdrop (hkey k) h"

lemma hdr_Get_Set [http_simps]: "hdr_Get k (hdr_Set k' v h) = (if hkey k = hkey k' then v else hdr_Get k h)"
  by (simp add: hdr_Get_def hdr_Set_def)

lemma hdr_Get_empty [simp, http_simps]: "hdr_Get k fmempty = []"
  by (simp add: hdr_Get_def)

section \<open>Requests\<close>

text \<open>A body yields its bytes and then end of file or an error; closing it may fail.\<close>

record Body =
  content :: bytes
  read_err :: "go_error option"
  close_err :: "go_error option"

record Request =
  Method :: string
  URLParams :: "(string, string) fmap"
  rHeader :: header
  rBody :: Body

definition URLParam :: "Request \<Rightarrow> string \<Rightarrow> string" where
  "URLParam req k = (case fmlookup (URLParams req) k of None \<Rightarrow> [] | Some v \<Rightarrow> v)"

text \<open>A body that is held in memory.\<close>

definition NopCloser :: "bytes \<Rightarrow> Body" where
  "NopCloser b = \<lparr>content = b, read_err = None, close_err = None\<rparr>"

section \<open>The ResponseWriter interface\<close>

text \<open>
  \<open>Header\<close> hands out the live header map: a read and a write of it are the operations
  \<open>rw_Header\<close> and \<open>rw_PutHeader\<close>.
\<close>

record 'w RespWriter =
  rw_Header :: "'w \<Rightarrow> header"
  rw_PutHeader :: "header \<Rightarrow> 'w \<Rightarrow> 'w"
  rw_Write :: "bytes \<Rightarrow> 'w \<Rightarrow> (nat \<times> go_error option) \<times> 'w"
  rw_WriteHeader :: "nat \<Rightarrow> 'w \<Rightarrow> 'w"

definition rw_SetHeader :: "'w RespWriter \<Rightarrow> string \<Rightarrow> string \<Rightarrow> 'w \<Rightarrow> 'w" where
  "rw_SetHeader rw k v w = rw_PutHeader rw (hdr_Set k v (rw_Header rw w)) w"

text \<open>Pieces written one after the other; the first error ends the writing.\<close>

fun write_chunks :: "'w RespWriter \<Rightarrow> bytes list \<Rightarrow> 'w \<Rightarrow> go_error option \<times> 'w" where
  "write_chunks rw [] w = (None, w)"
| "write_chunks rw (b # bs) w =
     (case rw_Write rw b w of ((_, err), w') \<Rightarrow>
        (case err of Some e \<Rightarrow> (Some e, w') | None \<Rightarrow> write_chunks rw bs w'))"

text \<open>A handler: what it makes of a writer, a request and the store.\<close>

type_synonym ('w, 's) Handler = "'w RespWriter \<Rightarrow> Request \<Rightarrow> 'w \<Rightarrow> 's \<Rightarrow> ('w \<times> 's) outcome"

text \<open>\<open>http.Error\<close> of Go 1.22.\<close>

definition http_Error :: "'w RespWriter \<Rightarrow> string \<Rightarrow> nat \<Rightarrow> 'w \<Rightarrow> 'w" where
  "http_Error rw msg code w =
     (let w1 = rw_SetHeader rw ''Content-Type'' ''text/plain; charset=utf-8'' w;
          w2 = rw_SetHeader rw ''X-Content-Type-Options'' ''nosniff'' w1;
          w3 = rw_WriteHeader rw code w2
      in snd (rw_Write rw (msg @ [CHR 0x0A]) w3))"

section \<open>The server's writer\<close>

text \<open>
  \<open>n_sent\<close> is the status line and the header as they went out: later changes of the
  live header and later statuses have no effect. \<open>n_fail\<close> says the connection is broken.
\<close>

record NetWriter =
  n_header :: header
  n_sent :: "(nat \<times> header) option"
  n_body :: bytes
  n_fail :: bool

definition fresh_writer :: NetWriter where
  "fresh_writer = \<lparr>n_header = fmempty, n_sent = None, n_body = [], n_fail = False\<rparr>"

definition net_WriteHeader :: "nat \<Rightarrow> NetWriter \<Rightarrow> NetWriter" where
  "net_WriteHeader code w =
     (case n_sent w of None \<Rightarrow> w\<lparr>n_sent := Some (code, n_header w)\<rparr> | Some _ \<Rightarrow> w)"

definition net_Write :: "bytes \<Rightarrow> NetWriter \<Rightarrow> (nat \<times> go_error option) \<times> NetWriter" where
  "net_Write b w =
     (let w' = net_WriteHeader 200 w
      in if n_fail w then ((0, Some (ErrMsg ''write: broken connection'')), w')
         else ((length b, None), w'\<lparr>n_body := n_body w' @ b\<rparr>))"

definition net_writer :: "NetWriter RespWriter" where
  "net_writer = \<lparr>rw_Header = n_header, rw_PutHeader = (\<lambda>h w. w\<lparr>n_header := h\<rparr>),
     rw_Write = net_Write, rw_WriteHeader = net_WriteHeader\<rparr>"

definition net_code :: "NetWriter \<Rightarrow> nat option" where
  "net_code w = map_option fst (n_sent w)"

section \<open>What a handler relies on\<close>

text \<open>\<open>ok\<close> is what the writer's own state keeps between calls.\<close>

locale resp_writer =
  fixes rw :: "'w RespWriter" and code :: "'w \<Rightarrow> nat option" and ok :: "'w \<Rightarrow> bool"
  assumes code_put [simp]: "ok w \<Longrightarrow> code (rw_PutHeader rw h w) = code w"
    and code_write_header [simp]: "ok w \<Longrightarrow> code (rw_WriteHeader rw c w) = Some (case code w of None \<Rightarrow> c | Some c' \<Rightarrow> c')"
    and code_write [simp]: "ok w \<Longrightarrow> code (snd (rw_Write rw b w)) = Some (case code w of None \<Rightarrow> 200 | Some c' \<Rightarrow> c')"
    and ok_put [simp]: "ok w \<Longrightarrow> ok (rw_PutHeader rw h w)"
    and ok_write_header [simp]: "ok w \<Longrightarrow> ok (rw_WriteHeader rw c w)"
    and ok_write [simp]: "ok w \<Longrightarrow> ok (snd (rw_Write rw b w))"
begin

lemma code_set_header [simp]: "ok w \<Longrightarrow> code (rw_SetHeader rw k v w) = code w" "ok w \<Longrightarrow> ok (rw_SetHeader rw k v w)"
  by (simp_all add: rw_SetHeader_def)

lemma code_http_Error [simp]: "ok w \<Longrightarrow> code (http_Error rw msg c w) = Some (case code w of None \<Rightarrow> c | Some c' \<Rightarrow> c')"
    "ok w \<Longrightarrow> ok (http_Error rw msg c w)"
  by (simp_all add: http_Error_def Let_def split: option.splits)

end

definition net_ok :: "NetWriter \<Rightarrow> bool" where
  "net_ok w \<longleftrightarrow> True"

lemma net_ok [simp]: "net_ok w"
  by (simp add: net_ok_def)

lemma net_writer_sel [simp, http_simps]:
  "rw_Header net_writer = n_header" "rw_PutHeader net_writer = (\<lambda>h w. w\<lparr>n_header := h\<rparr>)"
  "rw_Write net_writer = net_Write" "rw_WriteHeader net_writer = net_WriteHeader"
  by (simp_all add: net_writer_def)

interpretation net: resp_writer net_writer net_code net_ok
  by unfold_locales
    (simp_all add: net_code_def net_WriteHeader_def net_Write_def Let_def split: option.splits)

text \<open>The response to an error on a fresh writer.\<close>

lemma hkey_lit [simp]:
  "hkey ''Content-Type'' = ''content-type''" "hkey ''X-Content-Type-Options'' = ''x-content-type-options''"
  "hkey ''Content-Encoding'' = ''content-encoding''" "hkey ''Content-Length'' = ''content-length''"
  "hkey ''HashSHA256'' = ''hashsha256''" "hkey ''Accept-Encoding'' = ''accept-encoding''"
  by code_simp+

lemma http_Error_net:
  "n_sent w = None \<Longrightarrow> \<not> n_fail w \<Longrightarrow>
   n_sent (http_Error net_writer msg c w) =
     Some (c, hdr_Set ''X-Content-Type-Options'' ''nosniff''
                (hdr_Set ''Content-Type'' ''text/plain; charset=utf-8'' (n_header w))) \<and>
   n_body (http_Error net_writer msg c w) = n_body w @ msg @ [CHR 0x0A]"
  by (simp add: http_Error_def rw_SetHeader_def net_Write_def net_WriteHeader_def Let_def)

end
