(* ===== verification/Go_Base64.thy ===== *)
theory Go_Base64
  imports Go_Strings
begin

text \<open>
  \<open>encoding/base64\<close>, the URL alphabet with padding: \<open>EncodeToString\<close> and
  \<open>DecodeString\<close> (which skips line ends and reports anything else malformed). The round
  trip is \<open>b64_decode_encode\<close>.
\<close>

definition b64_char :: "nat \<Rightarrow> char" where
  "b64_char n =
     (if n < 26 then char_of (65 + n) else if n < 52 then char_of (71 + n)
      else if n < 62 then char_of (n - 4) else if n = 62 then CHR ''-'' else CHR ''_'')"

definition b64_val :: "char \<Rightarrow> nat option" where
  "b64_val c =
     (let b = of_char c :: nat
      in if 65 \<le> b \<and> b \<le> 90 then Some (b - 65) else if 97 \<le> b \<and> b \<le> 122 then Some (b - 71)
         else if 48 \<le> b \<and> b \<le> 57 then Some (b + 4) else if b = 45 then Some 62
         else if b = 95 then Some 63 else None)"

definition enc3 :: "nat \<Rightarrow> nat \<Rightarrow> nat \<Rightarrow> bytes" where
  "enc3 a b c = [b64_char (a div 4), b64_char (a mod 4 * 16 + b div 16),
                 b64_char (b mod 16 * 4 + c div 64), b64_char (c mod 64)]"

fun b64_encode :: "bytes \<Rightarrow> bytes" where
  "b64_encode [] = []"
| "b64_encode [a] = take 2 (enc3 (of_char a) 0 0) @ ''==''"
| "b64_encode [a, b] = take 3 (enc3 (of_char a) (of_char b) 0) @ ''=''"
| "b64_encode (a # b # c # s) = enc3 (of_char a) (of_char b) (of_char c) @ b64_encode s"

text \<open>One quantum of four values, as three bytes.\<close>

definition dec4 :: "nat \<Rightarrow> nat \<Rightarrow> nat \<Rightarrow> nat \<Rightarrow> bytes" where
  "dec4 v w x y = [char_of (v * 4 + w div 16), char_of (w mod 16 * 16 + x div 4), char_of (x mod 4 * 64 + y)]"

fun b64_quanta :: "bytes \<Rightarrow> bytes option" where
  "b64_quanta [] = Some []"
| "b64_quanta (a # b # c # d # s) =
     (case (b64_val a, b64_val b) of
        (Some v, Some w) \<Rightarrow>
          if d = CHR ''='' then
            (if s \<noteq> [] then None
             else if c = CHR ''='' then Some (take 1 (dec4 v w 0 0))
             else map_option (\<lambda>x. take 2 (dec4 v w x 0)) (b64_val c))
          else (case (b64_val c, b64_val d) of
                  (Some x, Some y) \<Rightarrow> map_option (append (dec4 v w x y)) (b64_quanta s)
                | _ \<Rightarrow> None)
      | _ \<Rightarrow> None)"
| "b64_quanta s = None"

definition b64_decode :: "bytes \<Rightarrow> bytes option" where
  "b64_decode s = b64_quanta (filter (\<lambda>c. c \<noteq> CHR 0x0A \<and> c \<noteq> CHR 0x0D) s)"

lemma b64_char_val: "n < 64 \<Longrightarrow> b64_val (b64_char n) = Some n"
  by (auto simp: b64_val_def b64_char_def Let_def)

lemma b64_char_plain:
  assumes "n < 64"
  shows "b64_char n \<noteq> CHR ''=''" "b64_char n \<noteq> CHR 0x0A" "b64_char n \<noteq> CHR 0x0D"
proof -
  have "b64_val CHR ''='' = None" "b64_val CHR 0x0A = None" "b64_val CHR 0x0D = None" by (simp_all add: b64_val_def)
  with b64_char_val [OF assms] show "b64_char n \<noteq> CHR ''=''" "b64_char n \<noteq> CHR 0x0A" "b64_char n \<noteq> CHR 0x0D"
    by auto
qed

lemma byte_lt: "(of_char (c :: char) :: nat) < 256"
  using nat_of_char_less_256 [of c] by simp

lemma dec4_enc3:
  assumes "a < 256" "b < 256" "c < (256 :: nat)"
  shows "dec4 (a div 4) (a mod 4 * 16 + b div 16) (b mod 16 * 4 + c div 64) (c mod 64) = [char_of a, char_of b, char_of c]"
proof -
  have "(a mod 4 * 16 + b div 16) div 16 = a mod 4" "(a mod 4 * 16 + b div 16) mod 16 = b div 16"
    "(b mod 16 * 4 + c div 64) div 4 = b mod 16" "(b mod 16 * 4 + c div 64) mod 4 = c div 64"
    using assms by simp_all
  then show ?thesis by (simp add: dec4_def)
qed

lemma quanta_one: "a < 256 \<Longrightarrow> b64_quanta (take 2 (enc3 a 0 0) @ ''=='') = Some [char_of a]"
  using b64_char_val [of "a div 4"] b64_char_val [of "a mod 4 * 16"] dec4_enc3 [of a 0 0]
  by (simp add: enc3_def)

lemma quanta_two:
  assumes "a < 256" "b < 256"
  shows "b64_quanta (take 3 (enc3 a b 0) @ ''='') = Some [char_of a, char_of b]"
proof -
  have "a div 4 < 64" "a mod 4 * 16 + b div 16 < 64" "b mod 16 * 4 < 64" using assms by simp_all
  with b64_char_val b64_char_plain(1) dec4_enc3 [OF assms, of 0] show ?thesis by (simp add: enc3_def)
qed

lemma quanta_three:
  assumes "a < 256" "b < 256" "c < 256"
  shows "b64_quanta (enc3 a b c @ s) = map_option (append [char_of a, char_of b, char_of c]) (b64_quanta s)"
proof -
  have "a div 4 < 64" "a mod 4 * 16 + b div 16 < 64" "b mod 16 * 4 + c div 64 < 64" "c mod 64 < 64"
    using assms by simp_all
  with b64_char_val b64_char_plain(1) dec4_enc3 [OF assms] show ?thesis by (simp add: enc3_def)
qed

lemma quanta_encode: "b64_quanta (b64_encode s) = Some s"
proof (induction s rule: b64_encode.induct)
  case (4 a b c s)
  then show ?case
    using quanta_three [of "of_char a" "of_char b" "of_char c" "b64_encode s"] byte_lt by simp
qed (use quanta_one quanta_two byte_lt in simp_all)

lemma encode_no_newline: "filter (\<lambda>c. c \<noteq> CHR 0x0A \<and> c \<noteq> CHR 0x0D) (b64_encode s) = b64_encode s"
proof -
  have plain: "c \<noteq> CHR 0x0A \<and> c \<noteq> CHR 0x0D" if "c \<in> set (enc3 x y z)" "x < 256" "y < 256" "z < (256 :: nat)" for c x y z
  proof -
    have "x div 4 < 64" "x mod 4 * 16 + y div 16 < 64" "y mod 16 * 4 + z div 64 < 64" "z mod 64 < 64" using that by simp_all
    with that b64_char_plain(2,3) show ?thesis by (auto simp: enc3_def)
  qed
  have "\<forall>c \<in> set (b64_encode s). c \<noteq> CHR 0x0A \<and> c \<noteq> CHR 0x0D"
  proof (induction s rule: b64_encode.induct)
    case (2 a)
    then show ?case using plain [of _ "of_char a" 0 0] byte_lt by (auto dest: in_set_takeD)
  next
    case (3 a b)
    then show ?case using plain [of _ "of_char a" "of_char b" 0] byte_lt by (auto dest: in_set_takeD)
  next
    case (4 a b c s)
    then show ?case using plain [of _ "of_char a" "of_char b" "of_char c"] byte_lt by auto
  qed simp
  then show ?thesis by simp
qed

theorem b64_decode_encode [lib_simps]: "b64_decode (b64_encode s) = Some s"
  by (simp add: b64_decode_def encode_no_newline quanta_encode)

lemma b64_encode_empty_iff [simp]: "b64_encode s = [] \<longleftrightarrow> s = []"
  by (cases s rule: b64_encode.cases) (simp_all add: enc3_def)

end
