(* ===== verification/Middlewares.thy ===== *)
theory Middlewares
  imports Go_Http Go_Base64 Ciphers
begin

text \<open>
  \<open>internal/monserv/middlewares/middlewares.go\<close>. A middleware turns a handler into a
  handler; it may hand it another writer, another request, or answer itself. The writers of
  one connection nest, each kind at most once, so their states share the record \<open>Conn\<close>:
  the server's writer, the logger's counts, the state of the gzip writer. The compressor, the
  decompressor and the keyed hash of the standard library are parameters; what the zap logger prints
  is left out, the duration too.
\<close>

section \<open>State\<close>

text \<open>
  A compressor: its fresh state, and what a write, the end of the text and a flush make it
  write to the underlying writer. The reader on a body: the text, the error it ends with, and the
  error of closing it, unless the header is bad.
\<close>

record 'z Gzip =
  gz_new :: 'z
  gz_Write :: "bytes \<Rightarrow> 'z \<Rightarrow> bytes list \<times> 'z"
  gz_Close :: "'z \<Rightarrow> bytes list \<times> 'z"
  gz_Flush :: "'z \<Rightarrow> bytes list \<times> 'z"
  gz_NewReader :: "bytes \<times> go_error option \<Rightarrow> go_error + (bytes \<times> go_error option \<times> go_error option)"

record 'z Conn =
  c_net :: NetWriter
  c_code :: nat
  c_size :: nat
  c_wroteHeader :: bool
  c_gz :: 'z
  c_gz_err :: "go_error option"

definition new_conn :: "'z Gzip \<Rightarrow> 'z Conn" where
  "new_conn gz = \<lparr>c_net = fresh_writer, c_code = 0, c_size = 0, c_wroteHeader = False,
                  c_gz = gz_new gz, c_gz_err = None\<rparr>"

definition conn_code :: "'z Conn \<Rightarrow> nat option" where
  "conn_code w = net_code (c_net w)"

definition conn_net :: "'z Conn RespWriter" where
  "conn_net = \<lparr>
     rw_Header = (\<lambda>w. n_header (c_net w)),
     rw_PutHeader = (\<lambda>h w. w\<lparr>c_net := (c_net w)\<lparr>n_header := h\<rparr>\<rparr>),
     rw_Write = (\<lambda>b w. apsnd (\<lambda>n. w\<lparr>c_net := n\<rparr>) (net_Write b (c_net w))),
     rw_WriteHeader = (\<lambda>c w. w\<lparr>c_net := net_WriteHeader c (c_net w)\<rparr>)\<rparr>"

section \<open>Logging\<close>

definition log_Write :: "'z Conn RespWriter \<Rightarrow> bytes \<Rightarrow> 'z Conn \<Rightarrow> (nat \<times> go_error option) \<times> 'z Conn" where
  "log_Write rw b w =
     (case rw_Write rw b w of ((n, err), w') \<Rightarrow> ((n, err), w'\<lparr>c_size := c_size w' + n\<rparr>))"

definition log_WriteHeader :: "'z Conn RespWriter \<Rightarrow> nat \<Rightarrow> 'z Conn \<Rightarrow> 'z Conn" where
  "log_WriteHeader rw code w = rw_WriteHeader rw code (w\<lparr>c_code := code\<rparr>)"

definition log_writer :: "'z Conn RespWriter \<Rightarrow> 'z Conn RespWriter" where
  "log_writer rw = rw\<lparr>rw_Write := log_Write rw, rw_WriteHeader := log_WriteHeader rw\<rparr>"

text \<open>The logged status and size are \<open>c_code\<close> and \<open>c_size\<close> when the handler is done.\<close>

definition CreateLogger :: "('z Conn, 's) Handler \<Rightarrow> ('z Conn, 's) Handler" where
  "CreateLogger serve rw req w s = serve (log_writer rw) req (w\<lparr>c_code := 0, c_size := 0\<rparr>) s"

section \<open>Compression\<close>

definition gw_WriteHeader :: "'z Conn RespWriter \<Rightarrow> nat \<Rightarrow> 'z Conn \<Rightarrow> 'z Conn" where
  "gw_WriteHeader rw code w =
     (if c_wroteHeader w then rw_WriteHeader rw code w
      else let w1 = w\<lparr>c_wroteHeader := True\<rparr>;
               w2 = (if hdr_Get ''Content-Encoding'' (rw_Header rw w1) \<noteq> [] then w1
                     else rw_PutHeader rw (hdr_Del ''Content-Length''
                            (hdr_Set ''Content-Encoding'' ''gzip'' (rw_Header rw w1))) w1)
           in rw_WriteHeader rw code w2)"

text \<open>The compressor keeps the first error of the underlying writer and repeats it.\<close>

definition gw_Write :: "'z Gzip \<Rightarrow> 'z Conn RespWriter \<Rightarrow> bytes \<Rightarrow> 'z Conn \<Rightarrow> (nat \<times> go_error option) \<times> 'z Conn" where
  "gw_Write gz rw p w =
     (let w1 = (if c_wroteHeader w then w else gw_WriteHeader rw 200 w)
      in case c_gz_err w1 of
           Some e \<Rightarrow> ((0, Some e), w1)
         | None \<Rightarrow>
             (case gz_Write gz p (c_gz w1) of (out, z) \<Rightarrow>
                case write_chunks rw out (w1\<lparr>c_gz := z\<rparr>) of (err, w2) \<Rightarrow>
                  ((if err = None then length p else 0, err), w2\<lparr>c_gz_err := err\<rparr>)))"

definition gw_Close :: "'z Gzip \<Rightarrow> 'z Conn RespWriter \<Rightarrow> 'z Conn \<Rightarrow> go_error option \<times> 'z Conn" where
  "gw_Close gz rw w =
     (case c_gz_err w of
        Some e \<Rightarrow> (Some e, w)
      | None \<Rightarrow>
          (case gz_Close gz (c_gz w) of (out, z) \<Rightarrow> write_chunks rw out (w\<lparr>c_gz := z\<rparr>)))"

text \<open>
  \<open>Flush\<close> passes what is compressed so far to the underlying writer. That writer is not
  flushed: \<open>net/http\<close>'s \<open>Flush\<close> has no result, so its type is not the
  \<open>Flusher\<close> asked for, and the other writers have none.
\<close>

definition gw_Flush :: "'z Gzip \<Rightarrow> 'z Conn RespWriter \<Rightarrow> 'z Conn \<Rightarrow> 'z Conn" where
  "gw_Flush gz rw w =
     (case c_gz_err w of
        Some e \<Rightarrow> w
      | None \<Rightarrow>
          (case gz_Flush gz (c_gz w) of (out, z) \<Rightarrow>
             case write_chunks rw out (w\<lparr>c_gz := z\<rparr>) of (err, w') \<Rightarrow> w'\<lparr>c_gz_err := err\<rparr>))"

definition gz_writer :: "'z Gzip \<Rightarrow> 'z Conn RespWriter \<Rightarrow> 'z Conn RespWriter" where
  "gz_writer gz rw = rw\<lparr>rw_Write := gw_Write gz rw, rw_WriteHeader := gw_WriteHeader rw\<rparr>"

definition wants_gzip :: "Request \<Rightarrow> bool" where
  "wants_gzip req \<longleftrightarrow>
     Contains (hdr_Get ''Accept-Encoding'' (rHeader req)) ''gzip'' \<or>
     HasPrefix (hdr_Get ''Content-Type'' (rHeader req)) ''application/json'' \<or>
     HasPrefix (hdr_Get ''Content-Type'' (rHeader req)) ''text/html''"

text \<open>
  \<open>NewGzipWriter\<close> resets a pooled compressor to a fresh one on this writer; the deferred
  \<open>Close\<close> ends the text.
\<close>

definition CreateCompress :: "'z Gzip \<Rightarrow> ('z Conn, 's) Handler \<Rightarrow> ('z Conn, 's) Handler" where
  "CreateCompress gz serve rw req w s =
     (if \<not> wants_gzip req then serve rw req w s
      else bind_outcome
        (serve (gz_writer gz rw) req (w\<lparr>c_wroteHeader := False, c_gz := gz_new gz, c_gz_err := None\<rparr>) s)
        (\<lambda>(w1, s1).
           case gw_Close gz rw w1 of (err, w2) \<Rightarrow>
             Ret (case err of
                    Some e \<Rightarrow> http_Error rw ''decompression failed'' 500 w2
                  | None \<Rightarrow> w2, s1)))"

section \<open>Decompression of requests\<close>

text \<open>The reader over a body; closing it closes the body first and stops at its error.\<close>

definition NewGzipReader :: "'z Gzip \<Rightarrow> Body \<Rightarrow> go_error + Body" where
  "NewGzipReader gz r =
     (case gz_NewReader gz (content r, read_err r) of
        Inl e \<Rightarrow> Inl e
      | Inr (plain, rerr, cerr) \<Rightarrow>
          Inr \<lparr>content = plain, read_err = rerr,
               close_err = (case close_err r of Some e \<Rightarrow> Some e | None \<Rightarrow> cerr)\<rparr>)"

definition CreateUncompressReq :: "'z Gzip \<Rightarrow> ('z Conn, 's) Handler \<Rightarrow> ('z Conn, 's) Handler" where
  "CreateUncompressReq gz serve rw req w s =
     (if Contains (hdr_Get ''Content-Encoding'' (rHeader req)) ''gzip'' then
        (case NewGzipReader gz (rBody req) of
           Inl e \<Rightarrow> Ret (http_Error rw ''decompression failed'' 500 w, s)
         | Inr gr \<Rightarrow> serve rw (req\<lparr>rBody := gr\<rparr>) w s)
      else serve rw req w s)"

section \<open>Signatures\<close>

text \<open>
  \<open>hmac key text\<close> is the keyed hash of a text. The response writer signs with the hash
  it made at the start, into which nothing is ever written, and only in \<open>Write\<close>.
\<close>

definition sign_Write :: "(bytes \<Rightarrow> bytes \<Rightarrow> bytes) \<Rightarrow> bytes \<Rightarrow> 'z Conn RespWriter \<Rightarrow> bytes \<Rightarrow> 'z Conn
    \<Rightarrow> (nat \<times> go_error option) \<times> 'z Conn" where
  "sign_Write hmac key rw p w =
     rw_Write rw p (rw_SetHeader rw ''HashSHA256'' (b64_encode (hmac key [])) w)"

definition sign_writer :: "(bytes \<Rightarrow> bytes \<Rightarrow> bytes) \<Rightarrow> bytes \<Rightarrow> 'z Conn RespWriter \<Rightarrow> 'z Conn RespWriter" where
  "sign_writer hmac key rw = rw\<lparr>rw_Write := sign_Write hmac key rw\<rparr>"

definition CreateSigner :: "(bytes \<Rightarrow> bytes \<Rightarrow> bytes) \<Rightarrow> bytes \<Rightarrow> ('z Conn, 's) Handler \<Rightarrow> ('z Conn, 's) Handler" where
  "CreateSigner hmac key serve rw req w s = serve (sign_writer hmac key rw) req w s"

text \<open>
  The check of a request's signature. The copy into the hash ends at the body's end or its
  error, which is dropped; the handler gets what was read.
\<close>

definition CreateSumChecker :: "(bytes \<Rightarrow> bytes \<Rightarrow> bytes) \<Rightarrow> bytes \<Rightarrow> ('z Conn, 's) Handler \<Rightarrow> ('z Conn, 's) Handler" where
  "CreateSumChecker hmac key serve rw req w s =
     (let hashHeader = hdr_Get ''HashSHA256'' (rHeader req)
      in if hashHeader = [] then serve rw req w s
         else case b64_decode hashHeader of
                None \<Rightarrow> Ret (http_Error rw ''encoding error'' 500 w, s)
              | Some reqSign \<Rightarrow>
                  if reqSign = hmac key (content (rBody req))
                  then serve rw (req\<lparr>rBody := NopCloser (content (rBody req))\<rparr>) w s
                  else Ret (http_Error rw ''invalid request'' 400 w, s))"

section \<open>Decryption\<close>

text \<open>
  Neither error response ends the middleware: the decryption is tried on what was read, and
  the handler runs on the decrypted body, empty when the decryption failed.
\<close>

definition CreateMsgDecrypter :: "('pub, 'priv) Crypto \<Rightarrow> 'priv \<Rightarrow> ('z Conn, 's) Handler \<Rightarrow> ('z Conn, 's) Handler" where
  "CreateMsgDecrypter cr key serve rw req w s =
     (let w1 = (case read_err (rBody req) of
                  Some e \<Rightarrow> http_Error rw ''error reading body'' 500 w
                | None \<Rightarrow> w)
      in bind_outcome (DecryptMsg cr key (content (rBody req))) (\<lambda>r.
           case r of
             Inl e \<Rightarrow> serve rw (req\<lparr>rBody := NopCloser []\<rparr>) (http_Error rw ''internal server error'' 500 w1) s
           | Inr body \<Rightarrow> serve rw (req\<lparr>rBody := NopCloser body\<rparr>) w1 s))"

end
