(* ===== verification/Handlers.thy ===== *)
theory Handlers
  imports Metrics_Repo Go_Http
begin

text \<open>
  \<open>internal/monserv/handlers/handlers.go\<close>: the HTTP API. A handler takes the store's
  interface \<open>db\<close> and state, the writer's interface \<open>rw\<close> and state, and the request;
  it returns the writer and the store after it, panics (a nil dereference, which
  \<open>net/http\<close> turns into an aborted connection), or waits on the store. Log lines are
  left out. The HTML template of the root page is the argument \<open>tmpl\<close>: the parse error,
  or the chunks its execution writes and its error.
\<close>

section \<open>RespError and API.Error\<close>

record RespError =
  re_err :: go_error
  re_msg :: string

definition NewRespError :: "string \<Rightarrow> go_error option \<Rightarrow> RespError" where
  "NewRespError msg err =
     (case err of None \<Rightarrow> \<lparr>re_err = ErrMsg msg, re_msg = msg\<rparr>
      | Some e \<Rightarrow> \<lparr>re_err = e, re_msg = msg\<rparr>)"

text \<open>The two texts of an error; \<open>errText\<close> is the \<open>Error\<close> method of the wrapped one.\<close>

definition RespError_Error :: "(go_error \<Rightarrow> string) \<Rightarrow> RespError \<Rightarrow> string" where
  "RespError_Error errText re = errText (re_err re)"

definition RespError_Msg :: "RespError \<Rightarrow> string" where
  [simp]: "RespError_Msg re = re_msg re"

definition api_Error :: "'w RespWriter \<Rightarrow> RespError \<Rightarrow> nat \<Rightarrow> 'w \<Rightarrow> 'w" where
  "api_Error rw err code w = http_Error rw (RespError_Msg err) code w"

definition nil_deref :: string where
  "nil_deref = ''runtime error: invalid memory address or nil pointer dereference''"

section \<open>updateMetrics\<close>

text \<open>
  The gauge and the counter case: the value comes from the path when there is one, else
  from the pointer, whose dereference panics when it is nil.
\<close>

definition update_gauge :: "'s MetricsRepo \<Rightarrow> Metrics \<Rightarrow> 's \<Rightarrow> ((nat \<times> RespError option) \<times> 's) outcome" where
  "update_gauge db m s =
     (case (if SValue m \<noteq> [] then map_sum id Some (ParseGauge (SValue m)) else Inr (Value m)) of
        Inl e \<Rightarrow> Ret ((400, Some (NewRespError ''invalid value'' (Some e))), s)
      | Inr None \<Rightarrow> Panic nil_deref
      | Inr (Some v) \<Rightarrow>
          bind_outcome (SetGauge db (ID m) v s) (\<lambda>(err, s').
            Ret (case err of
                   Some e \<Rightarrow> ((500, Some (NewRespError ''setting gauge value in db failed'' (Some e))), s')
                 | None \<Rightarrow> ((200, None), s'))))"

definition update_counter :: "'s MetricsRepo \<Rightarrow> Metrics \<Rightarrow> 's \<Rightarrow> ((nat \<times> RespError option) \<times> 's) outcome" where
  "update_counter db m s =
     (case (if SValue m \<noteq> [] then map_sum id Some (ParseCounter (SValue m)) else Inr (Delta m)) of
        Inl e \<Rightarrow> Ret ((400, Some (NewRespError ''invalid value'' (Some e))), s)
      | Inr None \<Rightarrow> Panic nil_deref
      | Inr (Some d) \<Rightarrow>
          bind_outcome (SetCounter db (ID m) d s) (\<lambda>(err, s').
            Ret (case err of
                   Some e \<Rightarrow> ((500, Some (NewRespError ''setting counter value in db failed'' (Some e))), s')
                 | None \<Rightarrow> ((200, None), s'))))"

definition updateMetrics :: "'s MetricsRepo \<Rightarrow> Metrics \<Rightarrow> 's \<Rightarrow> ((nat \<times> RespError option) \<times> 's) outcome" where
  "updateMetrics db m s =
     (if ID m = [] then Ret ((404, Some (NewRespError ''name must contain a value'' None)), s)
      else if MType m = GaugeType then update_gauge db m s
      else if MType m = CounterType then update_counter db m s
      else Ret ((400, Some (NewRespError ''incorrect request type'' None)), s))"

section \<open>Handlers\<close>

text \<open>A handler's tail: the error response or the bare status.\<close>

definition respond :: "'w RespWriter \<Rightarrow> nat \<times> RespError option \<Rightarrow> 'w \<Rightarrow> 'w" where
  "respond rw res w =
     (case res of (code, err) \<Rightarrow>
        (case err of Some e \<Rightarrow> api_Error rw e code w | None \<Rightarrow> rw_WriteHeader rw code w))"

definition UpdateHandler :: "'s MetricsRepo \<Rightarrow> 'w RespWriter \<Rightarrow> Request \<Rightarrow> 'w \<Rightarrow> 's \<Rightarrow> ('w \<times> 's) outcome" where
  "UpdateHandler db rw req w s =
     (let m = Metrics_zero\<lparr>MType := URLParam req ''type'', ID := URLParam req ''name'',
                           SValue := URLParam req ''value''\<rparr>
      in bind_outcome (updateMetrics db m s) (\<lambda>(res, s'). Ret (respond rw res w, s')))"

text \<open>
  The frame of the JSON handlers: content type, body, the deferred \<open>Close\<close> whose error
  is answered after the handler's own response, and the handler proper on the bytes.
\<close>

definition json_handler :: "'w RespWriter \<Rightarrow> Request \<Rightarrow> (bytes \<Rightarrow> 'w \<Rightarrow> 's \<Rightarrow> ('w \<times> 's) outcome)
    \<Rightarrow> 'w \<Rightarrow> 's \<Rightarrow> ('w \<times> 's) outcome" where
  "json_handler rw req h w s =
     (if Contains (hdr_Get ''Content-Type'' (rHeader req)) ''application/json'' then
        (case read_err (rBody req) of
           Some e \<Rightarrow> Ret (api_Error rw (NewRespError ''working with request body failed'' (Some e)) 500 w, s)
         | None \<Rightarrow>
             bind_outcome (h (content (rBody req)) w s) (\<lambda>(w', s').
               Ret (case close_err (rBody req) of
                      Some e \<Rightarrow> (api_Error rw (NewRespError ''working with request body failed'' (Some e)) 500 w', s')
                    | None \<Rightarrow> (w', s'))))
      else Ret (api_Error rw (NewRespError ''unsupported content type'' None) 400 w, s))"

definition unmarshaling_failed :: "'w RespWriter \<Rightarrow> go_error \<Rightarrow> 'w \<Rightarrow> 'w" where
  "unmarshaling_failed rw e w = api_Error rw (NewRespError ''unmarshaling failed'' (Some e)) 400 w"

definition UpdateRootHandler :: "'s MetricsRepo \<Rightarrow> 'w RespWriter \<Rightarrow> Request \<Rightarrow> 'w \<Rightarrow> 's \<Rightarrow> ('w \<times> 's) outcome" where
  "UpdateRootHandler db rw req =
     json_handler rw req (\<lambda>b w s.
       case unmarshal_Metrics b of
         (Some e, _) \<Rightarrow> Ret (unmarshaling_failed rw e w, s)
       | (None, m) \<Rightarrow> bind_outcome (updateMetrics db m s) (\<lambda>(res, s'). Ret (respond rw res w, s')))"

text \<open>The loop of the batch handler: the last gauge of a name wins, its counters add up.\<close>

fun collect_batch :: "Metrics list \<Rightarrow> float64 gomap \<Rightarrow> int64 gomap \<Rightarrow> (float64 gomap \<times> int64 gomap) outcome" where
  "collect_batch [] gm cm = Ret (gm, cm)"
| "collect_batch (r # rs) gm cm =
     (if ID r = [] then collect_batch rs gm cm
      else if MType r = GaugeType then
        (case Value r of
           None \<Rightarrow> Panic nil_deref
         | Some v \<Rightarrow> collect_batch rs (fmupd (ID r) v gm) cm)
      else if MType r = CounterType then
        (case Delta r of
           None \<Rightarrow> Panic nil_deref
         | Some d \<Rightarrow>
             (case fmlookup cm (ID r) of
                Some cv \<Rightarrow> collect_batch rs gm (fmupd (ID r) (cv + d) cm)
              | None \<Rightarrow> collect_batch rs gm (fmupd (ID r) d cm)))
      else collect_batch rs gm cm)"

text \<open>The two stores after the loop; an error ends the handler before the next step.\<close>

definition store_gauges :: "'s MetricsRepo \<Rightarrow> float64 gomap \<Rightarrow> 's \<Rightarrow> (go_error option \<times> 's) outcome" where
  "store_gauges db gm s = (if 0 < map_len gm then SetGaugeAll db gm s else Ret (None, s))"

definition store_counters :: "'s MetricsRepo \<Rightarrow> int64 gomap \<Rightarrow> 's \<Rightarrow> (go_error option \<times> 's) outcome" where
  "store_counters db cm s = (if 0 < map_len cm then SetCounterAll db cm s else Ret (None, s))"

definition store_batch :: "'s MetricsRepo \<Rightarrow> 'w RespWriter \<Rightarrow> float64 gomap \<Rightarrow> int64 gomap \<Rightarrow> 'w \<Rightarrow> 's \<Rightarrow> ('w \<times> 's) outcome" where
  "store_batch db rw gm cm w s =
     (if map_len gm = 0 \<and> map_len cm = 0
      then Ret (api_Error rw (NewRespError ''nothing to update'' None) 400 w, s)
      else bind_outcome (store_gauges db gm s) (\<lambda>(e1, s1).
        case e1 of
          Some e \<Rightarrow> Ret (api_Error rw (NewRespError ''gauge batch update to db failed'' (Some e)) 500 w, s1)
        | None \<Rightarrow>
            bind_outcome (store_counters db cm s1) (\<lambda>(e2, s2).
              case e2 of
                Some e \<Rightarrow> Ret (api_Error rw (NewRespError ''counter batch update to db failed'' (Some e)) 500 w, s2)
              | None \<Rightarrow> Ret (rw_WriteHeader rw 200 w, s2))))"

definition UpdateBatchHandler :: "'s MetricsRepo \<Rightarrow> 'w RespWriter \<Rightarrow> Request \<Rightarrow> 'w \<Rightarrow> 's \<Rightarrow> ('w \<times> 's) outcome" where
  "UpdateBatchHandler db rw req =
     json_handler rw req (\<lambda>b w s.
       case unmarshal_batch b of
         (Some e, _) \<Rightarrow> Ret (unmarshaling_failed rw e w, s)
       | (None, mm) \<Rightarrow>
           bind_outcome (collect_batch mm fmempty fmempty) (\<lambda>(gm, cm). store_batch db rw gm cm w s))"

record vhData =
  vh_metrics :: Metrics
  vh_code :: nat

text \<open>
  \<open>getVhData\<close> returns the status beside the error, or the metric found (its status is
  always 200).
\<close>

definition getVhData :: "'s MetricsRepo \<Rightarrow> Metrics \<Rightarrow> 's \<Rightarrow> (((nat \<times> RespError) + vhData) \<times> 's) outcome" where
  "getVhData db m s =
     (if ID m = [] then Ret (Inl (404, NewRespError ''name must contain a value'' None), s)
      else if MType m = GaugeType then
        bind_outcome (GetGauge db (ID m) s) (\<lambda>(r, s').
          Ret (case r of
                 Inl e \<Rightarrow> Inl (500, NewRespError ''getting gauge value from db failed'' (Some e))
               | Inr (Some v) \<Rightarrow>
                   Inr \<lparr>vh_metrics = Metrics_zero\<lparr>ID := ID m, MType := MType m, Value := Some v,
                                                  SValue := FormatGauge v\<rparr>, vh_code = 200\<rparr>
               | Inr None \<Rightarrow> Inl (404, NewRespError ''value doesn't exist in the storage'' None), s'))
      else if MType m = CounterType then
        bind_outcome (GetCounter db (ID m) s) (\<lambda>(r, s').
          Ret (case r of
                 Inl e \<Rightarrow> Inl (500, NewRespError ''getting counter value from db failed'' (Some e))
               | Inr (Some v) \<Rightarrow>
                   Inr \<lparr>vh_metrics = Metrics_zero\<lparr>ID := ID m, MType := MType m, Delta := Some v,
                                                  SValue := FormatCounter v\<rparr>, vh_code = 200\<rparr>
               | Inr None \<Rightarrow> Inl (404, NewRespError ''value doesn't exist in the storage'' None), s'))
      else Ret (Inl (400, NewRespError ''incorrect request type'' None), s))"

text \<open>A write of the response body; its error is answered like any other.\<close>

definition write_body :: "'w RespWriter \<Rightarrow> bytes \<Rightarrow> 'w \<Rightarrow> 'w" where
  "write_body rw b w =
     (case rw_Write rw b w of ((_, err), w') \<Rightarrow>
        (case err of Some e \<Rightarrow> api_Error rw (NewRespError ''rw error'' (Some e)) 500 w' | None \<Rightarrow> w'))"

definition ValueHandler :: "'s MetricsRepo \<Rightarrow> 'w RespWriter \<Rightarrow> Request \<Rightarrow> 'w \<Rightarrow> 's \<Rightarrow> ('w \<times> 's) outcome" where
  "ValueHandler db rw req w s =
     (let m = Metrics_zero\<lparr>MType := URLParam req ''type'', ID := URLParam req ''name''\<rparr>
      in bind_outcome (getVhData db m s) (\<lambda>(r, s').
           Ret (case r of
                  Inl (code, e) \<Rightarrow> api_Error rw e code w
                | Inr vhd \<Rightarrow> write_body rw (SValue (vh_metrics vhd)) w, s')))"

definition ValueRootHandler :: "'s MetricsRepo \<Rightarrow> 'w RespWriter \<Rightarrow> Request \<Rightarrow> 'w \<Rightarrow> 's \<Rightarrow> ('w \<times> 's) outcome" where
  "ValueRootHandler db rw req =
     json_handler rw req (\<lambda>b w s.
       case unmarshal_Metrics b of
         (Some e, _) \<Rightarrow> Ret (unmarshaling_failed rw e w, s)
       | (None, m) \<Rightarrow>
           bind_outcome (getVhData db m s) (\<lambda>(r, s').
             Ret (case r of
                    Inl (code, e) \<Rightarrow> api_Error rw e code w
                  | Inr vhd \<Rightarrow>
                      (case marshal_Metrics (vh_metrics vhd) of
                         Inl e \<Rightarrow> api_Error rw (NewRespError ''marshaling failed'' (Some e)) 500 w
                       | Inr js \<Rightarrow>
                           write_body rw js
                             (rw_PutHeader rw
                               (hdr_Add ''Content-Type'' ''application/json; charset=utf-8'' (rw_Header rw w)) w)), s')))"

definition PingHandler :: "'s MetricsRepo \<Rightarrow> 'w RespWriter \<Rightarrow> Request \<Rightarrow> 'w \<Rightarrow> 's \<Rightarrow> ('w \<times> 's) outcome" where
  "PingHandler db rw req w s =
     bind_outcome (Ping db s) (\<lambda>(err, s').
       Ret (case err of
              Some e \<Rightarrow> api_Error rw (NewRespError ''connection to DB wasn't established'' (Some e)) 500 w
            | None \<Rightarrow> rw_WriteHeader rw 200 w, s'))"

text \<open>\<open>tmpl.Execute\<close>: a failed write ends the execution with its error.\<close>

definition tmpl_Execute :: "'w RespWriter \<Rightarrow> bytes list \<times> go_error option \<Rightarrow> 'w \<Rightarrow> go_error option \<times> 'w" where
  "tmpl_Execute rw page w =
     (case write_chunks rw (fst page) w of (werr, w') \<Rightarrow>
        ((case werr of Some e \<Rightarrow> Some e | None \<Rightarrow> snd page), w'))"

text \<open>
  The root page. \<open>tmpl\<close> is \<open>None\<close> when the template file did not parse; the error
  response then carries the store's (nil) error instead of the parse error, as in the source.
\<close>

definition CreateRootHandler :: "(float64 gomap \<Rightarrow> int64 gomap \<Rightarrow> bytes list \<times> go_error option) option
    \<Rightarrow> 's MetricsRepo \<Rightarrow> 'w RespWriter \<Rightarrow> Request \<Rightarrow> 'w \<Rightarrow> 's \<Rightarrow> ('w \<times> 's) outcome" where
  "CreateRootHandler tmpl db rw req w s =
     bind_outcome (GetGaugeAll db s) (\<lambda>(g, s1).
       case g of
         Inl e \<Rightarrow> Ret (api_Error rw (NewRespError ''an error occured while acquaring gauge values from db'' (Some e)) 500 w, s1)
       | Inr gVals \<Rightarrow>
           bind_outcome (GetCounterAll db s1) (\<lambda>(c, s2).
             Ret (case c of
                    Inl e \<Rightarrow> api_Error rw (NewRespError ''an error occured while acquaring counter values from db'' (Some e)) 500 w
                  | Inr cVals \<Rightarrow>
                      (case tmpl of
                         None \<Rightarrow> api_Error rw (NewRespError ''file parsing error'' None) 500 w
                       | Some execute \<Rightarrow>
                           (case tmpl_Execute rw (execute gVals cVals)
                                   (rw_SetHeader rw ''Content-Type'' ''text/html; charset=utf-8'' w) of
                              (err, w') \<Rightarrow>
                                (case err of
                                   Some e \<Rightarrow> api_Error rw (NewRespError ''template execution error'' (Some e)) 500 w'
                                 | None \<Rightarrow> w'))), s2)))"

end
