(* ===== verification/Monserv.thy ===== *)
theory Monserv
  imports Middlewares Handlers
begin

text \<open>
  \<open>internal/monserv/monserv.go\<close>: which middlewares wrap which handlers. chi is a
  parameter: \<open>chi_Use\<close> runs a handler behind a list of middlewares, \<open>chi_Find\<close> is the
  route of a method and a path among the mounted patterns with the path's parameters,
  \<open>chi_NotFound\<close> answers when there is none.
\<close>

record ('z, 's) Chi =
  chi_Use :: "(('z Conn, 's) Handler \<Rightarrow> ('z Conn, 's) Handler) list \<Rightarrow> ('z Conn, 's) Handler \<Rightarrow> ('z Conn, 's) Handler"
  chi_Find :: "(string \<times> string) list \<Rightarrow> string \<Rightarrow> string \<Rightarrow> (nat \<times> (string, string) fmap) option"
  chi_NotFound :: "('z Conn, 's) Handler"

text \<open>The standard library's compression, hash and ciphers the server is built with.\<close>

record ('z, 'pub, 'priv) Libs =
  lib_gz :: "'z Gzip"
  lib_hmac :: "bytes \<Rightarrow> bytes \<Rightarrow> bytes"
  lib_crypto :: "('pub, 'priv) Crypto"

text \<open>The address, the router and the logger of the server have no part in the handlers.\<close>

record ('s, 'priv) MonServ =
  srv_db :: "'s MetricsRepo"
  srv_key :: string
  srv_cryptoKey :: "'priv option"

definition NewInstance :: "'s MetricsRepo \<Rightarrow> string \<Rightarrow> 'priv option \<Rightarrow> ('s, 'priv) MonServ" where
  "NewInstance db key cryptoKey = \<lparr>srv_db = db, srv_key = key, srv_cryptoKey = cryptoKey\<rparr>"

text \<open>The middlewares of the main group and of the update group, outermost first.\<close>

definition mw :: "('z, 'pub, 'priv) Libs \<Rightarrow> (('z Conn, 's) Handler \<Rightarrow> ('z Conn, 's) Handler) list" where
  "mw lib = [CreateLogger, CreateUncompressReq (lib_gz lib), CreateCompress (lib_gz lib)]"

definition umw :: "('z, 'pub, 'priv) Libs \<Rightarrow> ('s, 'priv) MonServ \<Rightarrow> (('z Conn, 's) Handler \<Rightarrow> ('z Conn, 's) Handler) list" where
  "umw lib s =
     [CreateLogger, CreateUncompressReq (lib_gz lib)] @
     (if srv_key s \<noteq> [] then [CreateSumChecker (lib_hmac lib) (srv_key s), CreateSigner (lib_hmac lib) (srv_key s)] else []) @
     (case srv_cryptoKey s of None \<Rightarrow> [] | Some k \<Rightarrow> [CreateMsgDecrypter (lib_crypto lib) k]) @
     [CreateCompress (lib_gz lib)]"

text \<open>
  The routes: method, pattern, handler behind its group's middlewares. \<open>tmpl\<close> is the
  parsed template of the root page. The profiler's routes below \<open>/debug/\<close> are left out.
\<close>

definition MountHandlers :: "('z, 's) Chi \<Rightarrow> ('z, 'pub, 'priv) Libs
    \<Rightarrow> (float64 gomap \<Rightarrow> int64 gomap \<Rightarrow> bytes list \<times> go_error option) option
    \<Rightarrow> ('s, 'priv) MonServ \<Rightarrow> ((string \<times> string) \<times> ('z Conn, 's) Handler) list" where
  "MountHandlers chi lib tmpl s =
     (let db = srv_db s; main_group = chi_Use chi (mw lib); update_group = chi_Use chi (umw lib s)
      in [((''GET'', ''/''), main_group (CreateRootHandler tmpl db)),
          ((''POST'', ''/value/''), main_group (ValueRootHandler db)),
          ((''GET'', ''/value/{type}/{name}/''), main_group (ValueHandler db)),
          ((''GET'', ''/ping/''), main_group (PingHandler db)),
          ((''POST'', ''/update/''), update_group (UpdateRootHandler db)),
          ((''POST'', ''/update/{type}/{name}/{value}/''), update_group (UpdateHandler db)),
          ((''POST'', ''/updates/''), update_group (UpdateBatchHandler db))])"

text \<open>One request on one connection.\<close>

definition ServeHTTP :: "('z, 's) Chi \<Rightarrow> ('z, 'pub, 'priv) Libs
    \<Rightarrow> (float64 gomap \<Rightarrow> int64 gomap \<Rightarrow> bytes list \<times> go_error option) option
    \<Rightarrow> ('s, 'priv) MonServ \<Rightarrow> string \<Rightarrow> Request \<Rightarrow> 's \<Rightarrow> ('z Conn \<times> 's) outcome" where
  "ServeHTTP chi lib tmpl srv path req s =
     (let routes = MountHandlers chi lib tmpl srv; w = new_conn (lib_gz lib)
      in case chi_Find chi (map fst routes) (Method req) path of
           Some (i, params) \<Rightarrow>
             if i < length routes then snd (routes ! i) conn_net (req\<lparr>URLParams := params\<rparr>) w s
             else chi_NotFound chi conn_net req w s
         | None \<Rightarrow> chi_NotFound chi conn_net req w s)"

text \<open>What chi documents: middlewares run in the order they were given; a route it finds is one that was mounted.\<close>

definition chi_laws :: "('z, 's) Chi \<Rightarrow> bool" where
  "chi_laws chi \<longleftrightarrow>
     (\<forall>ms h. chi_Use chi ms h = foldr (\<lambda>m h. m h) ms h) \<and>
     (\<forall>rs meth path i params. chi_Find chi rs meth path = Some (i, params) \<longrightarrow> i < length rs \<and> fst (rs ! i) = meth)"

end
