(* ===== verification/Go_Group.thy ===== *)
theory Go_Group
  imports Go_Strings
begin

text \<open>
  What the two programs use of \<open>context\<close>, \<open>golang.org/x/sync/errgroup\<close> and of the
  server's \<open>Shutdown\<close> at their end.
\<close>

section \<open>Contexts\<close>

text \<open>A context: its error once it is done, and the seconds left until its deadline, if it has one.\<close>

record Ctx =
  ctx_Err :: "go_error option"
  ctx_left :: "nat option"

definition Background :: Ctx where
  "Background = \<lparr>ctx_Err = None, ctx_left = None\<rparr>"

text \<open>\<open>cancel\<close>; a context that is done stays as it is.\<close>

definition cancel :: "Ctx \<Rightarrow> Ctx" where
  "cancel c = (if ctx_Err c = None then c\<lparr>ctx_Err := Some Canceled\<rparr> else c)"

text \<open>A child is done when its parent is, and at the earlier of the two deadlines.\<close>

definition WithTimeout :: "Ctx \<Rightarrow> nat \<Rightarrow> Ctx" where
  "WithTimeout parent t =
     parent\<lparr>ctx_left := Some (case ctx_left parent of None \<Rightarrow> t | Some u \<Rightarrow> min t u)\<rparr>"

section \<open>Groups\<close>

text \<open>
  The results of the goroutines in the order they return: the first error cancels the group's
  context, and \<open>Wait\<close> returns it when all have returned.
\<close>

definition group_ctx :: "Ctx \<Rightarrow> go_error option list \<Rightarrow> Ctx" where
  "group_ctx ctx rs = (if \<exists>r \<in> set rs. r \<noteq> None then cancel ctx else ctx)"

fun group_Wait :: "go_error option list \<Rightarrow> go_error option" where
  "group_Wait [] = None"
| "group_Wait (Some e # rs) = Some e"
| "group_Wait (None # rs) = group_Wait rs"

lemma group_Wait_None: "group_Wait rs = None \<longleftrightarrow> set rs \<subseteq> {None}"
  by (induction rs rule: group_Wait.induct) auto

lemma group_Wait_mem: "group_Wait rs = Some e \<Longrightarrow> Some e \<in> set rs"
  by (induction rs rule: group_Wait.induct) auto

section \<open>Shutdown of a server\<close>

text \<open>
  \<open>http.Server.Shutdown\<close> closes the listeners, then waits until no request is under way or
  the context is done. \<open>busy\<close> holds the requests under way with the seconds each still
  takes. The result has those that ended before it returned, in the order they ended, and
  those that are left.
\<close>

definition Shutdown :: "Ctx \<Rightarrow> (nat \<times> 'r) list \<Rightarrow> go_error option \<times> 'r list \<times> (nat \<times> 'r) list" where
  "Shutdown ctx busy =
     (if busy = [] then (None, [], [])
      else case ctx_Err ctx of
             Some e \<Rightarrow> (Some e, [], busy)
           | None \<Rightarrow>
               (case ctx_left ctx of
                  None \<Rightarrow> (None, map snd (sort_key fst busy), [])
                | Some t \<Rightarrow>
                    (if \<forall>b \<in> set busy. fst b < t then None else Some DeadlineExceeded,
                     map snd (sort_key fst (filter (\<lambda>b. fst b < t) busy)),
                     map (\<lambda>b. (fst b - t, snd b)) (filter (\<lambda>b. t \<le> fst b) busy))))"

end
