(* ===== verification/Server_Main.thy ===== *)
theory Server_Main
  imports Config Ciphers Repo Monserv Go_Group
begin

text \<open>
  \<open>main\<close> of \<open>cmd/server/main.go\<close>: what the server is built from, the requests it
  answers one after the other, and its shutdown. \<open>pgInit\<close> opens the database,
  \<open>readKey\<close> is \<open>ReadPrivateKey\<close> on the file system. The listener's network, what is
  logged and the build information are left out.
\<close>

section \<open>The logger\<close>

text \<open>
  Of zap: the encoding, where it goes and the least level. \<open>openFile\<close> is
  \<open>os.OpenFile\<close> for appending, creating the file when it is missing.
\<close>

datatype log_encoder = JSONEncoder | ConsoleEncoder
datatype 'f log_sink = LogFile 'f | Stdout
datatype log_level = DebugLevel | InfoLevel | WarnLevel | ErrorLevel

text \<open>zap's levels are ordered; a core writes the entries from its least level on.\<close>

primrec log_rank :: "log_level \<Rightarrow> nat" where
  "log_rank DebugLevel = 0"
| "log_rank InfoLevel = 1"
| "log_rank WarnLevel = 2"
| "log_rank ErrorLevel = 3"

lemma log_rank_inj: "log_rank a = log_rank b \<Longrightarrow> a = b"
  by (cases a; cases b) simp_all

instantiation log_level :: linorder
begin

definition less_eq_log_level :: "log_level \<Rightarrow> log_level \<Rightarrow> bool" where
  "less_eq_log_level a b \<longleftrightarrow> log_rank a \<le> log_rank b"

definition less_log_level :: "log_level \<Rightarrow> log_level \<Rightarrow> bool" where
  "less_log_level a b \<longleftrightarrow> log_rank a < log_rank b"

instance
  by standard (auto simp: less_eq_log_level_def less_log_level_def dest: log_rank_inj)

end

record 'f Logger =
  log_enc :: log_encoder
  log_out :: "'f log_sink"
  log_min :: log_level

definition logPath :: string where
  "logPath = ''server.log''"

definition prodMode :: string where
  "prodMode = ''prod''"

definition initLogger :: "(string \<Rightarrow> go_error + 'f) \<Rightarrow> string \<Rightarrow> 'f Logger outcome" where
  "initLogger openFile mode =
     (if mode = prodMode then
        (case openFile logPath of
           Inl err \<Rightarrow> Panic ''open server.log''
         | Inr f \<Rightarrow> Ret \<lparr>log_enc = JSONEncoder, log_out = LogFile f, log_min = InfoLevel\<rparr>)
      else Ret \<lparr>log_enc = ConsoleEncoder, log_out = Stdout, log_min = InfoLevel\<rparr>)"

definition log_enabled :: "'f Logger \<Rightarrow> log_level \<Rightarrow> bool" where
  "log_enabled l level \<longleftrightarrow> log_min l \<le> level"

text \<open>In both modes everything but debug messages is written.\<close>

lemma initLogger_levels: "initLogger openFile mode = Ret l \<Longrightarrow> log_enabled l level \<longleftrightarrow> level \<noteq> DebugLevel"
  by (cases level) (auto simp: initLogger_def log_enabled_def less_eq_log_level_def split: if_splits sum.splits)

section \<open>Start\<close>

definition server_backup :: "server_flags \<Rightarrow> Backup" where
  "server_backup c =
     \<lparr>b_mu = False, b_Path = sf_Path c, b_Interval = sf_StoreInterval c, b_RestoreFlag = sf_Restore c\<rparr>"

text \<open>The result of \<open>Restore\<close> is not looked at; a key that cannot be read is fatal.\<close>

definition server_start :: "'p PgSQL \<Rightarrow> (string \<Rightarrow> go_error + 'p) \<Rightarrow> (string \<Rightarrow> (go_error + 'priv) outcome) \<Rightarrow> server_flags \<Rightarrow> Disk
    \<Rightarrow> (('p + MemorySt, 'priv) MonServ \<times> Disk \<times> 'p Current) outcome" where
  "server_start pg pgInit readKey c d =
     bind_outcome (Restore pg d (Repo_Init pgInit (sf_DBConnStr c) (server_backup c))) (\<lambda>(_, d', cur).
     bind_outcome
       (if sf_PrivateKeyPath c \<noteq> []
        then bind_outcome (readKey (sf_PrivateKeyPath c)) (\<lambda>r.
               case r of Inl err \<Rightarrow> Panic ''logger.Fatalf'' | Inr k \<Rightarrow> Ret (Some k))
        else Ret None)
       (\<lambda>cryptoKey. Ret (NewInstance (repo_db pg) (sf_Key c) cryptoKey, d', cur)))"

section \<open>Requests\<close>

text \<open>
  The statuses of the responses and the store after them. \<open>net/http\<close> recovers from a
  panic of a handler and aborts that connection, which gets no response; a handler panics only
  before it changes the store (a record without its value, a body too short to decrypt).
\<close>

definition recovered :: "'s \<Rightarrow> ('z Conn \<times> 's) outcome \<Rightarrow> (nat option \<times> 's) outcome" where
  "recovered s r =
     (case r of
        Ret (w, s') \<Rightarrow> Ret (conn_code w, s')
      | Panic p \<Rightarrow> Ret (None, s)
      | Blocked \<Rightarrow> Blocked)"

fun serve_all :: "('z, 's) Chi \<Rightarrow> ('z, 'pub, 'priv) Libs
    \<Rightarrow> (float64 gomap \<Rightarrow> int64 gomap \<Rightarrow> bytes list \<times> go_error option) option
    \<Rightarrow> ('s, 'priv) MonServ \<Rightarrow> (string \<times> Request) list \<Rightarrow> 's \<Rightarrow> (nat option list \<times> 's) outcome" where
  "serve_all chi lib tmpl srv [] s = Ret ([], s)"
| "serve_all chi lib tmpl srv ((path, req) # reqs) s =
     bind_outcome (recovered s (ServeHTTP chi lib tmpl srv path req s)) (\<lambda>(code, s').
       bind_outcome (serve_all chi lib tmpl srv reqs s') (\<lambda>(codes, s'').
         Ret (code # codes, s'')))"

section \<open>Shutdown\<close>

text \<open>The context of \<open>main\<close> once a signal has come.\<close>

definition interrupted :: Ctx where
  "interrupted = cancel Background"

text \<open>
  The third goroutine of the group: the timeout starts from the context of \<open>main\<close>, which
  the signal has cancelled. The error of the timeout's own goroutine goes nowhere.
\<close>

definition shutdownTimeout :: nat where
  "shutdownTimeout = 30"

definition shutdown_requests :: "Ctx \<Rightarrow> (nat \<times> 'r) list \<Rightarrow> go_error option \<times> 'r list \<times> (nat \<times> 'r) list" where
  "shutdown_requests ctx busy = Shutdown (WithTimeout ctx shutdownTimeout) busy"

text \<open>
  \<open>g.Wait()\<close>: \<open>ListenAndServe\<close> returns \<open>ErrServerClosed\<close> as soon as
  \<open>Shutdown\<close> is called, or the error \<open>lis\<close> it ended with before. The order in which
  the three return is \<open>order\<close>.
\<close>

definition exit_reason :: "go_error option \<Rightarrow> go_error option \<Rightarrow> Ctx \<Rightarrow> (nat \<times> 'r) list \<Rightarrow> nat list \<Rightarrow> go_error option" where
  "exit_reason lis bkpErr ctx busy order =
     (let listenErr = (case lis of Some e \<Rightarrow> e | None \<Rightarrow> ErrMsg ''http: Server closed'');
          results = [Some listenErr, bkpErr, fst (shutdown_requests ctx busy)]
      in group_Wait (map (\<lambda>i. results ! i) order))"

text \<open>
  At the end of the context the backup is written and the store is closed; the two run
  concurrently, but a store in memory has nothing to close and one in PostgreSQL no backup.
\<close>

definition server_stop :: "'p PgSQL \<Rightarrow> Disk \<Rightarrow> 'p Current \<Rightarrow> (go_error option \<times> Disk \<times> 'p Current) outcome" where
  "server_stop pg d cur =
     bind_outcome (ScheduleBackup pg [CtxDone] d cur) (\<lambda>(err, d', cur').
       bind_outcome (Close (repo_db pg) (cur_repo cur')) (\<lambda>s. Ret (err, d', cur'\<lparr>cur_repo := s\<rparr>)))"

definition server_run :: "('z, 'p + MemorySt) Chi \<Rightarrow> ('z, 'pub, 'priv) Libs
    \<Rightarrow> (float64 gomap \<Rightarrow> int64 gomap \<Rightarrow> bytes list \<times> go_error option) option
    \<Rightarrow> 'p PgSQL \<Rightarrow> (string \<Rightarrow> go_error + 'p) \<Rightarrow> (string \<Rightarrow> (go_error + 'priv) outcome)
    \<Rightarrow> server_flags \<Rightarrow> (string \<times> Request) list \<Rightarrow> Disk \<Rightarrow> (nat option list \<times> go_error option \<times> Disk \<times> 'p Current) outcome" where
  "server_run chi lib tmpl pg pgInit readKey c reqs d =
     bind_outcome (server_start pg pgInit readKey c d) (\<lambda>(srv, d1, cur).
     bind_outcome (serve_all chi lib tmpl srv reqs (cur_repo cur)) (\<lambda>(codes, s).
     bind_outcome (server_stop pg d1 (cur\<lparr>cur_repo := s\<rparr>)) (\<lambda>(err, d2, cur').
       Ret (codes, err, d2, cur'))))"

text \<open>
  The end of a server that has requests under way when the signal comes. \<open>early\<close> are
  answered before the backup reads the store, \<open>mid\<close> between that and the end of
  \<open>main\<close>; \<open>rest\<close> are still under way, each with the seconds it takes, when all
  that \<open>main\<close> waits for is \<open>Shutdown\<close>. What \<open>Shutdown\<close> leaves gets no
  response: the process ends. The result has the responses of \<open>early\<close>, those of the
  others, the errors of the backup and of \<open>Shutdown\<close>, and what is left behind.
\<close>

definition server_shutdown :: "('z, 'p + MemorySt) Chi \<Rightarrow> ('z, 'pub, 'priv) Libs
    \<Rightarrow> (float64 gomap \<Rightarrow> int64 gomap \<Rightarrow> bytes list \<times> go_error option) option
    \<Rightarrow> 'p PgSQL \<Rightarrow> ('p + MemorySt, 'priv) MonServ \<Rightarrow> Ctx
    \<Rightarrow> (string \<times> Request) list \<Rightarrow> (string \<times> Request) list \<Rightarrow> (nat \<times> string \<times> Request) list \<Rightarrow> Disk \<Rightarrow> 'p Current
    \<Rightarrow> (nat option list \<times> nat option list \<times> go_error option \<times> go_error option \<times> Disk \<times> 'p Current) outcome" where
  "server_shutdown chi lib tmpl pg srv ctx early mid rest d cur =
     bind_outcome (serve_all chi lib tmpl srv early (cur_repo cur)) (\<lambda>(codes, s).
     bind_outcome (server_stop pg d (cur\<lparr>cur_repo := s\<rparr>)) (\<lambda>(bkpErr, d', cur').
     case shutdown_requests ctx rest of (err, ended, left) \<Rightarrow>
       bind_outcome (serve_all chi lib tmpl srv (mid @ ended) (cur_repo cur')) (\<lambda>(codes', s').
         Ret (codes, codes' @ replicate (length left) None, bkpErr, err, d', cur'\<lparr>cur_repo := s'\<rparr>))))"

text \<open>A whole run that ends so.\<close>

definition server_interrupted :: "('z, 'p + MemorySt) Chi \<Rightarrow> ('z, 'pub, 'priv) Libs
    \<Rightarrow> (float64 gomap \<Rightarrow> int64 gomap \<Rightarrow> bytes list \<times> go_error option) option
    \<Rightarrow> 'p PgSQL \<Rightarrow> (string \<Rightarrow> go_error + 'p) \<Rightarrow> (string \<Rightarrow> (go_error + 'priv) outcome)
    \<Rightarrow> server_flags \<Rightarrow> (string \<times> Request) list
    \<Rightarrow> (string \<times> Request) list \<Rightarrow> (string \<times> Request) list \<Rightarrow> (nat \<times> string \<times> Request) list \<Rightarrow> Disk
    \<Rightarrow> (nat option list \<times> nat option list \<times> go_error option \<times> go_error option \<times> Disk \<times> 'p Current) outcome" where
  "server_interrupted chi lib tmpl pg pgInit readKey c reqs early mid rest d =
     bind_outcome (server_start pg pgInit readKey c d) (\<lambda>(srv, d1, cur).
     bind_outcome (serve_all chi lib tmpl srv reqs (cur_repo cur)) (\<lambda>(codes, s).
     bind_outcome (server_shutdown chi lib tmpl pg srv interrupted early mid rest d1 (cur\<lparr>cur_repo := s\<rparr>)) (\<lambda>(codes1, res).
       Ret (codes @ codes1, res))))"

section \<open>The program\<close>

text \<open>
  From the command line to the end: an exit status of the flags, or the run. \<open>pg\<close>,
  \<open>pgInit\<close>, \<open>readKey\<close> and \<open>openFile\<close> are the outside world.
\<close>

definition server_main :: "(string \<Rightarrow> go_error + 'f) \<Rightarrow> ('z, 'p + MemorySt) Chi \<Rightarrow> ('z, 'pub, 'priv) Libs
    \<Rightarrow> (float64 gomap \<Rightarrow> int64 gomap \<Rightarrow> bytes list \<times> go_error option) option
    \<Rightarrow> 'p PgSQL \<Rightarrow> (string \<Rightarrow> go_error + 'p) \<Rightarrow> (string \<Rightarrow> (go_error + 'priv) outcome)
    \<Rightarrow> config_file \<Rightarrow> string list \<Rightarrow> env \<Rightarrow> (string \<times> Request) list \<Rightarrow> Disk
    \<Rightarrow> (nat + 'f Logger \<times> nat option list \<times> go_error option \<times> Disk \<times> 'p Current) outcome" where
  "server_main openFile chi lib tmpl pg pgInit readKey stat args env reqs d =
     bind_outcome (server_config stat args env) (\<lambda>r.
       case r of
         Inl code \<Rightarrow> Ret (Inl code)
       | Inr c \<Rightarrow>
           bind_outcome (initLogger openFile (sf_Mode c)) (\<lambda>logger.
           bind_outcome (server_run chi lib tmpl pg pgInit readKey c reqs d) (\<lambda>res.
             Ret (Inr (logger, res)))))"

end
