(* ===== verification/Pgsql_Facts.thy ===== *)
theory Pgsql_Facts
  imports Pgsql Memory
begin

text \<open>
  The PostgreSQL store keeps the contract of a store (\<open>metrics_repo\<close>), given what is
  documented of the driver (\<open>pgx_laws\<close>) and of the retrying executor (\<open>run_laws\<close>):
  an operation may fail, but it is never applied in part or twice, although it is retried.
\<close>

section \<open>What the driver and the executor promise\<close>

type_synonym tables = "float64 gomap \<times> int64 gomap"

text \<open>\<open>BIGINT\<close> addition raises an error when the sum is out of range.\<close>

definition bigint_add :: "int64 option \<Rightarrow> int64 \<Rightarrow> int64 option" where
  "bigint_add old v =
     (case old of
        None \<Rightarrow> Some v
      | Some x \<Rightarrow> if sint (x + v) = sint x + sint v then Some (x + v) else None)"

text \<open>
  What PostgreSQL does with a statement it can run, by its text: an upsert sets the row of its
  name to \<open>EXCLUDED.value\<close>, its argument, or to the sum with the row's old value; a table
  that exists is not created again.
\<close>

definition upsert_text :: "string \<Rightarrow> string \<Rightarrow> string" where
  "upsert_text table expr =
     ''INSERT INTO '' @ table @ '' (name, value) VALUES (@name, @value) ON CONFLICT(name) DO UPDATE SET value = '' @ expr @ '';''"

definition apply_sql :: "sql \<Rightarrow> tables \<Rightarrow> tables option" where
  "apply_sql qa t =
     (case (qa, t) of ((q, args), (g, c)) \<Rightarrow>
        (case (map_of args ''name'', map_of args ''value'') of
           (Some (Text k), Some (DoublePrecision v)) \<Rightarrow>
             if q = upsert_text ''gauge_m_table'' ''EXCLUDED.value'' then Some (fmupd k v g, c) else None
         | (Some (Text k), Some (BigInt v)) \<Rightarrow>
             if q = upsert_text ''counter_m_table'' ''EXCLUDED.value'' then Some (g, fmupd k v c)
             else if q = upsert_text ''counter_m_table'' ''counter_m_table.value + EXCLUDED.value'' then
               (case bigint_add (fmlookup c k) v of None \<Rightarrow> None | Some x \<Rightarrow> Some (g, fmupd k x c))
             else None
         | _ \<Rightarrow> if q \<in> {createGaugeQry, createCounterQry} then Some (g, c) else None))"

lemma upsert_texts:
  "upsertGaugeQry = upsert_text ''gauge_m_table'' ''EXCLUDED.value''"
  "upsertCounterQry = upsert_text ''counter_m_table'' ''counter_m_table.value + EXCLUDED.value''"
  "upsertCounterQry \<noteq> upsert_text ''counter_m_table'' ''EXCLUDED.value''"
  by (simp_all add: upsertGaugeQry_def upsertCounterQry_def upsert_text_def)

lemma apply_sql_simps [simp]:
  "apply_sql (upsert_gauge k v) (g, c) = Some (fmupd k v g, c)"
  "apply_sql (upsert_counter k i) (g, c) =
     (case bigint_add (fmlookup c k) i of None \<Rightarrow> None | Some x \<Rightarrow> Some (g, fmupd k x c))"
  "apply_sql (createGaugeQry, []) t = Some t" "apply_sql (createCounterQry, []) t = Some t"
  using upsert_texts
  by (simp_all add: apply_sql_def upsert_gauge_def upsert_counter_def split: prod.splits)

fun apply_all :: "sql list \<Rightarrow> tables \<Rightarrow> tables option" where
  "apply_all [] t = Some t"
| "apply_all (q # qs) t = (case apply_sql q t of None \<Rightarrow> None | Some t' \<Rightarrow> apply_all qs t')"

text \<open>No transaction, one with its view of the tables, one that can only be rolled back.\<close>

datatype txst = NoTx | Running tables | Aborted

text \<open>
  A statement that fails aborts the transaction. A failed commit was not made when the
  server said so (\<open>PgError\<close>); after another error it may or may not have been made.
\<close>

definition exec_laws :: "'p Pgx \<Rightarrow> ('p \<Rightarrow> tables) \<Rightarrow> ('p \<Rightarrow> txst) \<Rightarrow> bool" where
  "exec_laws px tables cur \<longleftrightarrow>
     (\<forall>rw p e p'. cur p = NoTx \<longrightarrow> BeginTx px rw p = (e, p') \<longrightarrow>
        tables p' = tables p \<and> cur p' = (if e = None then Running (tables p) else NoTx) \<and>
        (\<forall>e'. e = Some e' \<longrightarrow> \<not> errors_Is e' ErrNoRows)) \<and>
     (\<forall>q p e p'. cur p \<noteq> NoTx \<longrightarrow> tx_Exec px q p = (e, p') \<longrightarrow> tables p' = tables p \<and>
        (if e = None then \<exists>t t'. cur p = Running t \<and> apply_sql q t = Some t' \<and> cur p' = Running t' else cur p' = Aborted)) \<and>
     (\<forall>p e p'. cur p \<noteq> NoTx \<longrightarrow> tx_Commit px p = (e, p') \<longrightarrow>
        (case e of
           None \<Rightarrow> cur p = Running (tables p')
         | Some e' \<Rightarrow> (tables p' = tables p \<or> errors_As_PgError e' = None \<and> cur p = Running (tables p')) \<and>
                     \<not> errors_Is e' ErrNoRows)) \<and>
     (\<forall>p. tables (tx_Rollback px p) = tables p \<and> cur (tx_Rollback px p) = NoTx) \<and>
     (\<forall>p e p'. cur p = NoTx \<longrightarrow> pool_Ping px p = (e, p') \<longrightarrow> tables p' = tables p \<and> cur p' = NoTx)"

text \<open>
  A row is what the transaction sees; the rows of a table come each once, or end early in a
  transaction that is then aborted.
\<close>

definition row_law :: "('p \<Rightarrow> tables) \<Rightarrow> ('p \<Rightarrow> txst) \<Rightarrow> (tables \<Rightarrow> 'v gomap) \<Rightarrow> (string \<Rightarrow> 'p \<Rightarrow> (go_error + 'v) \<times> 'p) \<Rightarrow> bool" where
  "row_law tables cur sel row \<longleftrightarrow>
     (\<forall>n p r p'. cur p \<noteq> NoTx \<longrightarrow> row n p = (r, p') \<longrightarrow> tables p' = tables p \<and>
        (case r of
           Inr x \<Rightarrow> \<exists>t. cur p = Running t \<and> cur p' = Running t \<and> fmlookup (sel t) n = Some x
         | Inl e \<Rightarrow> cur p' \<in> {cur p, Aborted} \<and> (errors_Is e ErrNoRows \<longrightarrow> (\<exists>t. cur p = Running t \<and> fmlookup (sel t) n = None))))"

definition rows_law :: "('p \<Rightarrow> tables) \<Rightarrow> ('p \<Rightarrow> txst) \<Rightarrow> (tables \<Rightarrow> 'v gomap) \<Rightarrow> ('p \<Rightarrow> (go_error + (go_error + string \<times> 'v) list) \<times> 'p) \<Rightarrow> bool" where
  "rows_law tables cur sel rows \<longleftrightarrow>
     (\<forall>p r p'. cur p \<noteq> NoTx \<longrightarrow> rows p = (r, p') \<longrightarrow> tables p' = tables p \<and>
        (case r of
           Inl e \<Rightarrow> cur p' = Aborted
         | Inr rs \<Rightarrow> \<exists>t. cur p = Running t \<and> (\<forall>k v. Inr (k, v) \<in> set rs \<longrightarrow> fmlookup (sel t) k = Some v) \<and>
             (cur p' = Aborted \<or> cur p' = Running t \<and> (\<exists>kvs. rs = map Inr kvs \<and> enumerates kvs (sel t)))))"

text \<open>The queries of a table, by their texts.\<close>

definition select_value :: "string \<Rightarrow> string \<Rightarrow> sql" where
  "select_value table name = (''SELECT value FROM '' @ table @ '' WHERE name = @name'', [(''name'', Text name)])"

definition select_all :: "string \<Rightarrow> sql" where
  "select_all table = (''SELECT name, value FROM '' @ table, [])"

lemma select_texts:
  "select_value ''gauge_m_table'' n = (''SELECT value FROM gauge_m_table WHERE name = @name'', [(''name'', Text n)])"
  "select_value ''counter_m_table'' n = (''SELECT value FROM counter_m_table WHERE name = @name'', [(''name'', Text n)])"
  "select_all ''gauge_m_table'' = (''SELECT name, value FROM gauge_m_table'', [])"
  "select_all ''counter_m_table'' = (''SELECT name, value FROM counter_m_table'', [])"
  by (simp_all add: select_value_def select_all_def)

abbreviation gauge_row :: "'p Pgx \<Rightarrow> string \<Rightarrow> 'p \<Rightarrow> (go_error + float64) \<times> 'p" where
  "gauge_row px n \<equiv> tx_GaugeRow px (select_value ''gauge_m_table'' n)"

abbreviation counter_row :: "'p Pgx \<Rightarrow> string \<Rightarrow> 'p \<Rightarrow> (go_error + int64) \<times> 'p" where
  "counter_row px n \<equiv> tx_CounterRow px (select_value ''counter_m_table'' n)"

abbreviation gauge_rows :: "'p Pgx \<Rightarrow> 'p \<Rightarrow> (go_error + (go_error + string \<times> float64) list) \<times> 'p" where
  "gauge_rows px \<equiv> tx_GaugeRows px (select_all ''gauge_m_table'')"

abbreviation counter_rows :: "'p Pgx \<Rightarrow> 'p \<Rightarrow> (go_error + (go_error + string \<times> int64) list) \<times> 'p" where
  "counter_rows px \<equiv> tx_CounterRows px (select_all ''counter_m_table'')"

definition pgx_laws :: "'p Pgx \<Rightarrow> ('p \<Rightarrow> tables) \<Rightarrow> ('p \<Rightarrow> txst) \<Rightarrow> bool" where
  "pgx_laws px tables cur \<longleftrightarrow> exec_laws px tables cur \<and>
     row_law tables cur fst (\<lambda>n. gauge_row px n) \<and> row_law tables cur snd (\<lambda>n. counter_row px n) \<and>
     rows_law tables cur fst (gauge_rows px) \<and> rows_law tables cur snd (counter_rows px)"

text \<open>\<open>attempts h f k\<close>: one attempt and \<open>k\<close> retries, each after an error \<open>h\<close> handles.\<close>

inductive attempts :: "(go_error option \<Rightarrow> bool) \<Rightarrow> 'p body \<Rightarrow> nat \<Rightarrow> Vars \<times> 'p \<Rightarrow> go_error option \<Rightarrow> Vars \<times> 'p \<Rightarrow> bool"
  for h f where
  last_attempt: "f x = (e, y) \<Longrightarrow> attempts h f 0 x e y"
| retry: "f x = (e, y) \<Longrightarrow> h e \<Longrightarrow> attempts h f k y e' z \<Longrightarrow> attempts h f (Suc k) x e' z"

text \<open>
  The executor ends with the last attempt it made. It may have given up before the retries were
  used up, and report an error of its own whatever the attempt returned, when the context of the
  request has ended; it may then also have made no attempt. But it reports success only of an
  attempt that succeeded, and makes up no missing row.
\<close>

definition run_laws :: "((go_error option \<Rightarrow> bool) \<Rightarrow> nat \<Rightarrow> 'p body \<Rightarrow> 'p body) \<Rightarrow> bool" where
  "run_laws run \<longleftrightarrow>
     (\<forall>h n f x e y. run h n f x = (e, y) \<longrightarrow>
        y = x \<and> (\<exists>e1. e = Some e1 \<and> \<not> errors_Is e1 ErrNoRows) \<or>
        (\<exists>k e0. k \<le> n \<and> attempts h f k x e0 y \<and> (e = None \<longrightarrow> e0 = None) \<and>
           (\<forall>e1. e = Some e1 \<longrightarrow> errors_Is e1 ErrNoRows \<longrightarrow> (\<exists>e2. e0 = Some e2 \<and> errors_Is e2 ErrNoRows))))"

definition pg_laws :: "'p PgSQL \<Rightarrow> ('p \<Rightarrow> tables) \<Rightarrow> ('p \<Rightarrow> txst) \<Rightarrow> bool" where
  "pg_laws pg tables cur \<longleftrightarrow> pgx_laws (pg_pool pg) tables cur \<and> run_laws (pg_Run pg) \<and>
     (\<forall>m. enumerates (pg_range_g pg m) m) \<and> (\<forall>m. enumerates (pg_range_c pg m) m)"

section \<open>One attempt\<close>

lemma exec_body_all: "exec_body px q = exec_all px [q]"
  by (intro ext) (simp add: exec_body_def split: prod.splits option.splits)

lemma exec_all_law:
  assumes "exec_laws px tables cur"
  shows "cur p \<noteq> NoTx \<Longrightarrow> exec_all px qs (v, p) = (e, v', p') \<Longrightarrow>
    tables p' = tables p \<and> cur p' \<noteq> NoTx \<and>
    (e = None \<longrightarrow> (\<exists>t t'. cur p = Running t \<and> apply_all qs t = Some t' \<and> cur p' = Running t') \<or> qs = [] \<and> cur p' = cur p)"
proof (induction qs arbitrary: p v)
  case (Cons q qs)
  obtain e1 p1 where ex: "tx_Exec px q p = (e1, p1)" by (cases "tx_Exec px q p")
  have law: "tables p1 = tables p"
    "if e1 = None then \<exists>t t'. cur p = Running t \<and> apply_sql q t = Some t' \<and> cur p1 = Running t' else cur p1 = Aborted"
    using assms Cons.prems(1) ex unfolding exec_laws_def by blast+
  show ?case
  proof (cases e1)
    case None
    with law obtain t t1 where t: "cur p = Running t" "apply_sql q t = Some t1" "cur p1 = Running t1" by auto
    then have "cur p1 \<noteq> NoTx" by simp
    moreover have "exec_all px qs (v, p1) = (e, v', p')" using Cons.prems ex None by (simp add: exec_body_def)
    ultimately show ?thesis using Cons.IH [of p1 v] t law(1) by auto
  next
    case (Some err)
    with law Cons.prems ex show ?thesis by (auto simp: exec_body_def)
  qed
qed auto

text \<open>
  A write transaction from rest: all of it on success; on failure nothing, or all of it with an
  error that is not retried.
\<close>

lemma run_tx_write:
  assumes laws: "exec_laws px tables cur" and rest: "cur p = NoTx"
    and run: "run_tx px rw (exec_all px qs) (v, p) = (e, v', p')"
  shows "cur p' = NoTx \<and>
    (case e of
       None \<Rightarrow> apply_all qs (tables p) = Some (tables p')
     | Some e' \<Rightarrow> tables p' = tables p \<or> apply_all qs (tables p) = Some (tables p') \<and> \<not> IsRetryable codes e)"
proof -
  obtain e1 p1 where b: "BeginTx px rw p = (e1, p1)" by (cases "BeginTx px rw p")
  with laws rest have b': "tables p1 = tables p" "cur p1 = (if e1 = None then Running (tables p) else NoTx)"
    unfolding exec_laws_def by blast+
  have roll: "tables (tx_Rollback px x) = tables x" "cur (tx_Rollback px x) = NoTx" for x
    using laws unfolding exec_laws_def by blast+
  show ?thesis
  proof (cases e1)
    case (Some err)
    with b b' run show ?thesis by (auto simp: run_tx_def)
  next
    case None
    obtain e2 v2 p2 where x: "exec_all px qs (v, p1) = (e2, v2, p2)" by (metis surj_pair)
    have "cur p1 \<noteq> NoTx" using None b' by simp
    from exec_all_law [OF laws this x] b' None
    have x': "tables p2 = tables p" "cur p2 \<noteq> NoTx" "e2 = None \<longrightarrow> (\<exists>t'. apply_all qs (tables p) = Some t' \<and> cur p2 = Running t')"
      by auto
    show ?thesis
    proof (cases e2)
      case (Some err)
      with None b x x' roll run show ?thesis by (auto simp: run_tx_def)
    next
      case e2: None
      with x' obtain t' where t': "apply_all qs (tables p) = Some t'" "cur p2 = Running t'" by blast
      obtain e3 p3 where c: "tx_Commit px p2 = (e3, p3)" by (cases "tx_Commit px p2")
      have c': "case e3 of None \<Rightarrow> cur p2 = Running (tables p3)
         | Some err \<Rightarrow> (tables p3 = tables p2 \<or> errors_As_PgError err = None \<and> cur p2 = Running (tables p3)) \<and> \<not> errors_Is err ErrNoRows"
        using laws x'(2) c unfolding exec_laws_def by blast
      show ?thesis
        using None e2 b x c c' x' t' roll run
        by (cases e3) (auto simp: run_tx_def IsRetryable_def)
    qed
  qed
qed

text \<open>A reading transaction from rest: the tables stay, whatever happens.\<close>

definition reads :: "('p \<Rightarrow> tables) \<Rightarrow> ('p \<Rightarrow> txst) \<Rightarrow> 'p body \<Rightarrow> bool" where
  "reads tables cur f \<longleftrightarrow>
     (\<forall>v p e v' p'. cur p \<noteq> NoTx \<longrightarrow> f (v, p) = (e, v', p') \<longrightarrow> tables p' = tables p \<and> cur p' \<in> {cur p, Aborted})"

text \<open>The body ran in a transaction that saw the tables \<open>t\<close>.\<close>

definition ran :: "('p \<Rightarrow> txst) \<Rightarrow> 'p body \<Rightarrow> tables \<Rightarrow> Vars \<Rightarrow> go_error option \<Rightarrow> Vars \<Rightarrow> bool \<Rightarrow> bool" where
  "ran cur f t v e v' alive \<longleftrightarrow>
     (\<exists>p1 p2. cur p1 = Running t \<and> f (v, p1) = (e, v', p2) \<and> (alive \<longrightarrow> cur p2 = Running t))"

lemma run_tx_read:
  assumes laws: "exec_laws px tables cur" and rest: "cur p = NoTx" and f: "reads tables cur f"
    and run: "run_tx px rw f (v, p) = (e, v', p')"
  shows "cur p' = NoTx" "tables p' = tables p"
    "v' = v \<or> (\<exists>e2. ran cur f (tables p) v e2 v' False)"
    "e = None \<Longrightarrow> ran cur f (tables p) v None v' True"
    "e = Some e' \<Longrightarrow> errors_Is e' ErrNoRows \<Longrightarrow> ran cur f (tables p) v e v' False"
proof -
  obtain e1 p1 where b: "BeginTx px rw p = (e1, p1)" by (cases "BeginTx px rw p")
  with laws rest have b': "tables p1 = tables p" "cur p1 = (if e1 = None then Running (tables p) else NoTx)"
     "\<forall>e'. e1 = Some e' \<longrightarrow> \<not> errors_Is e' ErrNoRows"
    unfolding exec_laws_def by blast+
  have roll: "tables (tx_Rollback px x) = tables x" "cur (tx_Rollback px x) = NoTx" for x
    using laws unfolding exec_laws_def by blast+
  have "cur p' = NoTx \<and> tables p' = tables p \<and> (v' = v \<or> (\<exists>e2. ran cur f (tables p) v e2 v' False)) \<and>
    (e = None \<longrightarrow> ran cur f (tables p) v None v' True) \<and>
    (\<forall>e'. e = Some e' \<longrightarrow> errors_Is e' ErrNoRows \<longrightarrow> ran cur f (tables p) v e v' False)"
  proof (cases e1)
    case (Some err)
    with b b' run show ?thesis by (auto simp: run_tx_def)
  next
    case None
    then have c1: "cur p1 = Running (tables p)" using b' by simp
    obtain e2 v2 p2 where x: "f (v, p1) = (e2, v2, p2)" by (metis surj_pair)
    have p2: "tables p2 = tables p" "cur p2 \<in> {Running (tables p), Aborted}"
      using f [unfolded reads_def, rule_format, of p1 v e2 v2 p2] c1 x b'(1) by auto
    have rn: "ran cur f (tables p) v e2 v2 False" using c1 x by (auto simp: ran_def)
    show ?thesis
    proof (cases e2)
      case (Some err)
      with None b x p2 roll run rn show ?thesis by (auto simp: run_tx_def)
    next
      case e2: None
      obtain e3 p3 where c: "tx_Commit px p2 = (e3, p3)" by (cases "tx_Commit px p2")
      have "cur p2 \<noteq> NoTx" using p2 by auto
      then have c': "case e3 of None \<Rightarrow> cur p2 = Running (tables p3)
         | Some err \<Rightarrow> (tables p3 = tables p2 \<or> errors_As_PgError err = None \<and> cur p2 = Running (tables p3)) \<and> \<not> errors_Is err ErrNoRows"
        using laws c unfolding exec_laws_def by blast
      have "e3 = None \<Longrightarrow> ran cur f (tables p) v None v2 True"
        using c' p2 c1 x e2 by (auto simp: ran_def)
      with None e2 b x c c' p2 roll run rn show ?thesis
        by (cases e3) (auto simp: run_tx_def)
    qed
  qed
  then show "cur p' = NoTx" "tables p' = tables p"
    "v' = v \<or> (\<exists>e2. ran cur f (tables p) v e2 v' False)"
    "e = None \<Longrightarrow> ran cur f (tables p) v None v' True"
    "e = Some e' \<Longrightarrow> errors_Is e' ErrNoRows \<Longrightarrow> ran cur f (tables p) v e v' False" by blast+
qed

section \<open>All attempts\<close>

lemma attempts_write:
  assumes "attempts (IsRetryable codes) (run_tx px rw (exec_all px qs)) k vp e vp'"
    and "exec_laws px tables cur" and "cur (snd vp) = NoTx"
  shows "cur (snd vp') = NoTx \<and>
    (case e of
       None \<Rightarrow> apply_all qs (tables (snd vp)) = Some (tables (snd vp'))
     | Some e' \<Rightarrow> tables (snd vp') = tables (snd vp) \<or> apply_all qs (tables (snd vp)) = Some (tables (snd vp')))"
  using assms
proof (induction rule: attempts.induct)
  case (last_attempt x e y)
  with run_tx_write [OF last_attempt.prems, of rw qs "fst x" e "fst y" "snd y" codes]
  show ?case by (auto split: option.splits)
next
  case (retry x e y k e' z)
  with run_tx_write [OF retry.prems, of rw qs "fst x" e "fst y" "snd y" codes]
  have "tables (snd y) = tables (snd x)" "cur (snd y) = NoTx"
    by (auto simp: IsRetryable_def split: option.splits)
  with retry.IH retry.prems(1) show ?case by (simp split: option.splits)
qed

lemma attempts_read:
  assumes "attempts h (run_tx px rw f) k vp e vp'"
    and "exec_laws px tables cur" and "reads tables cur f" and "cur (snd vp) = NoTx" and "P (fst vp)"
    and keep: "\<forall>v e2 v'. P v \<longrightarrow> ran cur f (tables (snd vp)) v e2 v' False \<longrightarrow> P v'"
  shows "cur (snd vp') = NoTx \<and> tables (snd vp') = tables (snd vp) \<and>
    (e = None \<longrightarrow> (\<exists>u. P u \<and> ran cur f (tables (snd vp)) u None (fst vp') True)) \<and>
    (\<forall>e'. e = Some e' \<longrightarrow> errors_Is e' ErrNoRows \<longrightarrow> (\<exists>u. ran cur f (tables (snd vp)) u e (fst vp') False))"
  using assms
proof (induction rule: attempts.induct)
  case (last_attempt x e y)
  have "run_tx px rw f (fst x, snd x) = (e, fst y, snd y)" using last_attempt.hyps by simp
  note r = run_tx_read [OF last_attempt.prems(1,3,2) this]
  show ?case
  proof (intro conjI allI impI r(1,2))
    show "\<exists>u. P u \<and> ran cur f (tables (snd x)) u None (fst y) True" if "e = None"
      using last_attempt.prems(4) r(4) [OF that] by blast
    show "\<exists>u. ran cur f (tables (snd x)) u e (fst y) False" if "e = Some e'" "errors_Is e' ErrNoRows" for e'
      using r(5) [OF that] by blast
  qed
next
  case (retry x e y k e' z)
  have "run_tx px rw f (fst x, snd x) = (e, fst y, snd y)" using retry.hyps(1) by simp
  note r = run_tx_read [OF retry.prems(1,3,2) this]
  have P: "P (fst y)" using r(3) by (elim disjE exE) (simp_all add: retry.prems(4) retry.prems(5) [rule_format, OF retry.prems(4)])
  have keep: "\<forall>v e2 v'. P v \<longrightarrow> ran cur f (tables (snd y)) v e2 v' False \<longrightarrow> P v'"
    unfolding r(2) by (rule retry.prems(5))
  show ?case using retry.IH [OF retry.prems(1,2) r(1) P keep] unfolding r(2) .
qed

section \<open>Operations\<close>

lemma pg_lawsD:
  assumes "pg_laws pg tables cur"
  shows "exec_laws (pg_pool pg) tables cur" "run_laws (pg_Run pg)"
    "enumerates (pg_range_g pg g) g" "enumerates (pg_range_c pg c) c"
    "row_law tables cur fst (\<lambda>n. gauge_row (pg_pool pg) n)" "row_law tables cur snd (\<lambda>n. counter_row (pg_pool pg) n)"
    "rows_law tables cur fst (gauge_rows (pg_pool pg))" "rows_law tables cur snd (counter_rows (pg_pool pg))"
  using assms unfolding pg_laws_def pgx_laws_def by blast+

lemma ExecuteTx_attempts:
  assumes "pg_laws pg tables cur" and "ExecuteTx pg rw f vp = (e, vp')"
  obtains (cancelled) e1 where "vp' = vp" and "e = Some e1" and "\<not> errors_Is e1 ErrNoRows"
    | (tried) k e0 where "k \<le> 3" and "attempts (IsRetryable (pg_codes pg)) (run_tx (pg_pool pg) rw f) k vp e0 vp'"
      and "e = None \<Longrightarrow> e0 = None" and "\<And>e1. e = Some e1 \<Longrightarrow> errors_Is e1 ErrNoRows \<Longrightarrow> \<exists>e2. e0 = Some e2 \<and> errors_Is e2 ErrNoRows"
  using pg_lawsD(2) [OF assms(1), unfolded run_laws_def, rule_format, OF assms(2) [unfolded ExecuteTx_def maxRetryes_def]]
proof (elim disjE exE conjE)
  fix e1
  assume "vp' = vp" "e = Some e1" "\<not> errors_Is e1 ErrNoRows"
  then show ?thesis by (rule cancelled)
next
  fix k e0
  assume "k \<le> 3" "attempts (IsRetryable (pg_codes pg)) (run_tx (pg_pool pg) rw f) k vp e0 vp'" "e = None \<longrightarrow> e0 = None"
    and n: "\<forall>e1. e = Some e1 \<longrightarrow> errors_Is e1 ErrNoRows \<longrightarrow> (\<exists>e2. e0 = Some e2 \<and> errors_Is e2 ErrNoRows)"
  then show ?thesis by (intro tried [of k e0]) simp_all
qed

lemma run_op_write:
  assumes "pg_laws pg tables cur" and "cur p = NoTx" and "run_op pg rw (exec_all (pg_pool pg) qs) p = (e, p')"
  shows "cur p' = NoTx" "e = None \<Longrightarrow> apply_all qs (tables p) = Some (tables p')"
    "tables p' = tables p \<or> apply_all qs (tables p) = Some (tables p')"
proof -
  obtain v' where x: "ExecuteTx pg rw (exec_all (pg_pool pg) qs) (vars0, p) = (e, v', p')"
    using assms(3) by (auto simp: run_op_def split: prod.splits)
  have "cur p' = NoTx \<and> (e = None \<longrightarrow> apply_all qs (tables p) = Some (tables p')) \<and>
    (tables p' = tables p \<or> apply_all qs (tables p) = Some (tables p'))"
    using assms(1) x
  proof (cases rule: ExecuteTx_attempts)
    case (tried k e0)
    have "cur (snd (vars0, p)) = NoTx" using assms(2) by simp
    from attempts_write [OF tried(2) pg_lawsD(1) [OF assms(1)] this] tried(3)
    show ?thesis by (auto split: option.splits)
  qed (use assms(2) in simp)
  then show "cur p' = NoTx" "e = None \<Longrightarrow> apply_all qs (tables p) = Some (tables p')"
    "tables p' = tables p \<or> apply_all qs (tables p) = Some (tables p')" by blast+
qed

lemma apply_gauges: "apply_all (map (\<lambda>(k, v). upsert_gauge k v) kvs) (g, c) = Some (foldl (upd_entry (\<lambda>_ v. v)) g kvs, c)"
  by (induction kvs arbitrary: g) (auto simp: upd_entry_def)

lemma apply_counters:
  "apply_all (map (\<lambda>(k, v). upsert_counter k v) kvs) (g, c) = Some t \<Longrightarrow>
   t = (g, foldl (\<lambda>m kv. add_counter (fst kv) (snd kv) m) c kvs)"
proof (induction kvs arbitrary: c)
  case (Cons kv kvs)
  obtain k v where "kv = (k, v)" by (cases kv)
  with Cons show ?case
    by (auto simp: bigint_add_def add_counter_def plus_opt_def split: option.splits if_splits)
qed simp

lemma foldl_enum_fmadd: "enumerates kvs d \<Longrightarrow> foldl (upd_entry (\<lambda>_ v. v)) g kvs = fmadd g d"
  by (intro fmap_ext) (simp add: foldl_upd_entry_enum split: option.splits)

text \<open>The loop over the rows.\<close>

lemma scan_rows_sub:
  "scan_rows rs m = (e, m') \<Longrightarrow> (\<forall>k v. Inr (k, v) \<in> set rs \<longrightarrow> fmlookup t k = Some v) \<Longrightarrow>
   (\<forall>k v. fmlookup m k = Some v \<longrightarrow> fmlookup t k = Some v) \<Longrightarrow>
   fmlookup m' k = Some v \<Longrightarrow> fmlookup t k = Some v"
  by (induction rs m rule: scan_rows.induct) (auto split: if_splits)

lemma scan_rows_all: "scan_rows (map Inr kvs) m = (None, foldl (upd_entry (\<lambda>_ v. v)) m kvs)"
  by (induction kvs arbitrary: m) (auto simp: upd_entry_def)

lemma scan_rows_whole:
  assumes "scan_rows rs m = (None, m')" and "rs = map Inr kvs" and "enumerates kvs t"
    and "\<forall>k v. fmlookup m k = Some v \<longrightarrow> fmlookup t k = Some v"
  shows "m' = t"
proof -
  have "m' = fmadd m t" using assms(1-3) by (simp add: scan_rows_all foldl_enum_fmadd)
  moreover have "fmlookup m k = None" if "fmlookup t k = None" for k
    using assms(4) that by (cases "fmlookup m k") auto
  ultimately show ?thesis by (intro fmap_ext) (simp split: option.splits)
qed

text \<open>The two kinds of reading bodies.\<close>

definition row_body :: "(string \<Rightarrow> 'p \<Rightarrow> (go_error + 'v) \<times> 'p) \<Rightarrow> ('v \<Rightarrow> Vars \<Rightarrow> Vars) \<Rightarrow> string \<Rightarrow> 'p body" where
  "row_body row put n = (\<lambda>(v, p). case row n p of (Inl e, p') \<Rightarrow> (Some e, v, p') | (Inr x, p') \<Rightarrow> (None, put x v, p'))"

definition rows_body :: "('p \<Rightarrow> (go_error + (go_error + string \<times> 'v) list) \<times> 'p) \<Rightarrow> (Vars \<Rightarrow> 'v gomap)
    \<Rightarrow> ('v gomap \<Rightarrow> Vars \<Rightarrow> Vars) \<Rightarrow> 'p body" where
  "rows_body rows get put = (\<lambda>(v, p). case rows p of
     (Inl e, p') \<Rightarrow> (Some e, v, p')
   | (Inr rs, p') \<Rightarrow> (case scan_rows rs (get v) of (err, m) \<Rightarrow> (err, put m v, p')))"

lemma row_bodyE:
  assumes "row_law tables cur sel row" and "cur p \<noteq> NoTx" and "row_body row put n (v, p) = (e, v', p')"
  shows "tables p' = tables p" "cur p' \<in> {cur p, Aborted}"
    "e = None \<Longrightarrow> \<exists>t x. cur p = Running t \<and> fmlookup (sel t) n = Some x \<and> v' = put x v"
    "e = Some e' \<Longrightarrow> errors_Is e' ErrNoRows \<Longrightarrow> \<exists>t. cur p = Running t \<and> fmlookup (sel t) n = None"
proof -
  obtain r q where r: "row n p = (r, q)" by (cases "row n p")
  note law = assms(1) [unfolded row_law_def, rule_format, OF assms(2) r]
  show "tables p' = tables p" "cur p' \<in> {cur p, Aborted}"
    using law r assms(3) by (auto simp: row_body_def split: sum.splits)
  show "\<exists>t x. cur p = Running t \<and> fmlookup (sel t) n = Some x \<and> v' = put x v" if "e = None"
    using that law r assms(3) by (auto simp: row_body_def split: sum.splits)
  show "\<exists>t. cur p = Running t \<and> fmlookup (sel t) n = None" if "e = Some e'" "errors_Is e' ErrNoRows"
    using that law r assms(3) by (auto simp: row_body_def split: sum.splits)
qed

lemma rows_bodyE:
  assumes "rows_law tables cur sel rows" and "cur p = Running t" and "rows_body rows get put (v, p) = (e, v', p')"
    and sub: "\<forall>k x. fmlookup (get v) k = Some x \<longrightarrow> fmlookup (sel t) k = Some x" and put: "\<And>m. get (put m v) = m"
  shows "tables p' = tables p" "cur p' \<in> {Running t, Aborted}"
    "\<forall>k x. fmlookup (get v') k = Some x \<longrightarrow> fmlookup (sel t) k = Some x"
    "e = None \<Longrightarrow> cur p' = Running t \<Longrightarrow> get v' = sel t"
proof -
  obtain r q where r: "rows p = (r, q)" by (cases "rows p")
  have "cur p \<noteq> NoTx" using assms(2) by simp
  note law = assms(1) [unfolded rows_law_def, rule_format, OF this r]
  show "tables p' = tables p" "cur p' \<in> {Running t, Aborted}"
    using law r assms(2,3) by (auto simp: rows_body_def split: sum.splits prod.splits)
  show "\<forall>k x. fmlookup (get v') k = Some x \<longrightarrow> fmlookup (sel t) k = Some x"
  proof (cases r)
    case (Inr rs)
    then obtain m where m: "scan_rows rs (get v) = (e, m)" "v' = put m v"
      using r assms(3) by (auto simp: rows_body_def split: prod.splits)
    have "\<forall>k x. Inr (k, x) \<in> set rs \<longrightarrow> fmlookup (sel t) k = Some x" using law Inr assms(2) by auto
    from scan_rows_sub [OF m(1) this sub] m(2) put show ?thesis by auto
  qed (use r assms(3) sub in \<open>auto simp: rows_body_def\<close>)
  show "get v' = sel t" if ends: "e = None" "cur p' = Running t"
  proof -
    obtain rs m where rs: "r = Inr rs" and m: "scan_rows rs (get v) = (None, m)" "v' = put m v" "q = p'"
      using ends r assms(3) by (auto simp: rows_body_def split: prod.splits sum.splits)
    with law ends assms(2) obtain kvs where "rs = map Inr kvs" "enumerates kvs (sel t)" by auto
    from scan_rows_whole [OF m(1) this sub] m(2) put show ?thesis by simp
  qed
qed

lemma reads_row: "row_law tables cur sel row \<Longrightarrow> reads tables cur (row_body row put n)"
  unfolding reads_def by (intro allI impI conjI; erule (2) row_bodyE)

section \<open>The contract of a store\<close>

text \<open>What a query for one row, or for all rows, returns.\<close>

lemma ExecuteTx_row:
  assumes pg: "pg_laws pg tables cur" and law: "row_law tables cur sel row" and rest: "cur p = NoTx"
    and ex: "ExecuteTx pg rw (row_body row put n) (v, p) = (e, v', p')"
  shows "cur p' = NoTx" "tables p' = tables p"
    "e = None \<Longrightarrow> \<exists>x u. fmlookup (sel (tables p)) n = Some x \<and> v' = put x u"
    "e = Some e' \<Longrightarrow> errors_Is e' ErrNoRows \<Longrightarrow> fmlookup (sel (tables p)) n = None"
proof -
  have "cur p' = NoTx \<and> tables p' = tables p \<and>
    (e = None \<longrightarrow> (\<exists>x u. fmlookup (sel (tables p)) n = Some x \<and> v' = put x u)) \<and>
    (\<forall>e'. e = Some e' \<longrightarrow> errors_Is e' ErrNoRows \<longrightarrow> fmlookup (sel (tables p)) n = None)"
    using pg ex
  proof (cases rule: ExecuteTx_attempts)
    case (tried k e0)
    have "cur (snd (v, p)) = NoTx" using rest by simp
    note att = attempts_read [OF tried(2) pg_lawsD(1) [OF pg] reads_row [OF law] this, of "\<lambda>_. True", simplified]
    have "\<exists>x u. fmlookup (sel (tables p)) n = Some x \<and> v' = put x u" if "e = None"
    proof -
      from that att tried(3) obtain u where "ran cur (row_body row put n) (tables p) u None v' True" by auto
      then obtain p1 p2 where "cur p1 = Running (tables p)" "row_body row put n (u, p1) = (None, v', p2)" by (auto simp: ran_def)
      with row_bodyE(3) [OF law _ this(2)] show ?thesis by auto
    qed
    moreover have "fmlookup (sel (tables p)) n = None" if ex': "e = Some e'" "errors_Is e' ErrNoRows" for e'
    proof -
      from tried(4) [OF ex'] obtain e2 where e2: "e0 = Some e2" "errors_Is e2 ErrNoRows" by blast
      with att obtain u where "ran cur (row_body row put n) (tables p) u (Some e2) v' False" by auto
      then obtain p1 p2 where "cur p1 = Running (tables p)" "row_body row put n (u, p1) = (Some e2, v', p2)" by (auto simp: ran_def)
      with row_bodyE(4) [OF law _ this(2) refl e2(2)] show ?thesis by auto
    qed
    ultimately show ?thesis using att by simp
  qed (use rest in auto)
  then show "cur p' = NoTx" "tables p' = tables p"
    "e = None \<Longrightarrow> \<exists>x u. fmlookup (sel (tables p)) n = Some x \<and> v' = put x u"
    "e = Some e' \<Longrightarrow> errors_Is e' ErrNoRows \<Longrightarrow> fmlookup (sel (tables p)) n = None" by blast+
qed

lemma ExecuteTx_rows:
  assumes pg: "pg_laws pg tables cur" and law: "rows_law tables cur sel rows" and rest: "cur p = NoTx"
    and ex: "ExecuteTx pg rw (rows_body rows get put) (v, p) = (e, v', p')"
    and put: "\<And>m v. get (put m v) = m" and start: "get v = fmempty"
  shows "cur p' = NoTx" "tables p' = tables p" "e = None \<Longrightarrow> get v' = sel (tables p)"
proof -
  let ?P = "\<lambda>v. \<forall>k x. fmlookup (get v) k = Some x \<longrightarrow> fmlookup (sel (tables p)) k = Some x"
  have keep: "\<forall>w e2 w'. ?P w \<longrightarrow> ran cur (rows_body rows get put) (tables p) w e2 w' False \<longrightarrow> ?P w'"
  proof (intro allI impI)
    fix w e2 w' i x
    assume P: "?P w" and "ran cur (rows_body rows get put) (tables p) w e2 w' False" and x: "fmlookup (get w') i = Some x"
    then obtain p1 p2 where "cur p1 = Running (tables p)" "rows_body rows get put (w, p1) = (e2, w', p2)" by (auto simp: ran_def)
    from rows_bodyE(3) [OF law this P put] x show "fmlookup (sel (tables p)) i = Some x" by blast
  qed
  have rd: "reads tables cur (rows_body rows get put)"
    unfolding reads_def
  proof (intro allI impI)
    fix v p e v' p'
    assume c: "cur p \<noteq> NoTx" and f: "rows_body rows get put (v, p) = (e, v', p')"
    obtain r q where r: "rows p = (r, q)" by (cases "rows p")
    from law [unfolded rows_law_def, rule_format, OF c r] r f
    show "tables p' = tables p \<and> cur p' \<in> {cur p, Aborted}"
      by (auto simp: rows_body_def split: sum.splits prod.splits)
  qed
  have start': "cur (snd (v, p)) = NoTx" "?P (fst (v, p))" using rest start by simp_all
  have "cur p' = NoTx \<and> tables p' = tables p \<and> (e = None \<longrightarrow> get v' = sel (tables p))"
    using pg ex
  proof (cases rule: ExecuteTx_attempts)
    case (tried k e0)
    note att = attempts_read [where P = ?P, OF tried(2) pg_lawsD(1) [OF pg] rd start', unfolded snd_conv fst_conv, OF keep]
    have "get v' = sel (tables p)" if "e = None"
    proof -
      from that tried(3) att obtain u where u: "?P u" "ran cur (rows_body rows get put) (tables p) u None v' True" by blast
      then obtain p1 p2 where "cur p1 = Running (tables p)" "rows_body rows get put (u, p1) = (None, v', p2)" "cur p2 = Running (tables p)"
        by (auto simp: ran_def)
      from rows_bodyE(4) [OF law this(1,2) u(1) put refl this(3)] show ?thesis .
    qed
    with att show ?thesis by blast
  qed (use rest in simp)
  then show "cur p' = NoTx" "tables p' = tables p" "e = None \<Longrightarrow> get v' = sel (tables p)" by blast+
qed

lemma Pg_bodies:
  "Pg_GetGauge pg name p = (case ExecuteTx pg True (row_body (\<lambda>n. gauge_row (pg_pool pg) n) (\<lambda>x v. v\<lparr>v_gauge := x\<rparr>) name) (vars0, p) of
     (Some e, _, p') \<Rightarrow> (if errors_Is e ErrNoRows then Inr None else Inl e, p') | (None, v, p') \<Rightarrow> (Inr (Some (v_gauge v)), p'))"
  "Pg_GetCounter pg name p = (case ExecuteTx pg False (row_body (\<lambda>n. counter_row (pg_pool pg) n) (\<lambda>x v. v\<lparr>v_counter := x\<rparr>) name) (vars0, p) of
     (Some e, _, p') \<Rightarrow> (if errors_Is e ErrNoRows then Inr None else Inl e, p') | (None, v, p') \<Rightarrow> (Inr (Some (v_counter v)), p'))"
  "Pg_GetGaugeAll pg p = (case ExecuteTx pg True (rows_body (gauge_rows (pg_pool pg)) v_gm (\<lambda>m v. v\<lparr>v_gm := m\<rparr>)) (vars0, p) of
     (Some e, _, p') \<Rightarrow> (Inl e, p') | (None, v, p') \<Rightarrow> (Inr (v_gm v), p'))"
  "Pg_GetCounterAll pg p = (case ExecuteTx pg False (rows_body (counter_rows (pg_pool pg)) v_cm (\<lambda>m v. v\<lparr>v_cm := m\<rparr>)) (vars0, p) of
     (Some e, _, p') \<Rightarrow> (Inl e, p') | (None, v, p') \<Rightarrow> (Inr (v_cm v), p'))"
  by (simp_all add: Pg_GetGauge_def Pg_GetCounter_def Pg_GetGaugeAll_def Pg_GetCounterAll_def row_body_def rows_body_def select_texts)

lemma Pg_get_law:
  assumes "pg_laws pg tables cur" and "cur p = NoTx"
  shows "Pg_GetGauge pg n p = (r, p') \<Longrightarrow> cur p' = NoTx \<and> tables p' = tables p \<and> (\<forall>v. r = Inr v \<longrightarrow> v = fmlookup (fst (tables p)) n)"
    and "Pg_GetCounter pg n p = (r', p') \<Longrightarrow> cur p' = NoTx \<and> tables p' = tables p \<and> (\<forall>v. r' = Inr v \<longrightarrow> v = fmlookup (snd (tables p)) n)"
proof -
  show "cur p' = NoTx \<and> tables p' = tables p \<and> (\<forall>v. r = Inr v \<longrightarrow> v = fmlookup (fst (tables p)) n)" if run: "Pg_GetGauge pg n p = (r, p')"
  proof -
    obtain e v q where x: "ExecuteTx pg True (row_body (\<lambda>n. gauge_row (pg_pool pg) n) (\<lambda>x v. v\<lparr>v_gauge := x\<rparr>) n) (vars0, p) = (e, v, q)"
      by (metis surj_pair)
    note r = ExecuteTx_row [OF assms(1) pg_lawsD(5) [OF assms(1)] assms(2) x]
    from r(1,2) r(3) r(4) run x show ?thesis by (cases e) (auto simp: Pg_bodies split: if_splits)
  qed
  show "cur p' = NoTx \<and> tables p' = tables p \<and> (\<forall>v. r' = Inr v \<longrightarrow> v = fmlookup (snd (tables p)) n)" if run: "Pg_GetCounter pg n p = (r', p')"
  proof -
    obtain e v q where x: "ExecuteTx pg False (row_body (\<lambda>n. counter_row (pg_pool pg) n) (\<lambda>x v. v\<lparr>v_counter := x\<rparr>) n) (vars0, p) = (e, v, q)"
      by (metis surj_pair)
    note r = ExecuteTx_row [OF assms(1) pg_lawsD(6) [OF assms(1)] assms(2) x]
    from r(1,2) r(3) r(4) run x show ?thesis by (cases e) (auto simp: Pg_bodies split: if_splits)
  qed
qed

lemma Pg_get_all_law:
  assumes "pg_laws pg tables cur" and "cur p = NoTx"
  shows "Pg_GetGaugeAll pg p = (r, p') \<Longrightarrow> cur p' = NoTx \<and> tables p' = tables p \<and> (\<forall>m. r = Inr m \<longrightarrow> m = fst (tables p))"
    and "Pg_GetCounterAll pg p = (r', p') \<Longrightarrow> cur p' = NoTx \<and> tables p' = tables p \<and> (\<forall>m. r' = Inr m \<longrightarrow> m = snd (tables p))"
proof -
  show "cur p' = NoTx \<and> tables p' = tables p \<and> (\<forall>m. r = Inr m \<longrightarrow> m = fst (tables p))" if run: "Pg_GetGaugeAll pg p = (r, p')"
  proof -
    obtain e v q where x: "ExecuteTx pg True (rows_body (gauge_rows (pg_pool pg)) v_gm (\<lambda>m v. v\<lparr>v_gm := m\<rparr>)) (vars0, p) = (e, v, q)"
      by (metis surj_pair)
    note r = ExecuteTx_rows [OF assms(1) pg_lawsD(7) [OF assms(1)] assms(2) x]
    from r run x show ?thesis by (cases e) (auto simp: Pg_bodies vars0_def)
  qed
  show "cur p' = NoTx \<and> tables p' = tables p \<and> (\<forall>m. r' = Inr m \<longrightarrow> m = snd (tables p))" if run: "Pg_GetCounterAll pg p = (r', p')"
  proof -
    obtain e v q where x: "ExecuteTx pg False (rows_body (counter_rows (pg_pool pg)) v_cm (\<lambda>m v. v\<lparr>v_cm := m\<rparr>)) (vars0, p) = (e, v, q)"
      by (metis surj_pair)
    note r = ExecuteTx_rows [OF assms(1) pg_lawsD(8) [OF assms(1)] assms(2) x]
    from r run x show ?thesis by (cases e) (auto simp: Pg_bodies vars0_def)
  qed
qed

lemma Pg_set_law:
  assumes pg: "pg_laws pg tables cur" and rest: "cur p = NoTx"
  shows "Pg_SetGauge pg n v p = (e, p') \<Longrightarrow> cur p' = NoTx \<and> (e = None \<longrightarrow> fst (tables p') = fmupd n v (fst (tables p))) \<and>
      (tables p' = tables p \<or> tables p' = (fmupd n v (fst (tables p)), snd (tables p)))"
    and "Pg_SetGaugeAll pg g p = (e, p') \<Longrightarrow> cur p' = NoTx \<and> (e = None \<longrightarrow> fst (tables p') = fmadd (fst (tables p)) g) \<and>
      (tables p' = tables p \<or> tables p' = (fmadd (fst (tables p)) g, snd (tables p)))"
    and "Pg_SetCounter pg n i p = (e, p') \<Longrightarrow> cur p' = NoTx \<and> (e = None \<longrightarrow> snd (tables p') = add_counter n i (snd (tables p))) \<and>
      (tables p' = tables p \<or> tables p' = (fst (tables p), add_counter n i (snd (tables p))))"
    and "Pg_SetCounterAll pg c p = (e, p') \<Longrightarrow> cur p' = NoTx \<and> (e = None \<longrightarrow> snd (tables p') = add_counters c (snd (tables p))) \<and>
      (tables p' = tables p \<or> tables p' = (fst (tables p), add_counters c (snd (tables p))))"
proof -
  obtain g0 c0 where t: "tables p = (g0, c0)" by (cases "tables p")
  note w = run_op_write [OF pg rest]
  show "Pg_SetGauge pg n v p = (e, p') \<Longrightarrow> cur p' = NoTx \<and> (e = None \<longrightarrow> fst (tables p') = fmupd n v (fst (tables p))) \<and>
      (tables p' = tables p \<or> tables p' = (fmupd n v (fst (tables p)), snd (tables p)))"
    using w [of True "[upsert_gauge n v]"] t by (auto simp: Pg_SetGauge_def exec_body_all eq_commute [of _ "tables p'"])
  show "Pg_SetGaugeAll pg g p = (e, p') \<Longrightarrow> cur p' = NoTx \<and> (e = None \<longrightarrow> fst (tables p') = fmadd (fst (tables p)) g) \<and>
      (tables p' = tables p \<or> tables p' = (fmadd (fst (tables p)) g, snd (tables p)))"
    using w [of True "map (\<lambda>(k, v). upsert_gauge k v) (pg_range_g pg g)"] t foldl_enum_fmadd [OF pg_lawsD(3) [OF pg]]
    by (auto simp: Pg_SetGaugeAll_def apply_gauges eq_commute [of _ "tables p'"])
  show "Pg_SetCounter pg n i p = (e, p') \<Longrightarrow> cur p' = NoTx \<and> (e = None \<longrightarrow> snd (tables p') = add_counter n i (snd (tables p))) \<and>
      (tables p' = tables p \<or> tables p' = (fst (tables p), add_counter n i (snd (tables p))))"
    using w [of True "[upsert_counter n i]"] t apply_counters [of "[(n, i)]" g0 c0 "tables p'"] by (auto simp: Pg_SetCounter_def exec_body_all)
  show "Pg_SetCounterAll pg c p = (e, p') \<Longrightarrow> cur p' = NoTx \<and> (e = None \<longrightarrow> snd (tables p') = add_counters c (snd (tables p))) \<and>
      (tables p' = tables p \<or> tables p' = (fst (tables p), add_counters c (snd (tables p))))"
    using w [of True "map (\<lambda>(k, v). upsert_counter k v) (pg_range_c pg c)"] t
      apply_counters [of "pg_range_c pg c" g0 c0 "tables p'"] add_counters_seq [OF pg_lawsD(4) [OF pg]]
    by (auto simp: Pg_SetCounterAll_def)
qed

lemma ping_law: "exec_laws px tables cur \<Longrightarrow> cur p = NoTx \<Longrightarrow> pool_Ping px p = (e, p') \<Longrightarrow> tables p' = tables p \<and> cur p' = NoTx"
  unfolding exec_laws_def by blast

lemma pg_repo:
  assumes "pg_laws pg tables cur"
  shows "metrics_repo (pgsql_db pg) (\<lambda>p. cur p = NoTx) (\<lambda>p. fst (tables p)) (\<lambda>p. snd (tables p))"
proof (unfold_locales, goal_cases)
  case (1 s n)
  then show ?case using Pg_get_law(1) [OF assms 1, of n] by (cases "Pg_GetGauge pg n s") (simp add: pgsql_db_def)
next
  case (2 s)
  then show ?case using Pg_get_all_law(1) [OF assms 2] by (cases "Pg_GetGaugeAll pg s") (simp add: pgsql_db_def)
next
  case (3 s n)
  then show ?case using Pg_get_law(2) [OF assms 3, of n] by (cases "Pg_GetCounter pg n s") (simp add: pgsql_db_def)
next
  case (4 s)
  then show ?case using Pg_get_all_law(2) [OF assms 4] by (cases "Pg_GetCounterAll pg s") (simp add: pgsql_db_def)
next
  case (5 s n v)
  then show ?case using Pg_set_law(1) [OF assms 5, of n v] by (cases "Pg_SetGauge pg n v s") (auto simp: pgsql_db_def)
next
  case (6 s d)
  then show ?case using Pg_set_law(2) [OF assms 6, of d] by (cases "Pg_SetGaugeAll pg d s") (auto simp: pgsql_db_def)
next
  case (7 s n i)
  then show ?case using Pg_set_law(3) [OF assms 7, of n i] by (cases "Pg_SetCounter pg n i s") (auto simp: pgsql_db_def)
next
  case (8 s c)
  then show ?case using Pg_set_law(4) [OF assms 8, of c] by (cases "Pg_SetCounterAll pg c s") (auto simp: pgsql_db_def)
next
  case (9 s)
  then show ?case using ping_law [OF pg_lawsD(1) [OF assms] 9] by (cases "pool_Ping (pg_pool pg) s") (simp add: pgsql_db_def)
qed

section \<open>Properties\<close>

text \<open>A small database for the examples: its commits fail a number of times first.\<close>

record Toy_db =
  td_tables :: tables
  td_cur :: txst
  td_fail :: nat

definition toy_px :: "Toy_db Pgx" where
  "toy_px = \<lparr>
     BeginTx = (\<lambda>rw p. (None, p\<lparr>td_cur := Running (td_tables p)\<rparr>)),
     tx_Exec = (\<lambda>q p. case td_cur p of
         Running t \<Rightarrow> (case apply_sql q t of
             Some t' \<Rightarrow> (None, p\<lparr>td_cur := Running t'\<rparr>)
           | None \<Rightarrow> (Some (PgError ''22003''), p\<lparr>td_cur := Aborted\<rparr>))
       | _ \<Rightarrow> (Some (PgError ''25P02''), p\<lparr>td_cur := Aborted\<rparr>)),
     tx_GaugeRow = (\<lambda>q p. (case (td_cur p, map_of (snd q) ''name'') of
         (Running t, Some (Text n)) \<Rightarrow>
           if q = select_value ''gauge_m_table'' n then (case fmlookup (fst t) n of None \<Rightarrow> Inl ErrNoRows | Some v \<Rightarrow> Inr v)
           else Inl (PgError ''42601'')
       | _ \<Rightarrow> Inl (PgError ''25P02''), p)),
     tx_CounterRow = (\<lambda>q p. (case (td_cur p, map_of (snd q) ''name'') of
         (Running t, Some (Text n)) \<Rightarrow>
           if q = select_value ''counter_m_table'' n then (case fmlookup (snd t) n of None \<Rightarrow> Inl ErrNoRows | Some v \<Rightarrow> Inr v)
           else Inl (PgError ''42601'')
       | _ \<Rightarrow> Inl (PgError ''25P02''), p)),
     tx_GaugeRows = (\<lambda>q p. case td_cur p of
         Running t \<Rightarrow> if q \<noteq> select_all ''gauge_m_table'' then (Inl (PgError ''42601''), p\<lparr>td_cur := Aborted\<rparr>) else (Inr (map Inr (sorted_list_of_fmap (fst t))), p)
       | _ \<Rightarrow> (Inl (PgError ''25P02''), p\<lparr>td_cur := Aborted\<rparr>)),
     tx_CounterRows = (\<lambda>q p. case td_cur p of
         Running t \<Rightarrow> if q \<noteq> select_all ''counter_m_table'' then (Inl (PgError ''42601''), p\<lparr>td_cur := Aborted\<rparr>) else (Inr (map Inr (sorted_list_of_fmap (snd t))), p)
       | _ \<Rightarrow> (Inl (PgError ''25P02''), p\<lparr>td_cur := Aborted\<rparr>)),
     tx_Commit = (\<lambda>p. case td_cur p of
         Running t \<Rightarrow> (case td_fail p of
             0 \<Rightarrow> (None, p\<lparr>td_tables := t, td_cur := NoTx\<rparr>)
           | Suc n \<Rightarrow> (Some (PgError ''40001''), p\<lparr>td_cur := NoTx, td_fail := n\<rparr>))
       | _ \<Rightarrow> (Some (PgError ''25P02''), p\<lparr>td_cur := NoTx\<rparr>)),
     tx_Rollback = (\<lambda>p. p\<lparr>td_cur := NoTx\<rparr>),
     pool_Ping = (\<lambda>p. (None, p)), pool_Close = (\<lambda>p. p)\<rparr>"

fun toy_run :: "(go_error option \<Rightarrow> bool) \<Rightarrow> nat \<Rightarrow> 'p body \<Rightarrow> 'p body" where
  "toy_run h n f x =
     (case f x of (e, y) \<Rightarrow> (case n of 0 \<Rightarrow> (e, y) | Suc m \<Rightarrow> if h e then toy_run h m f y else (e, y)))"

declare toy_run.simps [simp del]

definition toy_pg :: "Toy_db PgSQL" where
  "toy_pg = \<lparr>pg_pool = toy_px,
     pg_codes = \<lparr>SerializationFailure = ''40001'', DeadlockDetected = ''40P01'', IsConnectionException = (\<lambda>c. take 2 c = ''08'')\<rparr>,
     pg_Run = toy_run, pg_range_g = sorted_list_of_fmap, pg_range_c = sorted_list_of_fmap\<rparr>"

lemma toy_run_attempts:
  "toy_run h n f x = (e, y) \<Longrightarrow> \<exists>k \<le> n. attempts h f k x e y \<and> (h e \<longrightarrow> k = n)"
proof (induction n arbitrary: x)
  case 0
  then show ?case by (auto simp: toy_run.simps intro!: last_attempt split: prod.splits)
next
  case (Suc n)
  obtain e1 y1 where f: "f x = (e1, y1)" by (cases "f x")
  show ?case
  proof (cases "h e1")
    case True
    with Suc.prems f have "toy_run h n f y1 = (e, y)" by (subst (asm) toy_run.simps) simp
    with Suc.IH obtain k where "k \<le> n" "attempts h f k y1 e y" "h e \<longrightarrow> k = n" by blast
    with f True show ?thesis by (intro exI [of _ "Suc k"]) (auto intro: retry)
  next
    case False
    with Suc.prems f have "e = e1" "y = y1" by (auto simp: toy_run.simps [of h "Suc n"])
    with f False show ?thesis by (intro exI [of _ 0]) (auto intro: last_attempt)
  qed
qed

lemma toy_pg_laws: "pg_laws toy_pg td_tables td_cur"
proof -
  have entry: "fmlookup m k = Some v" if "(k, v) \<in> set (sorted_list_of_fmap m)" for k v and m :: "'v gomap"
    using map_of_is_SomeI [OF enumeratesD(1) [OF enumerates_sorted] that] enumeratesD(2) [OF enumerates_sorted, of m] by simp
  have "exec_laws toy_px td_tables td_cur"
    unfolding exec_laws_def
    by (intro conjI allI impI) (auto simp: toy_px_def split: txst.splits option.splits nat.splits if_splits prod.splits)
  moreover have "row_law td_tables td_cur fst (\<lambda>n. gauge_row toy_px n)" "row_law td_tables td_cur snd (\<lambda>n. counter_row toy_px n)"
    by (auto simp: row_law_def toy_px_def select_value_def split: txst.splits option.splits sum.splits)
  moreover have "rows_law td_tables td_cur fst (gauge_rows toy_px)" "rows_law td_tables td_cur snd (counter_rows toy_px)"
    by (auto simp: rows_law_def toy_px_def entry split: txst.splits sum.splits)
  moreover have "run_laws toy_run"
    unfolding run_laws_def using toy_run_attempts by blast
  ultimately show ?thesis by (simp add: pg_laws_def pgx_laws_def toy_pg_def)
qed

text \<open>
  C12. The PostgreSQL store keeps the contract of a store on any driver and executor with the
  documented laws: reads return what the tables hold or an error and change nothing, a write
  is made in full exactly once or not at all, never in part and never twice, although it is
  run up to four times, and it is made when no error is returned. (A write whose commit was
  lost with the connection is not repeated, because the wrapped error is not retryable.)
\<close>

theorem pgsql_keeps_contract:
  assumes "pg_laws pg tables cur"
  shows "metrics_repo (pgsql_db pg) (\<lambda>p. cur p = NoTx) (\<lambda>p. fst (tables p)) (\<lambda>p. snd (tables p))"
  using pg_repo [OF assms] .

text \<open>Two commits fail with a serialization failure; the third is made, once.\<close>

theorem pgsql_keeps_contract_witness:
  "metrics_repo (pgsql_db toy_pg) (\<lambda>p. td_cur p = NoTx) (\<lambda>p. fst (td_tables p)) (\<lambda>p. snd (td_tables p)) \<and>
   (let p = \<lparr>td_tables = (fmempty, fmupd ''c'' 5 fmempty), td_cur = NoTx, td_fail = 2\<rparr>
    in case Pg_SetCounter toy_pg ''c'' 7 p of (e, p') \<Rightarrow> e = None \<and> td_fail p' = 0 \<and> fmlookup (snd (td_tables p')) ''c'' = Some 12)"
proof
  show "let p = \<lparr>td_tables = (fmempty, fmupd ''c'' 5 fmempty), td_cur = NoTx, td_fail = 2\<rparr>
    in case Pg_SetCounter toy_pg ''c'' 7 p of (e, p') \<Rightarrow> e = None \<and> td_fail p' = 0 \<and> fmlookup (snd (td_tables p')) ''c'' = Some 12"
    by code_simp
qed (rule pgsql_keeps_contract [OF toy_pg_laws])

text \<open>
  C36. A counter update that succeeds in PostgreSQL adds the delta without wrapping: the new
  value is the sum as integers, so it lies in the range of \<open>int64\<close>. An update whose sum
  is out of range fails there with an error and changes nothing, where the in-memory store
  answers success and wraps.
\<close>

theorem pg_counter_in_range:
  assumes "pg_laws pg tables cur" and "cur p = NoTx" and "Pg_SetCounter pg n v p = (e, p')"
    and "fmlookup (snd (tables p)) n = Some old"
  shows "(e = None \<longrightarrow> (\<exists>x. fmlookup (snd (tables p')) n = Some x \<and> sint x = sint old + sint v)) \<and>
    (sint old + sint v \<notin> {- (2 ^ 63)..<2 ^ 63} \<longrightarrow> e \<noteq> None \<and> tables p' = tables p) \<and>
    (\<forall>ms. mem_inv ms \<and> mem_counters ms = snd (tables p) \<longrightarrow>
       (\<exists>ms'. SetCounter memory_db n v ms = Ret (None, ms') \<and> fmlookup (mem_counters ms') n = Some (old + v)))"
proof -
  obtain g c where t: "tables p = (g, c)" by (cases "tables p")
  have run: "run_op pg True (exec_all (pg_pool pg) [upsert_counter n v]) p = (e, p')"
    using assms(3) by (simp add: Pg_SetCounter_def exec_body_all)
  have eff: "apply_all [upsert_counter n v] (tables p) =
      (if sint (old + v) = sint old + sint v then Some (g, fmupd n (old + v) c) else None)"
    using t assms(4) by (simp add: bigint_add_def)
  have range: "sint old + sint v \<in> {- (2 ^ 63)..<2 ^ 63}" if "sint (old + v) = sint old + sint v"
    using sint_range_size [of "old + v"] that by (simp add: word_size)
  have mem: "\<exists>ms'. SetCounter memory_db n v ms = Ret (None, ms') \<and> fmlookup (mem_counters ms') n = Some (old + v)"
    if ms: "mem_inv ms" "mem_counters ms = snd (tables p)" for ms
    by (rule mem.set_counter_eq [OF ms(1), of n v]) (use ms(2) assms(4) in auto)
  note w = run_op_write [OF assms(1,2) run, unfolded eff]
  have ok: "tables p' = (g, fmupd n (old + v) c) \<and> sint (old + v) = sint old + sint v" if "e = None"
    using w(2) [OF that] by (simp split: if_splits)
  have "e \<noteq> None \<and> tables p' = tables p" if "sint old + sint v \<notin> {- (2 ^ 63)..<2 ^ 63}"
    using that range ok w(3) by (auto split: if_splits)
  with ok mem show ?thesis by auto
qed

theorem pg_counter_in_range_witness:
  "case Pg_SetCounter toy_pg ''c'' 1 \<lparr>td_tables = (fmempty, fmupd ''c'' 0x7FFFFFFFFFFFFFFF fmempty), td_cur = NoTx, td_fail = 0\<rparr> of
     (e, p') \<Rightarrow> e \<noteq> None \<and> td_tables p' = (fmempty, fmupd ''c'' 0x7FFFFFFFFFFFFFFF fmempty)"
proof -
  let ?p = "\<lparr>td_tables = (fmempty, fmupd ''c'' (0x7FFFFFFFFFFFFFFF :: int64) fmempty), td_cur = NoTx, td_fail = 0\<rparr>"
  obtain e p' where r: "Pg_SetCounter toy_pg ''c'' 1 ?p = (e, p')" by (cases "Pg_SetCounter toy_pg ''c'' 1 ?p")
  have "sint (0x7FFFFFFFFFFFFFFF :: int64) + sint (1 :: int64) \<notin> {- (2 ^ 63)..<2 ^ 63}" by simp
  with pg_counter_in_range [OF toy_pg_laws _ r, of "0x7FFFFFFFFFFFFFFF"] r show ?thesis by simp
qed

end
