(* ===== verification/Go_Float_Facts.thy ===== *)
theory Go_Float_Facts
  imports Go_Float
begin

text \<open>
  Correctness of the conversions of \<open>Go_Float\<close>: rounding depends on the rational value
  only, is the identity on the value of a bit pattern, and the shortest digits of a finite
  value read back as that value.
\<close>

section \<open>Logarithms and values\<close>

definition val :: "nat \<times> nat \<Rightarrow> real" where
  "val q = real (fst q) / real (snd q)"

lemma nlog_spec: "2 \<le> b \<Longrightarrow> 0 < n \<Longrightarrow> b ^ nlog b n \<le> n \<and> n < b ^ Suc (nlog b n)"
proof (induction b n rule: nlog.induct)
  case (1 b n)
  show ?case
  proof (cases "n < b")
    case True
    with 1 show ?thesis by (simp add: nlog.simps [of b n])
  next
    case False
    with 1 have pos: "0 < n div b" by (simp add: div_greater_zero_iff)
    with 1 False have IH: "b ^ nlog b (n div b) \<le> n div b" "n div b < b ^ Suc (nlog b (n div b))"
      by (simp_all del: power_Suc)
    from IH(1) have "b * b ^ nlog b (n div b) \<le> b * (n div b)" by simp
    also have "\<dots> \<le> n" by simp
    finally have lower: "b * b ^ nlog b (n div b) \<le> n" .
    from IH(2) 1 have "n < b ^ Suc (nlog b (n div b)) * b"
      by (simp add: div_less_iff_less_mult del: power_Suc)
    with lower False 1 show ?thesis by (simp add: nlog.simps [of b n] mult.commute)
  qed
qed

lemma val_pos: "0 < fst q \<Longrightarrow> 0 < snd q \<Longrightarrow> 0 < val q"
  by (simp add: val_def)

lemma snd_descale [simp]: "0 < b \<Longrightarrow> 0 < snd q \<Longrightarrow> 0 < snd (descale b k q)"
  by (simp add: descale_def)

lemma fst_descale [simp]: "0 < b \<Longrightarrow> 0 < fst (descale b k q) \<longleftrightarrow> 0 < fst q"
  by (simp add: descale_def)

lemma val_descale: "0 < b \<Longrightarrow> 0 < snd q \<Longrightarrow> val (descale b k q) = val q / real b powi k"
  by (simp add: val_def descale_def power_int_def field_simps)

lemma snd_ratio [simp]: "0 < b \<Longrightarrow> 0 < snd (ratio b c k)"
  by (simp add: ratio_def)

lemma fst_ratio [simp]: "0 < b \<Longrightarrow> fst (ratio b c k) = 0 \<longleftrightarrow> c = 0"
  by (simp add: ratio_def)

lemma val_ratio: "0 < b \<Longrightarrow> val (ratio b c k) = real c * real b powi k"
  by (simp add: val_def ratio_def power_int_def field_simps)

lemma floor_log_spec:
  assumes "2 \<le> b" and "0 < fst q" and "0 < snd q"
  shows "real b powi floor_log b q \<le> val q" and "val q < real b powi (floor_log b q + 1)"
proof -
  let ?n = "fst q" and ?d = "snd q"
  let ?k = "int (nlog b ?n) - int (nlog b ?d)"
  have b: "real b > 0" "0 < b" using assms(1) by simp_all
  from nlog_spec [OF assms(1,2)] have n: "real b ^ nlog b ?n \<le> real ?n" "real ?n < real b ^ Suc (nlog b ?n)"
    by (metis of_nat_le_iff of_nat_power) (metis nlog_spec [OF assms(1,2)] of_nat_less_iff of_nat_power)
  from nlog_spec [OF assms(1,3)] have d: "real b ^ nlog b ?d \<le> real ?d" "real ?d < real b ^ Suc (nlog b ?d)"
    by (metis of_nat_le_iff of_nat_power) (metis nlog_spec [OF assms(1,3)] of_nat_less_iff of_nat_power)
  have "val q < real b ^ Suc (nlog b ?n) / real b ^ nlog b ?d"
    unfolding val_def using n d b assms by (intro frac_less) auto
  also have "\<dots> = real b powi (?k + 1)"
    using b by (simp add: power_int_add power_int_diff)
  finally have up: "val q < real b powi (?k + 1)" .
  have "real b powi (?k - 1) = real b ^ nlog b ?n / real b ^ Suc (nlog b ?d)"
    using b by (simp add: power_int_diff)
  also have "\<dots> \<le> val q"
    unfolding val_def using n d b assms by (intro frac_le) auto
  finally have low: "real b powi (?k - 1) \<le> val q" .
  have test: "snd (descale b ?k q) \<le> fst (descale b ?k q) \<longleftrightarrow> real b powi ?k \<le> val q"
  proof -
    have "snd (descale b ?k q) \<le> fst (descale b ?k q) \<longleftrightarrow> 1 \<le> val (descale b ?k q)"
      using snd_descale [OF b(2) assms(3), of ?k] by (simp add: val_def field_simps)
    also have "\<dots> \<longleftrightarrow> real b powi ?k \<le> val q"
      using b assms(3) by (simp add: val_descale field_simps)
    finally show ?thesis .
  qed
  from up low test show "real b powi floor_log b q \<le> val q" and "val q < real b powi (floor_log b q + 1)"
    by (auto simp: floor_log_def Let_def)
qed

lemma floor_log_unique:
  assumes "2 \<le> b" and "0 < fst q" and "0 < snd q"
    and "real b powi m \<le> val q" and "val q < real b powi (m + 1)"
  shows "floor_log b q = m"
proof -
  have b: "1 < real b" using assms(1) by simp
  have "real b powi m < real b powi (floor_log b q + 1)"
    using assms(4) floor_log_spec(2) [OF assms(1-3)] by linarith
  moreover have "real b powi floor_log b q < real b powi (m + 1)"
    using assms(5) floor_log_spec(1) [OF assms(1-3)] by linarith
  ultimately have "\<not> floor_log b q + 1 \<le> m" and "\<not> m + 1 \<le> floor_log b q"
    using b power_int_increasing [of _ _ "real b"] by (meson less_imp_le linorder_not_le)+
  then show ?thesis by linarith
qed

section \<open>Rounding depends on the value\<close>

lemma round_half_even_val:
  assumes "0 < snd q"
  shows "round_half_even q =
    (let i = nat \<lfloor>val q\<rfloor>; r = val q - real i
     in if r < 1 / 2 then i else if 1 / 2 < r then Suc i else if even i then i else Suc i)"
proof -
  let ?i = "fst q div snd q"
  have i: "nat \<lfloor>val q\<rfloor> = ?i"
    by (simp add: val_def floor_divide_of_nat_eq)
  have r: "val q - real ?i = real (fst q mod snd q) / real (snd q)"
  proof -
    have "real (fst q) = real (snd q) * real ?i + real (fst q mod snd q)"
      by (metis div_mult_mod_eq mult.commute of_nat_add of_nat_mult)
    with assms show ?thesis by (simp add: val_def field_simps)
  qed
  have "(real (fst q mod snd q) / real (snd q) < 1 / 2) = (2 * (fst q mod snd q) < snd q)"
    and "(1 / 2 < real (fst q mod snd q) / real (snd q)) = (snd q < 2 * (fst q mod snd q))"
    using assms by (simp_all add: field_simps)
      (metis of_nat_less_iff of_nat_mult of_nat_numeral mult.commute)+
  with r have "(val q - real ?i < 1 / 2) = (2 * (fst q mod snd q) < snd q)"
    and "(1 / 2 < val q - real ?i) = (snd q < 2 * (fst q mod snd q))"
    by simp_all
  then show ?thesis unfolding round_half_even_def Let_def i by simp
qed

lemma round_mag_val:
  assumes "0 < snd q" and "0 < snd q'" and "val q = val q'"
  shows "round_mag q = round_mag q'"
proof (cases "fst q = 0")
  case True
  with assms have "fst q' = 0" by (simp add: val_def)
  with True show ?thesis by (simp add: round_mag_def)
next
  case False
  with assms(1) have "0 < val q" by (simp add: val_pos)
  with assms(3) False have False': "0 < fst q" "0 < fst q'"
    by (auto simp: val_def intro: gr0I)
  have log: "floor_log 2 q = floor_log 2 q'"
    using False' assms floor_log_spec [of 2 q'] by (intro floor_log_unique) simp_all
  have "round_half_even (descale 2 k q) = round_half_even (descale 2 k q')" for k
    using assms by (simp add: round_half_even_val val_descale)
  with log False' show ?thesis by (simp add: round_mag_def)
qed

lemma round_half_even_nat: "0 < snd q \<Longrightarrow> val q = real m \<Longrightarrow> round_half_even q = m"
  by (simp add: round_half_even_val)

text \<open>A bit pattern is the rounding of its own value.\<close>

lemma mag_bounds:
  assumes "b < mag_inf"
  shows "mag_mant b < 2 ^ 53" and "2 ^ 52 \<le> b \<Longrightarrow> 2 ^ 52 \<le> mag_mant b"
    and "b < 2 ^ 52 \<Longrightarrow> mag_exp b = - 1074" and "- 1074 \<le> mag_exp b" and "mag_exp b \<le> 971"
    and "nat (mag_exp b + 1074) * 2 ^ 52 + mag_mant b = b"
    and "mag_mant b = 0 \<longleftrightarrow> b = 0"
proof -
  have dm: "b = b div 2 ^ 52 * 2 ^ 52 + b mod 2 ^ 52" by simp
  show "nat (mag_exp b + 1074) * 2 ^ 52 + mag_mant b = b"
  proof (cases "b < 2 ^ 52")
    case False
    then obtain z where z: "b div 2 ^ 52 = Suc z"
      by (metis div_greater_zero_iff gr0_implies_Suc not_less zero_less_numeral zero_less_power)
    then have nz: "nat (mag_exp b + 1074) = z" by (simp add: mag_exp_def)
    have mm: "mag_mant b = 2 ^ 52 + b mod 2 ^ 52" using False by (simp add: mag_mant_def)
    from dm [unfolded z] show ?thesis unfolding nz mm
      by (metis (no_types) add.assoc add.commute mult_Suc)
  qed (simp add: mag_mant_def mag_exp_def)
qed (use assms in \<open>auto simp: mag_mant_def mag_exp_def mag_inf_def max_def\<close>)

lemma val_mag_value: "val (mag_value b) = real (mag_mant b) * 2 powi mag_exp b"
  by (simp add: mag_value_def val_ratio)

lemma snd_mag_value [simp]: "0 < snd (mag_value b)"
  by (simp add: mag_value_def)

theorem round_mag_value:
  assumes "b < mag_inf"
  shows "round_mag (mag_value b) = b"
proof (cases "b = 0")
  case True
  then show ?thesis by (simp add: round_mag_def mag_value_def mag_mant_def)
next
  case False
  let ?m = "mag_mant b" and ?e = "mag_exp b" and ?q = "mag_value b"
  note B = mag_bounds [OF assms]
  from False B(7) have m: "0 < ?m" by simp
  then have "fst ?q \<noteq> 0" by (simp add: mag_value_def)
  then have q: "0 < fst ?q" by simp
  note L = floor_log_spec [of 2 ?q, OF _ q snd_mag_value, simplified]
  have up: "floor_log 2 ?q \<le> ?e + 52"
  proof (rule ccontr)
    assume "\<not> ?thesis"
    then have "(2::real) powi (?e + 53) \<le> 2 powi floor_log 2 ?q" by (intro power_int_increasing) auto
    also have "\<dots> \<le> real ?m * 2 powi ?e" using L(1) by (simp add: val_mag_value)
    finally have "(2::real) ^ 53 \<le> real ?m" by (simp add: power_int_add)
    then have "2 ^ 53 \<le> ?m" by (metis of_nat_le_iff of_nat_numeral of_nat_power)
    with B(1) show False by simp
  qed
  have low: "floor_log 2 ?q = ?e + 52" if "2 ^ 52 \<le> b"
  proof (rule ccontr)
    assume "floor_log 2 ?q \<noteq> ?e + 52"
    with up have "(2::real) powi (floor_log 2 ?q + 1) \<le> 2 powi (?e + 52)" by (intro power_int_increasing) auto
    with L(2) have "real ?m * 2 powi ?e < 2 powi (?e + 52)" by (simp add: val_mag_value)
    then have "real ?m < 2 ^ 52" by (simp add: power_int_add)
    then have "?m < 2 ^ 52" by (metis of_nat_less_iff of_nat_numeral of_nat_power)
    with B(2) [OF that] show False by simp
  qed
  have ex: "max (- 1074) (floor_log 2 ?q - 52) = ?e"
    using up low B(3,4) by (cases "b < 2 ^ 52") auto
  have "round_half_even (descale 2 ?e ?q) = ?m"
    by (rule round_half_even_nat) (simp_all add: val_descale val_mag_value)
  with ex q B(6) show ?thesis by (simp add: round_mag_def Let_def)
qed

text \<open>Values too large round to infinity, values too small to zero.\<close>

lemma round_mag_overflow:
  assumes "0 < snd q" and "2 powi 1025 \<le> val q"
  shows "mag_inf \<le> round_mag q"
proof -
  have "(0::real) < 2 powi 1025" by simp
  with assms have "0 < val q" by linarith
  then have q: "0 < fst q" by (auto simp: val_def intro: gr0I)
  have "1025 \<le> floor_log 2 q"
  proof (rule ccontr)
    assume "\<not> ?thesis"
    then have "(2::real) powi (floor_log 2 q + 1) \<le> 2 powi 1025" by (intro power_int_increasing) auto
    with floor_log_spec(2) [of 2 q] q assms show False by simp
  qed
  then have "2047 \<le> nat (max (- 1074) (floor_log 2 q - 52) + 1074)" by simp
  then have "2047 * 2 ^ 52 \<le> nat (max (- 1074) (floor_log 2 q - 52) + 1074) * 2 ^ 52" by (intro mult_right_mono) simp_all
  then show ?thesis using q unfolding round_mag_def mag_inf_def Let_def by simp
qed

lemma round_mag_underflow:
  assumes "0 < snd q" and "val q < 2 powi (- 1076)"
  shows "round_mag q = 0"
proof (cases "fst q = 0")
  case False
  then have q: "0 < fst q" by simp
  have "floor_log 2 q < - 1076"
  proof (rule ccontr)
    assume "\<not> ?thesis"
    then have "(2::real) powi (- 1076) \<le> 2 powi (floor_log 2 q)" by (intro power_int_increasing) auto
    with floor_log_spec(1) [of 2 q] q assms show False by simp
  qed
  then have ex: "max (- 1074) (floor_log 2 q - 52) = - 1074" by simp
  have v: "val (descale 2 (- 1074) q) = val q * 2 powi 1074"
    using val_descale [of 2 q "- 1074"] assms(1)
    by (simp only: of_nat_numeral power_int_minus divide_inverse inverse_inverse_eq zero_less_numeral)
  have "val q * 2 powi 1074 < 2 powi (- 1076) * 2 powi 1074"
    using assms(2) by (intro mult_strict_right_mono) simp_all
  also have "\<dots> = (2::real) powi (- 2)" by (simp flip: power_int_add)
  finally have small: "val (descale 2 (- 1074) q) < 1 / 4" using v by (simp add: power_int_minus)
  have "0 \<le> val (descale 2 (- 1074) q)" by (simp add: val_def)
  with small have "\<lfloor>val (descale 2 (- 1074) q)\<rfloor> = 0" by (simp add: floor_eq_iff)
  with small have "round_half_even (descale 2 (- 1074) q) = 0"
    using assms(1) by (simp add: round_half_even_val Let_def)
  with ex show ?thesis by (simp add: round_mag_def Let_def)
qed (simp add: round_mag_def)

section \<open>The shortest digits read back\<close>

lemma strip_zeros_val: "strip_zeros c k = (c', k') \<Longrightarrow> real c' * 10 powi k' = real c * 10 powi k"
proof (induction c k rule: strip_zeros.induct)
  case (1 c k)
  show ?case
  proof (cases "c = 0 \<or> c mod 10 \<noteq> 0")
    case True
    with 1 show ?thesis by (simp add: strip_zeros.simps [of c k])
  next
    case False
    then have "real c = real (c div 10) * 10" by (simp add: real_of_nat_div mod_eq_0_iff_dvd)
    moreover have "real c' * 10 powi k' = real (c div 10) * 10 powi (k + 1)"
      using 1 False by (simp add: strip_zeros.simps [of c k])
    ultimately show ?thesis by (simp add: power_int_add)
  qed
qed

lemma strip_zeros_pos: "0 < c \<Longrightarrow> strip_zeros c k = (c', k') \<Longrightarrow> 0 < c'"
  using strip_zeros_val [of c k c' k'] by (cases "c' = 0") auto

lemma candidate_reads_back: "candidate b k = Some c \<Longrightarrow> round_mag (ratio 10 c k) = b"
  by (auto simp: candidate_def Let_def split: if_splits)

lemma shortest_search_reads_back:
  "shortest_search n b k = Some (c, k') \<Longrightarrow> round_mag (ratio 10 c k') = b"
  by (induction n arbitrary: k) (auto split: option.splits dest: candidate_reads_back)

lemma exact_decimal_val: "exact_decimal b = (c, k) \<Longrightarrow> val (ratio 10 c k) = val (mag_value b)"
proof -
  assume e: "exact_decimal b = (c, k)"
  show ?thesis
  proof (cases "0 \<le> mag_exp b")
    case True
    with e show ?thesis by (auto simp: exact_decimal_def val_ratio val_mag_value power_int_def)
  next
    case False
    then have "(10::real) powi mag_exp b = 5 powi mag_exp b * 2 powi mag_exp b"
      by (simp flip: power_int_mult_distrib)
    moreover from False have "(5::real) ^ nat (- mag_exp b) * 5 powi mag_exp b = 1"
      by (simp add: power_int_def field_simps)
    ultimately show ?thesis using e False by (auto simp: exact_decimal_def val_ratio val_mag_value)
  qed
qed

theorem shortest_reads_back:
  assumes "b < mag_inf" and "shortest b = (c, k)"
  shows "round_mag (ratio 10 c k) = b"
proof (cases "b = 0")
  case True
  with assms show ?thesis by (simp add: shortest_def round_mag_def ratio_def)
next
  case False
  obtain c0 k0 where d: "(case shortest_search 17 b (floor_log 10 (mag_value b)) of
      Some ck \<Rightarrow> ck | None \<Rightarrow> exact_decimal b) = (c0, k0)" by (metis surj_pair)
  have "round_mag (ratio 10 c0 k0) = b"
  proof (cases "shortest_search 17 b (floor_log 10 (mag_value b))")
    case None
    with d have "val (ratio 10 c0 k0) = val (mag_value b)" by (simp add: exact_decimal_val)
    with round_mag_value [OF assms(1)] show ?thesis by (metis round_mag_val snd_mag_value snd_ratio zero_less_numeral)
  next
    case (Some ck)
    with d show ?thesis by (auto dest: shortest_search_reads_back)
  qed
  moreover have "strip_zeros c0 k0 = (c, k)"
    using assms(2) False d unfolding shortest_def by simp
  then have "val (ratio 10 c k) = val (ratio 10 c0 k0)"
    using strip_zeros_val by (simp add: val_ratio)
  then have "round_mag (ratio 10 c k) = round_mag (ratio 10 c0 k0)"
    by (intro round_mag_val) simp_all
  ultimately show ?thesis by simp
qed

lemma shortest_zero [simp]: "shortest 0 = (0, 0)"
  by (simp add: shortest_def)

lemma shortest_pos:
  assumes "0 < b" and "b < mag_inf" and "shortest b = (c, k)"
  shows "0 < c"
proof (rule ccontr)
  assume "\<not> 0 < c"
  then have "round_mag (ratio 10 c k) = 0" by (simp add: round_mag_def)
  with shortest_reads_back [OF assms(2,3)] assms(1) show False by simp
qed

text \<open>The decimal exponent of a finite nonzero value is far from the cap of the parser.\<close>

lemma show_nat_bounds: "0 < c \<Longrightarrow> 10 ^ (length (show_nat c) - 1) \<le> c \<and> c < 10 ^ length (show_nat c)"
proof (induction c rule: show_nat.induct)
  case (1 n)
  show ?case
  proof (cases "n < 10")
    case True
    with 1 show ?thesis by (simp add: show_nat.simps [of n])
  next
    case False
    then have "0 < n div 10" by simp
    with 1 False have IH: "10 ^ (length (show_nat (n div 10)) - 1) \<le> n div 10" "n div 10 < 10 ^ length (show_nat (n div 10))"
      by simp_all
    have "0 < length (show_nat (n div 10))" by simp
    then obtain l where l: "length (show_nat (n div 10)) = Suc l" using gr0_implies_Suc by blast
    with IH False show ?thesis by (simp add: show_nat.simps [of n]) linarith
  qed
qed

lemma decimal_exponent_bound:
  assumes "0 < c" and "round_mag (ratio 10 c k) = b" and "0 < b" and "b < mag_inf"
  shows "\<bar>k + int (length (show_nat c)) - 1\<bar> < 2000"
proof -
  let ?l = "length (show_nat c)" and ?x = "k + int (length (show_nat c)) - 1"
  obtain l where l: "?l = Suc l" by (metis length_0_conv not0_implies_Suc show_nat_nonempty)
  have c: "10 ^ (?l - 1) \<le> real c" "real c < 10 ^ ?l"
    using show_nat_bounds [OF assms(1)]
    by (metis of_nat_le_iff of_nat_numeral of_nat_power) (metis show_nat_bounds [OF assms(1)] of_nat_less_iff of_nat_numeral of_nat_power)
  have v: "val (ratio 10 c k) = real c * 10 powi k" by (simp add: val_ratio)
  have low: "10 powi ?x \<le> val (ratio 10 c k)"
  proof -
    have "(10::real) powi ?x = 10 ^ (?l - 1) * 10 powi k"
      by (simp add: l power_int_add)
    also have "\<dots> \<le> real c * 10 powi k" using c by (intro mult_right_mono) simp_all
    finally show ?thesis by (simp add: v)
  qed
  have up: "val (ratio 10 c k) < 10 powi (?x + 1)"
  proof -
    have "real c * 10 powi k < 10 ^ ?l * 10 powi k" using c by (intro mult_strict_right_mono) simp_all
    also have "\<dots> = (10::real) powi (?x + 1)" by (simp add: power_int_add)
    finally show ?thesis by (simp add: v)
  qed
  have "?x < 2000"
  proof (rule ccontr)
    assume "\<not> ?thesis"
    then have "(10::real) powi 2000 \<le> 10 powi ?x" by (intro power_int_increasing) simp_all
    moreover have "(2::real) powi 1025 \<le> 2 powi 2000" by (intro power_int_increasing) simp_all
    moreover have "(2::real) powi 2000 \<le> 10 powi 2000" by (intro power_int_mono) simp_all
    ultimately have "2 powi 1025 \<le> val (ratio 10 c k)" using low by linarith
    with round_mag_overflow [of "ratio 10 c k"] assms show False by simp
  qed
  moreover have "- 2000 < ?x"
  proof (rule ccontr)
    assume "\<not> ?thesis"
    then have "(10::real) powi (?x + 1) \<le> 10 powi (- 1999)" by (intro power_int_increasing) simp_all
    moreover have "(10::real) powi (- 1999) \<le> 2 powi (- 1999)"
      unfolding power_int_minus by (intro le_imp_inverse_le power_int_mono) simp_all
    moreover have "(2::real) powi (- 1999) \<le> 2 powi (- 1076)" by (intro power_int_increasing) simp_all
    ultimately have "val (ratio 10 c k) < 2 powi (- 1076)" using up by linarith
    with round_mag_underflow [of "ratio 10 c k"] assms show False by simp
  qed
  ultimately show ?thesis by simp
qed

end
