(* ===== verification/Go_Float_Text.thy ===== *)
theory Go_Float_Text
  imports Go_Float_Facts
begin

text \<open>
  The text forms of a finite \<open>float64\<close> and their parser: \<open>ParseFloat\<close> on a decimal
  text computes the rounding of the number it writes, so formats \<open>'f'\<close> and \<open>'e'\<close>
  of the shortest digits read back as the value (\<open>ParseFloat_FormatF\<close>,
  \<open>ParseFloat_fmt_e\<close>).
\<close>

section \<open>Characters of numbers\<close>

definition num_char :: "char \<Rightarrow> bool" where
  "num_char c \<longleftrightarrow> is_digit c \<or> c \<in> set ''.e+-''"

lemma lower_digit [simp]: "is_digit c \<Longrightarrow> lower c = c"
  by (auto simp: lower_def is_digit_def)

lemma lower_num_char: "num_char c \<Longrightarrow> lower c = c"
  by (auto simp: num_char_def lower_def is_digit_def)

lemma hex_val_digit [simp]: "is_digit c \<Longrightarrow> hex_val c = digit_val c"
  by (simp add: hex_val_def)

lemma num_char_not [simp]: "\<not> num_char CHR ''x''" "\<not> num_char CHR ''i''" "\<not> num_char CHR ''n''"
    "\<not> num_char CHR ''_''" "\<not> num_char CHR '',''" "\<not> num_char CHR ''}''" "\<not> num_char CHR '']''"
    "\<not> num_char CHR 0x22" "\<not> num_char CHR ''{''"
  by (simp_all add: num_char_def is_digit_def)

lemma digit_num_char: "is_digit c \<Longrightarrow> num_char c"
  by (simp add: num_char_def)

lemma is_digit_not_us [simp]: "is_digit c \<Longrightarrow> c \<noteq> CHR ''_''" "is_digit c \<Longrightarrow> c \<noteq> CHR ''.''"
    "is_digit c \<Longrightarrow> c \<noteq> CHR ''+''" "is_digit c \<Longrightarrow> c \<noteq> CHR ''-''" "is_digit c \<Longrightarrow> c \<noteq> CHR ''e''"
  by (auto simp: is_digit_def)

lemma special_None:
  assumes "\<forall>c \<in> set s. num_char c"
  shows "special s = None"
proof -
  have sub: "set (drop_sign s) \<subseteq> set s"
    by (auto simp: drop_sign_def split: list.splits)
  have "map lower t = t" if "set t \<subseteq> set s" for t
    using assms that by (intro map_idI) (auto intro: lower_num_char)
  with sub have "map lower (drop_sign s) = drop_sign s" "map lower s = s" by auto
  moreover have "CHR ''i'' \<notin> set (drop_sign s)" "CHR ''n'' \<notin> set s"
    using assms sub num_char_not by blast+
  ultimately show ?thesis by (auto simp: special_def Let_def)
qed

lemma not_hex_prefix:
  assumes "\<forall>c \<in> set s. num_char c"
  shows "\<not> is_hex_prefix s"
proof
  assume "is_hex_prefix s"
  then obtain z x y t where s: "s = z # x # y # t" and "lower x = CHR ''x''"
    by (auto simp: is_hex_prefix_def split: list.splits)
  moreover from assms s have "lower x = x" "num_char x" by (auto intro: lower_num_char)
  ultimately show False by simp
qed

section \<open>The loops of the parser on digits\<close>

lemma read_mantissa_digits:
  "\<forall>c \<in> set cs. is_digit c \<Longrightarrow>
   read_mantissa False dot m fr dg un (cs @ t) =
     read_mantissa False dot (digits_val m cs) (if dot then fr + length cs else fr) (dg \<or> cs \<noteq> []) un t"
proof (induction cs arbitrary: m fr dg)
  case (Cons c cs)
  then show ?case by auto
qed simp

lemma read_mantissa_stop:
  "t = [] \<or> hd t = CHR ''e'' \<Longrightarrow>
   read_mantissa False dot m fr dg un t =
     \<lparr>m_int = m, m_frac = fr, m_digits = dg, m_under = un, m_rest = t\<rparr>"
  by (cases t) auto

definition frac_text :: "bytes \<Rightarrow> bytes" where
  "frac_text fd = (if fd = [] then [] else CHR ''.'' # fd)"

lemma read_mantissa_decimal:
  assumes "\<forall>c \<in> set ip. is_digit c" and "\<forall>c \<in> set fd. is_digit c" and "ip \<noteq> []"
    and "t = [] \<or> hd t = CHR ''e''"
  shows "read_mantissa False False 0 0 False False (ip @ frac_text fd @ t) =
    \<lparr>m_int = digits_val 0 (ip @ fd), m_frac = length fd, m_digits = True, m_under = False, m_rest = t\<rparr>"
proof (cases "fd = []")
  case True
  with assms show ?thesis by (simp add: frac_text_def read_mantissa_digits read_mantissa_stop)
next
  case False
  with assms have "read_mantissa False False 0 0 False False (ip @ frac_text fd @ t) =
      read_mantissa False True (digits_val 0 ip) 0 True False (fd @ t)"
    by (simp add: frac_text_def read_mantissa_digits)
  also have "\<dots> = \<lparr>m_int = digits_val (digits_val 0 ip) fd, m_frac = length fd, m_digits = True,
      m_under = False, m_rest = t\<rparr>"
    using assms by (simp add: read_mantissa_digits read_mantissa_stop)
  finally show ?thesis by simp
qed

lemma read_exp_digits:
  "\<forall>c \<in> set cs. is_digit c \<Longrightarrow> digits_val e cs < 100000 \<Longrightarrow> read_exp e un cs = (digits_val e cs, un, [])"
proof (induction cs arbitrary: e)
  case (Cons c cs)
  have "e * 10 \<le> digits_val e (c # cs)" using digits_val_ge [of "e * 10 + digit_val c" cs] by simp
  with Cons show ?case by auto
qed simp

definition exp_text :: "int \<Rightarrow> bytes \<Rightarrow> bytes" where
  "exp_text x ds = CHR ''e'' # (if x < 0 then CHR ''-'' else CHR ''+'') # ds"

lemma read_exponent_text:
  assumes "\<forall>c \<in> set ds. is_digit c" and "ds \<noteq> []" and "digits_val 0 ds = nat \<bar>x\<bar>" and "\<bar>x\<bar> < 100000"
  shows "read_exponent False (exp_text x ds) = Some (x, False, [])"
proof -
  have "lower CHR ''e'' = CHR ''e''" by (rule lower_num_char) (simp add: num_char_def)
  moreover have "is_digit (hd ds)" using assms(1,2) by simp
  ultimately show ?thesis
    using assms by (simp add: read_exponent_def exp_text_def has_minus_def drop_sign_def read_exp_digits)
qed

text \<open>\<open>ParseFloat\<close> on a decimal text is the rounding of the number it denotes.\<close>

definition sign_text :: "bool \<Rightarrow> bytes" where
  "sign_text neg = (if neg then ''-'' else [])"

theorem ParseFloat_decimal:
  assumes ip: "\<forall>c \<in> set ip. is_digit c" "ip \<noteq> []" and fd: "\<forall>c \<in> set fd. is_digit c"
    and ex: "ex = [] \<and> e = 0 \<or> (\<exists>ds. ex = exp_text e ds \<and> (\<forall>c \<in> set ds. is_digit c) \<and> ds \<noteq> [] \<and>
      digits_val 0 ds = nat \<bar>e\<bar> \<and> \<bar>e\<bar> < 100000)"
  shows "ParseFloat (sign_text neg @ ip @ frac_text fd @ ex) =
    overflow_check neg (round_mag (ratio 10 (digits_val 0 (ip @ fd)) (e - int (length fd))))"
proof -
  let ?u = "ip @ frac_text fd @ ex"
  have ex_chars: "\<forall>c \<in> set ex. num_char c" and stop: "ex = [] \<or> hd ex = CHR ''e''"
    using ex by (auto simp: exp_text_def num_char_def)
  then have u: "\<forall>c \<in> set ?u. num_char c"
    using ip fd by (auto simp: frac_text_def num_char_def)
  then have all: "\<forall>c \<in> set (sign_text neg @ ?u). num_char c"
    by (auto simp: sign_text_def num_char_def)
  have sign: "drop_sign (sign_text neg @ ?u) = ?u" "has_minus (sign_text neg @ ?u) = neg"
    using ip by (cases ip; auto simp: sign_text_def drop_sign_def has_minus_def)+
  have exponent: "read_exponent False ex = Some (e, False, [])"
    using ex by (auto simp: read_exponent_text) (simp add: read_exponent_def)
  have "readFloat (sign_text neg @ ?u) =
      overflow_check neg (round_mag (ratio 10 (digits_val 0 (ip @ fd)) (e - int (length fd))))"
    unfolding readFloat_def sign
    using not_hex_prefix [OF u] read_mantissa_decimal [OF ip(1) fd ip(2) stop] exponent
    by (simp add: Let_def)
  with special_None [OF all] show ?thesis by (simp add: ParseFloat_def)
qed

section \<open>Formats\<close>

lemma f64_make_parts [simp]: "f64_make (f64_neg f) (f64_mag f) = f"
proof -
  have lt: "unat f < 2 ^ 64" using unsigned_less [of f] by simp
  have "(if f64_neg f then 2 ^ 63 + f64_mag f else f64_mag f) = unat f"
  proof (cases "2 ^ 63 \<le> unat f")
    case True
    with lt have "unat f mod 2 ^ 63 = unat f - 2 ^ 63"
      by (simp add: le_mod_geq)
    with True show ?thesis by (simp add: f64_neg_def f64_mag_def)
  qed (simp add: f64_neg_def f64_mag_def)
  then show ?thesis by (simp add: f64_make_def)
qed

lemma overflow_check_finite [simp]: "is_finite f \<Longrightarrow> overflow_check (f64_neg f) (f64_mag f) = Inr f"
  by (simp add: overflow_check_def is_finite_def)

lemma pad_left_digits:
  "\<forall>c \<in> set (pad_left n (show_nat m)). is_digit c" "digits_val 0 (pad_left n (show_nat m)) = m"
  "pad_left n (show_nat m) \<noteq> []"
proof -
  have z: "is_digit CHR ''0''" "digit_val CHR ''0'' = 0" by (simp_all add: is_digit_def digit_val_def)
  have "digits_val 0 (replicate j CHR ''0'') = 0" for j
    by (induction j) (simp_all add: z)
  then show "digits_val 0 (pad_left n (show_nat m)) = m" by (simp add: pad_left_def)
  show "\<forall>c \<in> set (pad_left n (show_nat m)). is_digit c"
    using show_nat_digits z by (auto simp: pad_left_def)
qed (simp add: pad_left_def)

lemma length_pad_left: "m < 10 ^ n \<Longrightarrow> length (pad_left n (show_nat m)) = max n 1"
proof -
  assume m: "m < 10 ^ n"
  show ?thesis
  proof (cases "m = 0")
    case True
    then show ?thesis by (simp add: pad_left_def)
  next
    case False
    then have "(10::nat) ^ (length (show_nat m) - 1) < 10 ^ n"
      using show_nat_bounds [of m] m by linarith
    then have "length (show_nat m) - 1 < n" by simp
    moreover have "0 < length (show_nat m)" by simp
    ultimately show ?thesis by (simp add: pad_left_def)
  qed
qed

text \<open>Format \<open>'f'\<close> writes the number it is given.\<close>

lemma ParseFloat_fmt_f:
  "ParseFloat (sign_text neg @ fmt_f c k) = overflow_check neg (round_mag (ratio 10 c k))"
proof (cases "0 \<le> k")
  case True
  have "ratio 10 (c * 10 ^ nat k) 0 = ratio 10 c k" using True by (simp add: ratio_def)
  with True ParseFloat_decimal [of "show_nat (c * 10 ^ nat k)" "[]" "[]" 0 neg] show_nat_digits
  show ?thesis by (simp add: fmt_f_def frac_text_def)
next
  case False
  let ?p = "10 ^ nat (- k) :: nat" and ?fd = "pad_left (nat (- k)) (show_nat (c mod 10 ^ nat (- k)))"
  have len: "length ?fd = nat (- k)" using False by (simp add: length_pad_left)
  have "digits_val 0 (show_nat (c div ?p) @ ?fd) = c"
    using digits_val_shift [of "c div ?p" ?fd] len pad_left_digits(2) div_mult_mod_eq [of c ?p]
    by (simp del: div_mult_mod_eq)
  moreover have "frac_text ?fd = CHR ''.'' # ?fd" using pad_left_digits(3) by (simp add: frac_text_def)
  ultimately show ?thesis
    using False len ParseFloat_decimal [of "show_nat (c div ?p)" ?fd "[]" 0 neg] show_nat_digits pad_left_digits(1)
    by (simp add: fmt_f_def Let_def)
qed

lemma fmt_e_text:
  "fmt_e w c k = [hd (show_nat c)] @ frac_text (tl (show_nat c)) @
     exp_text (k + int (length (show_nat c)) - 1)
       (pad_left w (show_nat (nat \<bar>k + int (length (show_nat c)) - 1\<bar>)))"
  by (simp add: fmt_e_def frac_text_def exp_text_def Let_def)

lemma ParseFloat_fmt_e:
  assumes "\<bar>k + int (length (show_nat c)) - 1\<bar> < 100000"
  shows "ParseFloat (sign_text neg @ fmt_e w c k) = overflow_check neg (round_mag (ratio 10 c k))"
proof -
  let ?ds = "show_nat c" and ?x = "k + int (length (show_nat c)) - 1"
  have ds: "\<forall>x \<in> set [hd ?ds]. is_digit x" "\<forall>x \<in> set (tl ?ds). is_digit x"
    using show_nat_digits list.set_sel(2) [OF show_nat_nonempty] by auto
  have e: "?x - int (length (tl ?ds)) = k" by (simp add: of_nat_diff Suc_leI)
  from ParseFloat_decimal [OF ds(1) _ ds(2), of "exp_text ?x (pad_left w (show_nat (nat \<bar>?x\<bar>)))" ?x neg]
    assms pad_left_digits
  have "ParseFloat (sign_text neg @ fmt_e w c k) =
      overflow_check neg (round_mag (ratio 10 (digits_val 0 ([hd ?ds] @ tl ?ds)) (?x - int (length (tl ?ds)))))"
    unfolding fmt_e_text by blast
  also have "[hd ?ds] @ tl ?ds = ?ds" by simp
  finally show ?thesis by (simp only: e digits_val_show_nat)
qed

lemma with_sign_text: "with_sign f s = sign_text (f64_neg f) @ s"
  by (simp add: with_sign_def sign_text_def)

theorem ParseFloat_FormatF [lib_simps]:
  assumes "is_finite f"
  shows "ParseFloat (FormatF f) = Inr f"
proof -
  obtain c k where ck: "shortest (f64_mag f) = (c, k)" by (cases "shortest (f64_mag f)")
  from assms ck have "round_mag (ratio 10 c k) = f64_mag f"
    by (simp add: is_finite_def shortest_reads_back)
  moreover from assms have "\<not> is_nan f" "\<not> is_inf f" by (auto simp: is_finite_def is_nan_def is_inf_def)
  ultimately show ?thesis using assms ck by (simp add: FormatF_def with_sign_text ParseFloat_fmt_f)
qed

end
