(* ===== verification/Go_Json_Facts.thy ===== *)
theory Go_Json_Facts
  imports Go_Json Go_Float_Text
begin

text \<open>
  The encoder and the decoder of \<open>Go_Json\<close> agree: a quoted UTF-8 string, a number and an
  object of numbers read back as what was written. The locale \<open>json_codec\<close> states what
  the values' encoder and decoder promise each other; it is interpreted on gauges and on
  counters.
\<close>

section \<open>Strings\<close>

fun valid_utf8 :: "nat \<Rightarrow> bytes \<Rightarrow> bool" where
  "valid_utf8 0 s = (s = [])"
| "valid_utf8 (Suc n) s =
     (case s of [] \<Rightarrow> True
      | c # t \<Rightarrow> if (of_char c :: nat) < 128 then valid_utf8 n t
                 else 0 < utf8_len s \<and> valid_utf8 n (drop (utf8_len s) s))"

definition utf8_name :: "bytes \<Rightarrow> bool" where
  "utf8_name s = valid_utf8 (length s) s"

lemma utf8_len_shapes [consumes 1, case_names two three four]:
  assumes "0 < utf8_len s"
  obtains a b t where "s = a # b # t" "utf8_len s = 2" "\<And>u. utf8_len (a # b # u) = 2"
    | a b c t where "s = a # b # c # t" "utf8_len s = 3" "\<And>u. utf8_len (a # b # c # u) = 3"
    | a b c d t where "s = a # b # c # d # t" "utf8_len s = 4" "\<And>u. utf8_len (a # b # c # d # u) = 4"
proof -
  from assms obtain a b t where s: "s = a # b # t"
    by (auto simp: utf8_len_def split: list.splits)
  consider "byte_in 0xC2 0xDF a"
    | "\<not> byte_in 0xC2 0xDF a" "byte_in 0xE0 0xEF a"
    | "\<not> byte_in 0xC2 0xDF a" "\<not> byte_in 0xE0 0xEF a" "byte_in 0xF0 0xF4 a"
    using assms s by (auto simp: utf8_len_def split: if_splits)
  then show ?thesis
  proof cases
    case 1
    with assms s that(1) [of a b t] show ?thesis by (simp add: utf8_len_def split: if_splits)
  next
    case 2
    with assms s obtain c u where "t = c # u" by (cases t) (auto simp: utf8_len_def)
    with 2 assms s that(2) [of a b c u] show ?thesis by (simp add: utf8_len_def split: if_splits)
  next
    case 3
    with assms s obtain c d u where "t = c # d # u"
      by (cases t; cases "tl t") (auto simp: utf8_len_def)
    with 3 assms s that(3) [of a b c d u] show ?thesis by (simp add: utf8_len_def split: if_splits)
  qed
qed

lemma utf8_len_take: "0 < utf8_len s \<Longrightarrow> utf8_len (take (utf8_len s) s @ x) = utf8_len s"
  by (cases s rule: utf8_len_shapes) simp_all

lemma utf8_len_bounds: "0 < utf8_len s \<Longrightarrow> 2 \<le> utf8_len s \<and> utf8_len s \<le> length s"
  by (cases s rule: utf8_len_shapes) simp_all

lemma hex_digit_ok: "d < 16 \<Longrightarrow> is_hex (hex_digit d) \<and> hex_val (hex_digit d) = d"
proof -
  assume d: "d < 16"
  show ?thesis
  proof (cases "d < 10")
    case True
    then have "hex_digit d = digit_char d" by (simp add: hex_digit_def digit_char_def)
    with True show ?thesis by (simp add: is_hex_def)
  next
    case False
    with d have "(of_char (hex_digit d) :: nat) = 87 + d" by (simp add: hex_digit_def)
    with d False show ?thesis
      by (auto simp: is_hex_def is_hex_letter_def hex_val_def is_digit_def lower_def)
  qed
qed

lemma char_eq_iff_nat: "c = d \<longleftrightarrow> (of_char c :: nat) = of_char d"
  by simp

lemma scan_escape:
  assumes "(of_char c :: nat) < 128"
  shows "scan_string (Suc f) (escape_byte c @ x) = map_option (apfst (Cons c)) (scan_string f x)"
proof -
  have c: "c = char_of (of_char c :: nat)" by simp
  consider (q) "c = CHR 0x22 \<or> c = CHR 0x5C"
    | (s) "(of_char c :: nat) \<in> {8, 12, 10, 13, 9}"
    | (u) "(of_char c :: nat) < 32 \<or> c \<in> {CHR ''<'', CHR ''>'', CHR ''&''}"
          "(of_char c :: nat) \<notin> {8, 12, 10, 13, 9}" "c \<noteq> CHR 0x22" "c \<noteq> CHR 0x5C"
    | (p) "32 \<le> (of_char c :: nat)" "c \<notin> {CHR ''<'', CHR ''>'', CHR ''&''}" "c \<noteq> CHR 0x22" "c \<noteq> CHR 0x5C"
    by fastforce
  then show ?thesis
  proof cases
    case q
    then show ?thesis by (auto simp: escape_byte_def simple_escape_def)
  next
    case s
    with c have "c = char_of (8::nat) \<or> c = char_of (12::nat) \<or> c = char_of (10::nat) \<or>
        c = char_of (13::nat) \<or> c = char_of (9::nat)"
      by (metis insert_iff empty_iff)
    then show ?thesis by (elim disjE) (simp_all add: escape_byte_def simple_escape_def)
  next
    case u
    let ?b = "of_char c :: nat"
    have d: "?b div 16 < 16" "?b mod 16 < 16" using assms by simp_all
    have z: "is_hex CHR ''0''" "hex_val CHR ''0'' = 0"
      by (simp_all add: is_hex_def is_digit_def hex_val_def digit_val_def)
    from u have "escape_byte c = [CHR 0x5C, CHR ''u'', CHR ''0'', CHR ''0'', hex_digit (?b div 16), hex_digit (?b mod 16)]"
      by (auto simp: escape_byte_def Let_def)
    moreover have "hex4 (CHR ''0'' # CHR ''0'' # hex_digit (?b div 16) # hex_digit (?b mod 16) # x) = Some ?b"
      using hex_digit_ok [OF d(1)] hex_digit_ok [OF d(2)] z by (simp add: hex4_def)
    moreover have "encode_rune ?b = [c]" using assms by (simp add: encode_rune_def)
    moreover have "append [c] = Cons c" by (rule ext) simp
    ultimately show ?thesis using assms by (simp add: simple_escape_def Let_def)
  next
    case p
    then have "escape_byte c = [c]" by (auto simp: escape_byte_def Let_def)
    with p assms show ?thesis by simp
  qed
qed

lemma scan_u2028: "scan_string (Suc f) (CHR 0x5C # ''u2028'' @ x) =
    map_option (apfst (append (encode_rune 0x2028))) (scan_string f x)"
  and scan_u2029: "scan_string (Suc f) (CHR 0x5C # ''u2029'' @ x) =
    map_option (apfst (append (encode_rune 0x2029))) (scan_string f x)"
proof -
  have "hex4 (''2028'' @ x) = Some 0x2028" "hex4 (''2029'' @ x) = Some 0x2029"
    by (simp_all add: hex4_def is_hex_def is_digit_def hex_val_def digit_val_def)
  then show "scan_string (Suc f) (CHR 0x5C # ''u2028'' @ x) =
      map_option (apfst (append (encode_rune 0x2028))) (scan_string f x)"
    and "scan_string (Suc f) (CHR 0x5C # ''u2029'' @ x) =
      map_option (apfst (append (encode_rune 0x2029))) (scan_string f x)"
    by (simp_all add: simple_escape_def Let_def)
qed

lemma scan_multibyte:
  assumes "\<not> (of_char (hd s) :: nat) < 128" and "0 < utf8_len s"
  shows "scan_string (Suc f) (take (utf8_len s) s @ x) =
    map_option (apfst (append (take (utf8_len s) s))) (scan_string f x)"
proof -
  let ?k = "utf8_len s"
  note B = utf8_len_bounds [OF assms(2)]
  then obtain c t where s: "s = c # t" by (cases s) auto
  let ?u = "take (?k - Suc 0) t @ x"
  from B s have tk: "take ?k s @ x = c # ?u" by (cases ?k) auto
  have len: "utf8_len (c # ?u) = ?k"
    using utf8_len_take [OF assms(2), of x] tk by simp
  have "take ?k (take ?k s @ x) = take ?k s" "drop ?k (take ?k s @ x) = x"
    using B by simp_all
  then have td: "take ?k (c # ?u) = take ?k s" "drop ?k (c # ?u) = x" unfolding tk by simp_all
  from assms(1) s have hi: "\<not> (of_char c :: nat) < 128" by simp
  then have "c \<noteq> CHR 0x22" "c \<noteq> CHR 0x5C" "\<not> (of_char c :: nat) < 32" by auto
  with hi assms(2) show ?thesis
    unfolding tk scan_string.simps list.case len Let_def td by simp
qed

lemma scan_end: "scan_string (Suc f) (CHR 0x22 # rest) = Some ([], rest)"
  by simp

declare scan_string.simps(2) [simp del]

text \<open>A quoted string reads back.\<close>

lemma scan_quote:
  "valid_utf8 n s \<Longrightarrow> length (quote_body n s) < f \<Longrightarrow>
   scan_string f (quote_body n s @ CHR 0x22 # rest) = Some (s, rest)"
proof (induction n arbitrary: s f)
  case 0
  then show ?case by (cases f) (auto simp: scan_end)
next
  case (Suc n)
  from Suc.prems(2) obtain f' where f: "f = Suc f'" by (cases f) auto
  show ?case
  proof (cases s)
    case Nil
    with f show ?thesis by (simp add: scan_end)
  next
    case (Cons c t)
    show ?thesis
    proof (cases "(of_char c :: nat) < 128")
      case True
      have "0 < length (escape_byte c)" by (simp add: escape_byte_def Let_def)
      moreover have "length (escape_byte c) + length (quote_body n t) < Suc f'"
        using Suc.prems Cons True f by simp
      ultimately have "length (quote_body n t) < f'" by linarith
      with Suc Cons True f show ?thesis by (simp add: scan_escape)
    next
      case False
      let ?k = "utf8_len s"
      from Suc.prems(1) Cons False have k: "0 < ?k" "valid_utf8 n (drop ?k s)" by auto
      note B = utf8_len_bounds [OF k(1)]
      define chunk where "chunk = (if take ?k s = encode_rune 0x2028 then CHR 0x5C # ''u2028''
        else if take ?k s = encode_rune 0x2029 then CHR 0x5C # ''u2029'' else take ?k s)"
      have body: "quote_body (Suc n) s = chunk @ quote_body n (drop ?k s)"
        using Cons False k by (simp add: Let_def chunk_def)
      have "0 < length chunk" using B by (auto simp: chunk_def)
      moreover have "length chunk + length (quote_body n (drop ?k s)) < Suc f'"
        using Suc.prems(2) unfolding body f by simp
      ultimately have fuel: "length (quote_body n (drop ?k s)) < f'" by linarith
      have "scan_string (Suc f') (chunk @ x) = map_option (apfst (append (take ?k s))) (scan_string f' x)" for x
        using scan_multibyte [of s f' x] scan_u2028 [of f' x] scan_u2029 [of f' x] False k(1) Cons
        by (simp add: chunk_def)
      from this [of "quote_body n (drop ?k s) @ CHR 0x22 # rest"] Suc.IH [OF k(2) fuel]
      show ?thesis unfolding body f by simp
    qed
  qed
qed

section \<open>Numbers\<close>

text \<open>A text that reads as one number wherever a number can end.\<close>

definition ends_number :: "bytes \<Rightarrow> bool" where
  "ends_number t \<longleftrightarrow> t = [] \<or> \<not> num_char (hd t) \<and> hd t \<noteq> CHR ''E''"

definition number_text :: "bytes \<Rightarrow> bool" where
  "number_text s \<longleftrightarrow> s \<noteq> [] \<and> (hd s = CHR ''-'' \<or> is_digit (hd s)) \<and> (\<forall>c \<in> set s. num_char c) \<and>
     (\<forall>t. ends_number t \<longrightarrow> scan_number (s @ t) = Some (s, t))"

definition plain_int :: "bytes \<Rightarrow> bool" where
  "plain_int ip \<longleftrightarrow> ip \<noteq> [] \<and> (\<forall>c \<in> set ip. is_digit c) \<and> (hd ip = CHR ''0'' \<longrightarrow> ip = ''0'')"

definition exp_part :: "bytes \<Rightarrow> bool" where
  "exp_part ex \<longleftrightarrow> ex = [] \<or> (\<exists>e ds. ex = exp_text e ds \<and> ds \<noteq> [] \<and> (\<forall>c \<in> set ds. is_digit c))"

lemma takeWhile_run: "\<forall>c \<in> set ds. P c \<Longrightarrow> t = [] \<or> \<not> P (hd t) \<Longrightarrow>
   takeWhile P (ds @ t) = ds \<and> dropWhile P (ds @ t) = t"
  by (cases t) (auto simp: takeWhile_append2 dropWhile_append2)

lemma scan_digits_run:
  "\<forall>c \<in> set ds. is_digit c \<Longrightarrow> ds \<noteq> [] \<Longrightarrow> t = [] \<or> \<not> is_digit (hd t) \<Longrightarrow> scan_digits (ds @ t) = Some (ds, t)"
  using takeWhile_run [of ds is_digit t] by (simp add: scan_digits_def)

lemma ends_number_digit: "ends_number t \<Longrightarrow> t = [] \<or> \<not> is_digit (hd t)"
  by (auto simp: ends_number_def digit_num_char)

lemma scan_exp_part:
  assumes "exp_part ex" and "ends_number t"
  shows "scan_exp (ex @ t) = Some (ex, t)"
proof (cases "ex = []")
  case True
  with assms(2) show ?thesis
    by (cases t) (auto simp: scan_exp_def ends_number_def num_char_def)
next
  case False
  with assms(1) obtain e ds where ex: "ex = exp_text e ds" "ds \<noteq> []" "\<forall>c \<in> set ds. is_digit c"
    by (auto simp: exp_part_def)
  then show ?thesis
    using scan_digits_run [of ds t] ends_number_digit [OF assms(2)]
    by (simp add: exp_text_def scan_exp_def)
qed

lemma exp_part_stop: "exp_part ex \<Longrightarrow> ends_number t \<Longrightarrow> ex @ t = [] \<or> \<not> is_digit (hd (ex @ t)) \<and> hd (ex @ t) \<noteq> CHR ''.''"
  by (auto simp: exp_part_def exp_text_def ends_number_def num_char_def is_digit_def hd_append)

lemma scan_unsigned_text:
  assumes ip: "plain_int ip" and fd: "\<forall>c \<in> set fd. is_digit c" and ex: "exp_part ex" and t: "ends_number t"
  shows "scan_unsigned (ip @ frac_text fd @ ex @ t) = Some (ip @ frac_text fd @ ex, t)"
proof -
  note stop = exp_part_stop [OF ex t]
  have frac: "scan_frac (frac_text fd @ ex @ t) = Some (frac_text fd, ex @ t)"
  proof (cases "fd = []")
    case True
    with stop show ?thesis by (cases "ex @ t") (auto simp: scan_frac_def frac_text_def)
  next
    case False
    with fd stop scan_digits_run [of fd "ex @ t"] show ?thesis
      by (auto simp: scan_frac_def frac_text_def)
  qed
  have "frac_text fd @ ex @ t = [] \<or> \<not> is_digit (hd (frac_text fd @ ex @ t))"
    using stop by (auto simp: frac_text_def)
  with ip scan_digits_run [of ip "frac_text fd @ ex @ t"]
  have "scan_int (ip @ frac_text fd @ ex @ t) = Some (ip, frac_text fd @ ex @ t)"
    by (cases ip) (auto simp: scan_int_def plain_int_def)
  with frac scan_exp_part [OF ex t] show ?thesis by (simp add: scan_unsigned_def)
qed

lemma number_text_decimal:
  assumes ip: "plain_int ip" and fd: "\<forall>c \<in> set fd. is_digit c" and ex: "exp_part ex"
  shows "number_text (sign_text neg @ ip @ frac_text fd @ ex)"
proof -
  obtain c u where c: "ip = c # u" "is_digit c" using ip by (cases ip) (auto simp: plain_int_def)
  have "\<forall>x \<in> set ex. num_char x"
    using ex by (auto simp: exp_part_def exp_text_def num_char_def)
  with ip fd have chars: "\<forall>x \<in> set (sign_text neg @ ip @ frac_text fd @ ex). num_char x"
    by (auto simp: plain_int_def sign_text_def frac_text_def num_char_def)
  have "scan_number ((sign_text neg @ ip @ frac_text fd @ ex) @ t) = Some (sign_text neg @ ip @ frac_text fd @ ex, t)"
    if "ends_number t" for t
    using scan_unsigned_text [OF ip fd ex that] c by (simp add: scan_number_def sign_text_def)
  with chars c show ?thesis by (simp add: number_text_def sign_text_def)
qed

lemma plain_show_nat: "plain_int (show_nat n)"
proof -
  have "is_digit c" if "c \<in> set (show_nat n)" for c using show_nat_digits that .
  with hd_show_nat_nonzero [of n] show ?thesis by (cases "n = 0") (auto simp: plain_int_def)
qed

lemma number_text_fmt_f: "number_text (sign_text neg @ fmt_f c k)"
proof (cases "0 \<le> k")
  case True
  with number_text_decimal [OF plain_show_nat, of "[]" "[]" neg "c * 10 ^ nat k"] show ?thesis
    by (simp add: fmt_f_def frac_text_def exp_part_def)
next
  case False
  let ?p = "10 ^ nat (- k) :: nat" and ?fd = "pad_left (nat (- k)) (show_nat (c mod 10 ^ nat (- k)))"
  have "frac_text ?fd = CHR ''.'' # ?fd" using pad_left_digits(3) by (simp add: frac_text_def)
  with False number_text_decimal [OF plain_show_nat, of ?fd "[]" neg "c div ?p"] pad_left_digits(1) show ?thesis
    by (simp add: fmt_f_def Let_def exp_part_def)
qed

lemma number_text_fmt_e: "number_text (sign_text neg @ fmt_e w c k)"
proof -
  let ?ds = "show_nat c"
  have ds: "plain_int [hd ?ds]" "\<forall>x \<in> set (tl ?ds). is_digit x"
    using show_nat_digits list.set_sel(2) [OF show_nat_nonempty] by (auto simp: plain_int_def)
  have "exp_part (exp_text e (pad_left w (show_nat n)))" for e n
    unfolding exp_part_def using pad_left_digits by blast
  with ds show ?thesis unfolding fmt_e_text by (intro number_text_decimal) auto
qed

lemma number_text_FormatInt: "number_text (FormatInt v)"
proof -
  have "FormatInt v = sign_text (sint v < 0) @ show_nat (nat \<bar>sint v\<bar>)"
    by (simp add: FormatInt_def sign_text_def)
  with number_text_decimal [OF plain_show_nat, of "[]" "[]" "sint v < 0" "nat \<bar>sint v\<bar>"] show ?thesis
    by (simp add: frac_text_def exp_part_def)
qed

lemma json_float_text:
  assumes "json_float f = Some s"
  shows "number_text s" and "ParseFloat s = Inr f"
proof -
  obtain c k where ck: "shortest (f64_mag f) = (c, k)" by (cases "shortest (f64_mag f)")
  from assms have fin: "is_finite f" by (auto simp: json_float_def split: if_splits)
  then have lt: "f64_mag f < mag_inf" by (simp add: is_finite_def)
  note rb = shortest_reads_back [OF lt ck]
  define use_e where "use_e \<longleftrightarrow> f64_mag f \<noteq> 0 \<and> (f64_mag f < round_mag (1, 10 ^ 6) \<or> round_mag (10 ^ 21, 1) \<le> f64_mag f)"
  from assms fin ck have s: "s = sign_text (f64_neg f) @ (if use_e then fmt_e 1 c k else fmt_f c k)"
    by (simp add: json_float_def with_sign_text use_e_def split: if_splits)
  then show "number_text s" using number_text_fmt_f number_text_fmt_e by simp
  show "ParseFloat s = Inr f"
  proof (cases "use_e")
    case True
    then have "0 < f64_mag f" by (simp add: use_e_def)
    from decimal_exponent_bound [OF shortest_pos [OF this lt ck] rb this lt]
    have "\<bar>k + int (length (show_nat c)) - 1\<bar> < 100000" by linarith
    from ParseFloat_fmt_e [OF this] True s rb fin show ?thesis by simp
  next
    case False
    with s rb fin show ?thesis by (simp add: ParseFloat_fmt_f)
  qed
qed

lemma json_value_number:
  assumes "number_text s" and "ends_number t"
  shows "json_value d (Suc n) (s @ t) = Some (JNum s, t)"
proof -
  from assms(1) obtain c u where s: "s = c # u" "c = CHR ''-'' \<or> is_digit c"
    by (cases s) (auto simp: number_text_def)
  then have "\<not> is_ws c" "c \<noteq> CHR 0x22" "c \<noteq> CHR ''{''" "c \<noteq> CHR ''[''"
    by (auto simp: is_ws_def is_digit_def)
  moreover have "scan_number (c # u @ t) = Some (s, t)"
    using assms s by (auto simp: number_text_def)
  ultimately show ?thesis using s by (simp add: skip_ws_def)
qed

lemma skip_ws_punct [simp]: "skip_ws (CHR 0x22 # t) = CHR 0x22 # t" "skip_ws (CHR '':'' # t) = CHR '':'' # t"
  "skip_ws (CHR '','' # t) = CHR '','' # t" "skip_ws (CHR ''{'' # t) = CHR ''{'' # t"
  "skip_ws (CHR ''}'' # t) = CHR ''}'' # t" "skip_ws (CHR ''['' # t) = CHR ''['' # t"
  "skip_ws (CHR '']'' # t) = CHR '']'' # t"
  by (simp_all add: skip_ws_def is_ws_def)

lemma ends_number_punct [simp]: "ends_number (CHR '','' # t)" "ends_number (CHR ''}'' # t)" "ends_number (CHR '']'' # t)"
  by (simp_all add: ends_number_def)

text \<open>A quoted name, wherever it stands.\<close>

lemma scan_quoted:
  assumes "utf8_name s"
  shows "scan_string (length (quote_body (length s) s @ CHR 0x22 # rest)) (quote_body (length s) s @ CHR 0x22 # rest)
    = Some (s, rest)"
  using assms scan_quote [of "length s" s] by (simp add: utf8_name_def)

lemma json_parse_object:
  assumes "json_members 9999 (2 * length s + 1) (CHR 0x22 # u) = Some (js, [])" and "s = CHR ''{'' # CHR 0x22 # u"
  shows "json_parse s = Some (JObj js)"
proof -
  have fuel: "2 * length s + 2 = Suc (2 * length s + 1)" by simp
  have "json_value 10000 (Suc (2 * length s + 1)) (CHR ''{'' # CHR 0x22 # u) = Some (JObj js, [])"
    unfolding json_value.simps(2) using assms(1) by simp
  then show ?thesis unfolding json_parse_def fuel by (simp add: assms(2) skip_ws_def)
qed

section \<open>Maps\<close>

lemma foldl_fmupd_sorted: "foldl (\<lambda>m kv. fmupd (fst kv) (snd kv) m) fmempty (sorted_list_of_fmap m) = m"
proof -
  have "(\<lambda>m kv. fmupd (fst kv) (snd kv) m) = upd_entry (\<lambda>_ v. v)"
    by (intro ext) (simp add: upd_entry_def)
  moreover have "foldl (upd_entry (\<lambda>_ v. v)) fmempty (sorted_list_of_fmap m) = m"
    by (intro fmap_ext) (simp add: foldl_upd_entry_enum [OF enumerates_sorted] split: option.splits)
  ultimately show ?thesis by metis
qed

text \<open>What the encoder and the decoder of a map's values promise each other.\<close>

locale json_codec =
  fixes enc :: "'v \<Rightarrow> bytes option"
    and dec :: "json \<Rightarrow> 'v \<Rightarrow> go_error option \<times> 'v"
    and zero :: 'v
  assumes enc_number: "enc v = Some s \<Longrightarrow> number_text s"
    and dec_enc: "enc v = Some s \<Longrightarrow> dec (JNum s) zero = (None, v)"
begin

lemma members_encode:
  assumes "encode_members enc kvs = Some b" and "kvs \<noteq> []" and "\<forall>k \<in> fst ` set kvs. utf8_name k"
    and "length kvs < n"
  shows "json_members d n (b @ CHR ''}'' # t) = Some (map (\<lambda>(k, v). (k, JNum (the (enc v)))) kvs, t)"
  using assms
proof (induction kvs arbitrary: b n)
  case (Cons kv kvs)
  obtain k v where kv: "kv = (k, v)" by (cases kv)
  from Cons.prems(1) kv obtain e r where e: "enc v = Some e" and r: "encode_members enc kvs = Some r"
    and b: "b = json_quote k @ CHR '':'' # e @ (if kvs = [] then [] else CHR '','' # r)"
    by (auto split: option.splits)
  from Cons.prems(4) obtain n' where n: "n = Suc n'" "length kvs < n'" by (cases n) auto
  then obtain n'' where n': "n' = Suc n''" by (cases n') auto
  from Cons.prems(3) kv have k: "utf8_name k" by simp
  show ?case
  proof (cases "kvs = []")
    case True
    with b e kv n n' scan_quoted [OF k, of "CHR '':'' # e @ CHR ''}'' # t"]
      json_value_number [OF enc_number [OF e], of "CHR ''}'' # t" d n'']
    show ?thesis by (simp add: json_quote_def)
  next
    case False
    have "json_members d n' (r @ CHR ''}'' # t) = Some (map (\<lambda>(k, v). (k, JNum (the (enc v)))) kvs, t)"
      using Cons.IH [OF r False _ n(2)] Cons.prems(3) by simp
    with False b e kv n n' scan_quoted [OF k, of "CHR '':'' # e @ CHR '','' # r @ CHR ''}'' # t"]
      json_value_number [OF enc_number [OF e], of "CHR '','' # r @ CHR ''}'' # t" d n'']
    show ?thesis by (simp add: json_quote_def)
  qed
qed simp

lemma encode_members_Some: "encode_members enc kvs = Some b \<Longrightarrow> (k, v) \<in> set kvs \<Longrightarrow> enc v \<noteq> None"
  by (induction kvs arbitrary: b) (auto split: option.splits)

lemma encode_members_None: "encode_members enc kvs = None \<longleftrightarrow> (\<exists>(k, v) \<in> set kvs. enc v = None)"
  by (induction kvs) (auto split: option.splits)

lemma encode_members_length: "encode_members enc kvs = Some b \<Longrightarrow> 3 * length kvs \<le> length b"
  by (induction kvs arbitrary: b) (fastforce simp: json_quote_def split: option.splits)+

lemma decode_members_encoded:
  "\<forall>(k, v) \<in> set kvs. enc v \<noteq> None \<Longrightarrow>
   decode_members dec zero (map (\<lambda>(k, v). (k, JNum (the (enc v)))) kvs) None m =
     (None, foldl (\<lambda>m kv. fmupd (fst kv) (snd kv) m) m kvs)"
  by (induction kvs arbitrary: m) (auto simp: dec_enc first_error_def)

text \<open>A map written is read back.\<close>

lemma unmarshal_marshal:
  assumes "marshal_map enc m = Inr s" and "\<forall>k \<in> fmdom' m. utf8_name k"
  shows "unmarshal_map dec zero s = (None, m)"
proof -
  let ?kvs = "sorted_list_of_fmap m"
  from assms(1) obtain b where b: "encode_members enc ?kvs = Some b" and s: "s = CHR ''{'' # b @ ''}''"
    by (auto simp: marshal_map_def split: option.splits)
  have names: "\<forall>k \<in> fst ` set ?kvs. utf8_name k"
    using assms(2) enumerates_dom [OF enumerates_sorted, of m] by simp
  show ?thesis
  proof (cases "?kvs = []")
    case True
    with b s have "s = ''{}''" by simp
    moreover have "json_parse ''{}'' = Some (JObj [])" by code_simp
    ultimately have "json_parse s = Some (JObj [])" by simp
    moreover have "m = fmempty" using True foldl_fmupd_sorted [of m] by simp
    ultimately show ?thesis by (simp add: unmarshal_map_def decode_map_def)
  next
    case False
    then obtain c u where bc: "b @ ''}'' = CHR 0x22 # u"
      using b by (cases ?kvs) (auto simp: json_quote_def split: option.splits)
    have "json_members 9999 (2 * length s + 1) (b @ ''}'') = Some (map (\<lambda>(k, v). (k, JNum (the (enc v)))) ?kvs, [])"
      using members_encode [OF b False names, of "2 * length s + 1" 9999 "[]"] encode_members_length [OF b] s by simp
    then have "json_parse s = Some (JObj (map (\<lambda>(k, v). (k, JNum (the (enc v)))) ?kvs))"
      using bc s by (intro json_parse_object [of s u]) simp_all
    moreover have "\<forall>(k, v) \<in> set ?kvs. enc v \<noteq> None" using encode_members_Some [OF b] by auto
    ultimately show ?thesis
      by (simp add: unmarshal_map_def decode_map_def decode_members_encoded foldl_fmupd_sorted)
  qed
qed

end

interpretation gauge_codec: json_codec json_float decode_float 0
  by unfold_locales (auto simp: json_float_text decode_float_def)

interpretation counter_codec: json_codec json_int decode_int 0
  by unfold_locales (auto simp: json_int_def number_text_FormatInt decode_int_def ParseInt_FormatInt)

end
