(* ===== verification/Fw_Facts.thy ===== *)
theory Fw_Facts
  imports Fw Go_Json_Facts Memory
begin

text \<open>
  When the backup file works and when it does not. On a file that fits the scanner's first
  buffer, whose first part stays below half of it and whose names contain no \<open>,{\<close>,
  \<open>RestorePrev\<close> loads what \<open>Write\<close> saved (\<open>write_ok\<close>, \<open>restore_ok\<close>). Past
  each of these bounds a concrete file is lost or panics.
\<close>

section \<open>Searching for the separator\<close>

text \<open>No comma is followed by an opening brace; \<open>calm\<close>: nor is the last byte a comma.\<close>

fun no_sep :: "bytes \<Rightarrow> bool" where
  "no_sep [] = True"
| "no_sep (c # s) = ((c = CHR '','' \<longrightarrow> s = [] \<or> hd s \<noteq> CHR ''{'') \<and> no_sep s)"

fun calm :: "bytes \<Rightarrow> bool" where
  "calm [] = True"
| "calm (c # s) = ((c = CHR '','' \<longrightarrow> s \<noteq> [] \<and> hd s \<noteq> CHR ''{'') \<and> calm s)"

lemma calm_append: "calm a \<Longrightarrow> calm b \<Longrightarrow> calm (a @ b)"
  by (induction a) auto

lemma calm_no_comma: "CHR '','' \<notin> set s \<Longrightarrow> calm s"
  by (induction s) auto

lemma split_search_calm: "calm s \<Longrightarrow> split_search i s = Ret None"
  by (induction s arbitrary: i) (auto split: list.splits)

lemma split_search_found: "calm s \<Longrightarrow> split_search i (s @ CHR '','' # CHR ''{'' # t) = Ret (Some (i + length s))"
proof (induction s arbitrary: i)
  case (Cons c s)
  then show ?case by (cases s) auto
qed simp

section \<open>The scanner on a file that fits the first buffer\<close>

definition loaded :: "bytes \<Rightarrow> nat \<Rightarrow> bool \<Rightarrow> Scanner" where
  "loaded file st err = \<lparr>arrays = [[], file @ replicate (4096 - length file) CHR 0x00],
     sc_start = st, sc_end = length file, sc_rest = [], sc_err = err\<rparr>"

lemma cur_buf_loaded [simp]: "cur_buf (loaded file st err) = file @ replicate (4096 - length file) CHR 0x00"
  by (simp add: loaded_def cur_buf_def)

lemma sc_data_loaded [simp]: "sc_data (loaded file st err) = drop st file"
  by (simp add: sc_data_def) (simp add: loaded_def)

lemma loaded_sel [simp]: "sc_start (loaded file st err) = st" "sc_end (loaded file st err) = length file"
  "sc_rest (loaded file st err) = []" "sc_err (loaded file st err) = err"
  "arrays (loaded file st err) = [[], file @ replicate (4096 - length file) CHR 0x00]"
  "(loaded file st err)\<lparr>sc_start := st'\<rparr> = loaded file st' err"
  "(loaded file st err)\<lparr>sc_err := err'\<rparr> = loaded file st err'"
  by (simp_all add: loaded_def)

lemma Scan_load:
  assumes "file \<noteq> []" and "length file < 4096"
  shows "Scan (Suc n) f (NewScanner file) = Scan n f (loaded file 0 False)"
  using assms
  by (simp add: NewScanner_def try_split_def shift_buf_def grow_buf_def cur_buf_def startBufSize_def
      maxTokenSize_def sc_data_def overwrite_def read_buf_def set_cur_def loaded_def)

text \<open>A pass over the rest of the file without a separator reads EOF and then takes it whole.\<close>

lemma Scan_rest:
  assumes "calm (drop st file)" and "st \<le> 2048" and "st < length file" and "length file < 4096"
  shows "Scan (Suc (Suc n)) backup_split (loaded file st False) =
    Ret (Some \<lparr>s_arr = 1, s_off = st, s_len = length file - st\<rparr>, loaded file (length file) True)"
  using assms
  by (simp add: try_split_def backup_split_def split_search_calm shift_buf_def grow_buf_def read_buf_def)

lemma slice_loaded:
  "off + len \<le> length file \<Longrightarrow>
   slice_bytes (arrays (loaded file st err)) \<lparr>s_arr = 1, s_off = off, s_len = len\<rparr> = take len (drop off file)"
  by (simp add: slice_bytes_def)

text \<open>Trimming a slice is trimming its bytes.\<close>

lemma takeWhile_drop_len: "drop (length (takeWhile P b)) b = dropWhile P b"
  by (simp add: dropWhile_eq_drop)

lemma Trim_prefix: "Trim b cutset = take (length (Trim b cutset)) (TrimLeft b cutset)"
proof -
  have "TrimRight s cutset = take (length (TrimRight s cutset)) s" for s
  proof -
    let ?P = "\<lambda>c. c \<in> set cutset"
    have "s = rev (takeWhile ?P (rev s) @ dropWhile ?P (rev s))" by simp
    then have "s = rev (dropWhile ?P (rev s)) @ rev (takeWhile ?P (rev s))" by (simp only: rev_append)
    then have "take (length (rev (dropWhile ?P (rev s)))) s = rev (dropWhile ?P (rev s))"
      by (metis append_eq_conv_conj)
    then show ?thesis by (simp add: TrimRight_def)
  qed
  then show ?thesis by (simp add: Trim_def)
qed

lemma slice_bytes_trim:
  assumes "s_off sl + s_len sl \<le> length (as ! s_arr sl)"
  shows "slice_bytes as (trim_slice as cutset sl) = Trim (slice_bytes as sl) cutset"
proof -
  let ?b = "slice_bytes as sl" and ?l = "length (takeWhile (\<lambda>c. c \<in> set cutset) (slice_bytes as sl))"
  have l: "?l + length (Trim ?b cutset) \<le> s_len sl"
  proof -
    have "length (Trim ?b cutset) \<le> length (TrimLeft ?b cutset)"
      using Trim_prefix [of ?b cutset] by (metis length_take min.cobounded1)
    moreover have "?l + length (TrimLeft ?b cutset) = length ?b"
      using takeWhile_drop_len [of "\<lambda>c. c \<in> set cutset" ?b] length_takeWhile_le [of "\<lambda>c. c \<in> set cutset" ?b]
      by (metis TrimLeft_def length_append takeWhile_dropWhile_id)
    moreover have "length ?b \<le> s_len sl" by (simp add: slice_bytes_def)
    ultimately show ?thesis by linarith
  qed
  have "slice_bytes as (trim_slice as cutset sl) =
      take (length (Trim ?b cutset)) (drop (?l + s_off sl) (as ! s_arr sl))"
    by (simp add: trim_slice_def Let_def slice_bytes_def add.commute)
  also have "\<dots> = take (length (Trim ?b cutset)) (drop ?l ?b)"
    using l by (simp add: slice_bytes_def drop_take add.commute min_def)
  also have "\<dots> = Trim ?b cutset"
    using Trim_prefix [of ?b cutset] by (simp add: takeWhile_drop_len TrimLeft_def)
  finally show ?thesis .
qed

lemma trim_loaded:
  assumes "off + len \<le> length file"
  shows "slice_bytes (arrays (loaded file st e)) (trim_slice (arrays (loaded file st' e')) cutset \<lparr>s_arr = 1, s_off = off, s_len = len\<rparr>)
    = Trim (take len (drop off file)) cutset"
proof -
  let ?as = "arrays (loaded file st e)" and ?sl = "\<lparr>s_arr = 1, s_off = off, s_len = len\<rparr>"
  have "arrays (loaded file st' e') = ?as" by simp
  moreover have "slice_bytes ?as (trim_slice ?as cutset ?sl) = Trim (slice_bytes ?as ?sl) cutset"
    by (rule slice_bytes_trim) (use assms in simp)
  ultimately show ?thesis using slice_loaded [OF assms, of st e] by simp
qed

text \<open>The two parts of a small file with a separator, and the only part of one without.\<close>

lemma read_parts_two:
  assumes "calm p" and "calm (CHR ''{'' # t)"
    and "length p < 2048" and "length p + length t + 2 < 4096"
  shows "read_parts (p @ CHR '','' # CHR ''{'' # t) =
    Ret (Trim (p @ '','') ''[,]'', Trim (CHR ''{'' # t) ''[,]'')"
proof -
  let ?f = "p @ CHR '','' # CHR ''{'' # t" and ?st = "length p + 1"
  have fuel: "scan_fuel (NewScanner ?f) = Suc (Suc (length p + length t + 2))"
    by (simp add: scan_fuel_def NewScanner_def)
  have first: "Scan (scan_fuel (NewScanner ?f)) backup_split (NewScanner ?f) =
      Ret (Some \<lparr>s_arr = 1, s_off = 0, s_len = ?st\<rparr>, loaded ?f ?st False)"
    unfolding fuel using assms
    by (subst Scan_load) (simp_all add: try_split_def backup_split_def split_search_found)
  have fuel2: "scan_fuel (loaded ?f ?st False) = Suc (Suc 0)" by (simp add: scan_fuel_def)
  have second: "Scan (scan_fuel (loaded ?f ?st False)) backup_split (loaded ?f ?st False) =
      Ret (Some \<lparr>s_arr = 1, s_off = ?st, s_len = length ?f - ?st\<rparr>, loaded ?f (length ?f) True)"
    unfolding fuel2 by (rule Scan_rest) (use assms in simp_all)
  have gj: "slice_bytes (arrays (loaded ?f st e)) (trim_slice (arrays (loaded ?f st' e')) ''[,]'' \<lparr>s_arr = 1, s_off = 0, s_len = ?st\<rparr>)
      = Trim (p @ '','') ''[,]''" for st e st' e'
    by (subst trim_loaded) simp_all
  have cj: "slice_bytes (arrays (loaded ?f st e)) (trim_slice (arrays (loaded ?f st' e')) ''[,]'' \<lparr>s_arr = 1, s_off = ?st, s_len = length ?f - ?st\<rparr>)
      = Trim (CHR ''{'' # t) ''[,]''" for st e st' e'
    by (subst trim_loaded) simp_all
  show ?thesis
    unfolding read_parts_def Let_def first bind_outcome.simps prod.case second
    by (simp only: option.map option.case gj cj)
qed

lemma read_parts_one:
  assumes "calm file" and "file \<noteq> []" and "length file < 4096"
  shows "read_parts file = Ret (Trim file ''[,]'', [])"
proof -
  have fuel: "scan_fuel (NewScanner file) = Suc (Suc (length file))"
    by (simp add: scan_fuel_def NewScanner_def)
  obtain n where n: "length file = Suc n" using assms(2) by (metis Suc_pred length_greater_0_conv)
  have first: "Scan (scan_fuel (NewScanner file)) backup_split (NewScanner file) =
      Ret (Some \<lparr>s_arr = 1, s_off = 0, s_len = length file\<rparr>, loaded file (length file) True)"
  proof -
    have "Scan (scan_fuel (NewScanner file)) backup_split (NewScanner file) =
        Scan (Suc (Suc n)) backup_split (loaded file 0 False)"
      unfolding fuel using assms n by (subst Scan_load) simp_all
    also have "\<dots> = Ret (Some \<lparr>s_arr = 1, s_off = 0, s_len = length file - 0\<rparr>, loaded file (length file) True)"
      by (rule Scan_rest) (use assms in simp_all)
    finally show ?thesis by simp
  qed
  have fuel2: "scan_fuel (loaded file (length file) True) = Suc (Suc 0)" by (simp add: scan_fuel_def)
  have second: "Scan (scan_fuel (loaded file (length file) True)) backup_split (loaded file (length file) True) =
      Ret (None, (loaded file 0 True)\<lparr>sc_end := 0\<rparr>)"
    unfolding fuel2 by (simp add: try_split_def backup_split_def)
  have deref: "slice_bytes (arrays ((loaded file 0 True)\<lparr>sc_end := 0\<rparr>)) (trim_slice (arrays (loaded file st' e')) ''[,]'' \<lparr>s_arr = 1, s_off = 0, s_len = length file\<rparr>)
      = Trim file ''[,]''" for st' e'
    using trim_loaded [of 0 "length file" "file" 0 True st' e' "''[,]''"] by simp
  show ?thesis
    unfolding read_parts_def Let_def first bind_outcome.simps prod.case second
    by (simp only: option.map option.case deref)
qed

section \<open>What Write writes\<close>

lemma number_text_calm: "number_text s \<Longrightarrow> calm s"
  by (rule calm_no_comma) (auto simp: number_text_def)

lemma calm_snoc_sep: "no_sep (c # t) \<Longrightarrow> calm x \<Longrightarrow> (t = [] \<Longrightarrow> x \<noteq> [] \<and> hd x \<noteq> CHR ''{'') \<Longrightarrow>
    x \<noteq> [] \<Longrightarrow> (hd x = CHR ''{'' \<Longrightarrow> t \<noteq> [] \<and> hd t = CHR ''{'') \<Longrightarrow> calm (c # x)"
  by auto

lemma hex_digit_not_comma: "d < 16 \<Longrightarrow> hex_digit d \<noteq> CHR '',''"
  using hex_digit_ok [of d] by (auto simp: is_hex_def is_digit_def is_hex_letter_def lower_def)

lemma escape_byte_cases:
  assumes "(of_char c :: nat) < 128"
  shows "escape_byte c = [c] \<or> CHR '','' \<notin> set (escape_byte c) \<and> hd (escape_byte c) = CHR 0x5C \<and> escape_byte c \<noteq> []"
proof -
  have "hex_digit (of_char c div 16) \<noteq> CHR '',''" "hex_digit (of_char c mod 16) \<noteq> CHR '',''"
    using assms by (simp_all add: hex_digit_not_comma)
  then show ?thesis by (simp add: escape_byte_def Let_def)
qed

lemma no_sep_drop: "no_sep s \<Longrightarrow> no_sep (drop k s)"
  by (induction s arbitrary: k) (auto simp: drop_Cons split: nat.splits)

lemma utf8_take_high:
  assumes "0 < utf8_len s" and "c \<in> set (take (utf8_len s) s)"
  shows "128 \<le> (of_char c :: nat)"
  using assms(1)
proof (cases s rule: utf8_len_shapes)
  case (two a b t)
  from two(3) [of "[]"] have "128 \<le> (of_char a :: nat)" "128 \<le> (of_char b :: nat)"
    by (auto simp: utf8_len_def byte_in_def split: if_splits)
  with two assms(2) show ?thesis by auto
next
  case (three a b c' t)
  from three(3) [of "[]"] have "128 \<le> (of_char a :: nat)" "128 \<le> (of_char b :: nat)" "128 \<le> (of_char c' :: nat)"
    by (auto simp: utf8_len_def byte_in_def split: if_splits)
  with three assms(2) show ?thesis by auto
next
  case (four a b c' d t)
  from four(3) [of "[]"] have "128 \<le> (of_char a :: nat)" "128 \<le> (of_char b :: nat)" "128 \<le> (of_char c' :: nat)" "128 \<le> (of_char d :: nat)"
    by (auto simp: utf8_len_def byte_in_def split: if_splits)
  with four assms(2) show ?thesis by auto
qed

text \<open>
  A quoted name is calm when the name has no separator: an escape never starts with a
  brace, and a comma of the text is a comma of the name.
\<close>

lemma quote_body_hd:
  assumes "hd (quote_body n t @ x) = CHR ''{''" and "valid_utf8 n t" and "hd x \<noteq> CHR ''{''"
  shows "t \<noteq> [] \<and> hd t = CHR ''{''"
proof (cases t)
  case Nil
  with assms show ?thesis by (cases n) auto
next
  case (Cons c u)
  with assms obtain n' where n: "n = Suc n'" by (cases n) auto
  show ?thesis
  proof (cases "(of_char c :: nat) < 128")
    case True
    with assms(1) Cons n escape_byte_cases [OF True] show ?thesis by (auto simp: hd_append)
  next
    case False
    with Cons n assms(2) have k: "0 < utf8_len t" by auto
    then have "take (utf8_len t) t \<noteq> [] \<and> hd (take (utf8_len t) t) = c"
      using Cons by (cases "utf8_len t") auto
    with assms(1) False Cons n k show ?thesis
      by (auto simp: Let_def hd_append split: if_splits)
  qed
qed

lemma calm_quote_body:
  "no_sep s \<Longrightarrow> valid_utf8 n s \<Longrightarrow> calm x \<Longrightarrow> x \<noteq> [] \<Longrightarrow> hd x \<noteq> CHR ''{'' \<Longrightarrow> calm (quote_body n s @ x)"
proof (induction n arbitrary: s)
  case (Suc n)
  show ?case
  proof (cases s)
    case Nil
    with Suc.prems show ?thesis by simp
  next
    case (Cons c t)
    show ?thesis
    proof (cases "(of_char c :: nat) < 128")
      case True
      from Suc.prems Cons True have t: "no_sep t" "valid_utf8 n t" by auto
      have rest: "calm (quote_body n t @ x)" by (rule Suc.IH) (use t Suc.prems in simp_all)
      from escape_byte_cases [OF True] show ?thesis
      proof
        assume "escape_byte c = [c]"
        then show ?thesis
          using Cons True rest quote_body_hd [OF _ t(2), of x] Suc.prems
          by auto
      next
        assume "CHR '','' \<notin> set (escape_byte c) \<and> hd (escape_byte c) = CHR 0x5C \<and> escape_byte c \<noteq> []"
        with calm_append [OF calm_no_comma rest, of "escape_byte c"] Cons True show ?thesis by simp
      qed
    next
      case False
      let ?k = "utf8_len s"
      from Suc.prems Cons False have k: "0 < ?k" "valid_utf8 n (drop ?k s)" by auto
      have rest: "calm (quote_body n (drop ?k s) @ x)"
        by (rule Suc.IH) (use k Suc.prems no_sep_drop in simp_all)
      have "CHR '','' \<notin> set (take ?k s)" using utf8_take_high [OF k(1), of "CHR '',''"] by auto
      with calm_append [OF calm_no_comma rest] have "calm (take ?k s @ quote_body n (drop ?k s) @ x)" by blast
      moreover have "calm (CHR 0x5C # ''u2028'' @ quote_body n (drop ?k s) @ x)"
        "calm (CHR 0x5C # ''u2029'' @ quote_body n (drop ?k s) @ x)"
        using rest by simp_all
      ultimately show ?thesis using Cons False k(1) by (simp add: Let_def)
    qed
  qed
qed simp

definition safe_name :: "bytes \<Rightarrow> bool" where
  "safe_name k \<longleftrightarrow> utf8_name k \<and> no_sep k"

lemma calm_quote: "safe_name k \<Longrightarrow> calm (json_quote k)"
  using calm_quote_body [of k "length k" "[CHR 0x22]"]
  by (simp add: json_quote_def safe_name_def utf8_name_def)

context json_codec begin

lemma members_calm:
  "encode_members enc kvs = Some b \<Longrightarrow> \<forall>k \<in> fst ` set kvs. safe_name k \<Longrightarrow> calm b"
proof (induction kvs arbitrary: b)
  case (Cons kv kvs)
  obtain k v where kv: "kv = (k, v)" by (cases kv)
  from Cons.prems(1) kv obtain e r where e: "enc v = Some e" and r: "encode_members enc kvs = Some r"
    and b: "b = json_quote k @ CHR '':'' # e @ (if kvs = [] then [] else CHR '','' # r)"
    by (auto split: option.splits)
  have "calm r" using Cons.IH [OF r] Cons.prems(2) by simp
  moreover have "kvs \<noteq> [] \<Longrightarrow> r \<noteq> [] \<and> hd r = CHR 0x22"
    using r by (cases kvs) (auto simp: json_quote_def split: option.splits)
  moreover have "calm e" using e by (intro number_text_calm enc_number)
  ultimately show ?case
    using b kv Cons.prems(2) by (auto intro!: calm_append calm_quote)
qed simp

text \<open>The text of a map: calm, between braces, longer than two bytes when it has an entry.\<close>

lemma marshal_shape:
  assumes "marshal_map enc m = Inr s" and "\<forall>k \<in> fmdom' m. safe_name k"
  obtains b where "s = CHR ''{'' # b @ ''}''" "calm (CHR ''{'' # b @ ''}'')" "m \<noteq> fmempty \<longrightarrow> 2 < length s"
proof -
  from assms(1) obtain b where b: "encode_members enc (sorted_list_of_fmap m) = Some b" and s: "s = CHR ''{'' # b @ ''}''"
    by (auto simp: marshal_map_def split: option.splits)
  have "calm b" using members_calm [OF b] assms(2) enumerates_dom [OF enumerates_sorted, of m] by simp
  then have "calm (CHR ''{'' # b @ ''}'')" by (simp add: calm_append)
  moreover have "2 < length s" if "m \<noteq> fmempty"
  proof -
    have "sorted_list_of_fmap m \<noteq> []" using that foldl_fmupd_sorted [of m] by auto
    with encode_members_length [OF b] s show ?thesis by (cases b) auto
  qed
  ultimately show ?thesis using that s by blast
qed

lemma marshal_succeeds: "(\<forall>v \<in> fmran' m. enc v \<noteq> None) \<Longrightarrow> \<exists>s. marshal_map enc m = Inr s"
proof -
  assume ok: "\<forall>v \<in> fmran' m. enc v \<noteq> None"
  have "enc v \<noteq> None" if "(k, v) \<in> set (sorted_list_of_fmap m)" for k v
  proof -
    have "fmlookup m k = Some v"
      using map_of_is_SomeI [OF enumeratesD(1) [OF enumerates_sorted] that] by (simp add: map_of_sorted_list)
    with ok show ?thesis by (auto simp: fmlookup_ran'_iff)
  qed
  then have "encode_members enc (sorted_list_of_fmap m) \<noteq> None"
    using encode_members_None [of "sorted_list_of_fmap m"] by blast
  then show ?thesis by (auto simp: marshal_map_def split: option.splits)
qed

end

section \<open>The round trip\<close>

text \<open>No call on the path fails.\<close>

definition healthy :: "string \<Rightarrow> Disk \<Rightarrow> bool" where
  "healthy p d \<longleftrightarrow> d_open_err d p = None \<and> \<not> d_truncate_fails d p \<and> d_write_err d p = None"

lemma healthy_put_file [simp]: "healthy p (put_file q txt d) \<longleftrightarrow> healthy p d"
  by (simp add: healthy_def)

lemma truncated_open: "healthy p d \<Longrightarrow> OpenFile p (Truncate p d) = Inr (put_file p [] d)"
  by (cases "d_files d p") (simp_all add: healthy_def Truncate_def OpenFile_def)

lemma write_after_truncate: "healthy p d \<Longrightarrow> write_file p data (put_file p [] d) = (None, put_file p data d)"
  by (simp add: healthy_def write_file_def overwrite_def file_contents_def)

context reliable_repo begin

text \<open>\<open>Write\<close> on a healthy disk.\<close>

lemma write_ok:
  assumes "inv s" and "\<not> b_mu b" and "healthy (b_Path b) d"
    and pt1: "gauge_part (gauges s) = Inr pt1" and pt2: "counter_part (counters s) = Inr pt2"
    and some: "3 \<le> length pt1 \<or> 3 \<le> length pt2"
  shows "\<exists>s'. Backup_Write b db True d s = Ret (None, put_file (b_Path b) (backup_data pt1 pt2) d, s') \<and>
    inv s' \<and> gauges s' = gauges s \<and> counters s' = counters s"
proof -
  obtain s1 where g: "GetGaugeAll db s = Ret (Inr (gauges s), s1)" "inv s1" "gauges s1 = gauges s" "counters s1 = counters s"
    using get_gauge_all_eq [OF assms(1)] .
  obtain s2 where c: "GetCounterAll db s1 = Ret (Inr (counters s), s2)" "inv s2" "gauges s2 = gauges s" "counters s2 = counters s"
    using get_counter_all_eq [OF g(2)] g by metis
  from g c truncated_open [OF assms(3)] write_after_truncate [OF assms(3)] pt1 pt2 some assms(2) show ?thesis
    by (simp add: Backup_Write_def or_empty_def not_less)
qed

text \<open>An empty store: the file is truncated, and then there is nothing to write.\<close>

lemma write_nothing:
  assumes "inv s" and "\<not> b_mu b" and "healthy (b_Path b) d" and "gauges s = fmempty" and "counters s = fmempty"
  obtains e s' where "Backup_Write b db True d s = Ret (Some e, put_file (b_Path b) [] d, s')" and "inv s'"
proof -
  obtain s1 where g: "GetGaugeAll db s = Ret (Inr fmempty, s1)" "inv s1" "counters s1 = fmempty"
    using get_gauge_all_eq [OF assms(1)] assms(4,5) by metis
  obtain s2 where c: "GetCounterAll db s1 = Ret (Inr fmempty, s2)" "inv s2"
    using get_counter_all_eq [OF g(2)] g(3) by metis
  from g c truncated_open [OF assms(3)] assms(2) that show ?thesis
    by (simp add: Backup_Write_def or_empty_def gauge_part_def counter_part_def)
qed

text \<open>\<open>RestorePrev\<close> once the two parts are read.\<close>

lemma restore_parts:
  assumes "inv s" and "\<not> b_mu b" and "b_RestoreFlag b" and "d_open_err d (b_Path b) = None" and "d_files d (b_Path b) = Some txt"
    and parts: "read_parts txt = Ret (gj, cj)"
    and gj: "2 < length gj \<and> unmarshal_gauges gj = (None, g) \<or> length gj \<le> 2 \<and> g = fmempty"
    and cj: "2 < length cj \<and> unmarshal_counters cj = (None, c) \<or> length cj \<le> 2 \<and> c = fmempty"
    and some: "2 < length gj \<or> 2 < length cj"
  shows "\<exists>s'. RestorePrev b db d s = Ret (None, d, s') \<and> inv s' \<and>
    gauges s' = fmadd (gauges s) g \<and> counters s' = add_counters c (counters s)"
proof -
  obtain s1 where s1: "SetGaugeAll db g s = Ret (None, s1)" "inv s1" "gauges s1 = fmadd (gauges s) g" "counters s1 = counters s"
    using set_gauge_all_eq [OF assms(1)] by metis
  have "\<exists>s1 ge. restore_gauges b db gj s = Ret ((None, ge), s1) \<and> inv s1 \<and> gauges s1 = fmadd (gauges s) g \<and>
      counters s1 = counters s \<and> (2 < length gj \<longrightarrow> ge = None)"
    using gj s1 assms(1) by (auto simp: restore_gauges_def not_less)
  then obtain s2 ge where s2: "restore_gauges b db gj s = Ret ((None, ge), s2)" "inv s2"
    "gauges s2 = fmadd (gauges s) g" "counters s2 = counters s" "2 < length gj \<longrightarrow> ge = None" by blast
  obtain s3 where s3: "SetCounterAll db c s2 = Ret (None, s3)" "inv s3" "gauges s3 = gauges s2" "counters s3 = add_counters c (counters s2)"
    using set_counter_all_eq [OF s2(2)] by metis
  have "\<exists>s'. restore_counters b db cj (None, ge) s2 = Ret (None, s') \<and> inv s' \<and>
      gauges s' = gauges s2 \<and> counters s' = add_counters c (counters s2)"
    using cj some s2 s3 by (auto simp: restore_counters_def not_less)
  with s2 show ?thesis
    using assms(2-5) parts
    by (auto simp: RestorePrev_def ShouldRestore_def OpenFile_def file_contents_def)
qed

end

text \<open>The file of two maps whose names are safe, and what the scanner makes of it.\<close>

lemma Trim_braces: "set xs \<subseteq> set ''[,]'' \<Longrightarrow> set ys \<subseteq> set ''[,]'' \<Longrightarrow>
    Trim (xs @ (CHR ''{'' # b @ ''}'') @ ys) ''[,]'' = CHR ''{'' # b @ ''}''"
  by (rule Trim_core) auto

lemma gauge_part_shape:
  assumes "gauge_part g = Inr pt1" and "\<forall>k \<in> fmdom' g. safe_name k"
  obtains b where "pt1 = CHR ''{'' # b @ ''}''" "calm pt1"
    "2 < length pt1 \<and> unmarshal_gauges pt1 = (None, g) \<or> length pt1 \<le> 2 \<and> g = fmempty"
proof (cases "g = fmempty")
  case True
  with assms(1) that [of "[]"] show ?thesis by (auto simp: gauge_part_def)
next
  case False
  with assms have m: "marshal_map json_float g = Inr pt1" and "\<forall>k \<in> fmdom' g. utf8_name k"
    by (auto simp: gauge_part_def marshal_gauges_def safe_name_def)
  then have "unmarshal_gauges pt1 = (None, g)"
    by (simp add: gauge_codec.unmarshal_marshal unmarshal_gauges_def)
  with False gauge_codec.marshal_shape [OF m assms(2)] that show ?thesis by metis
qed

lemma counter_part_shape:
  assumes "counter_part c = Inr pt2" and "\<forall>k \<in> fmdom' c. safe_name k"
  obtains "pt2 = []" "c = fmempty"
    | b where "pt2 = CHR ''{'' # b @ ''}''" "calm pt2" "2 < length pt2" "unmarshal_counters pt2 = (None, c)"
proof (cases "c = fmempty")
  case True
  with assms(1) that(1) show ?thesis by (auto simp: counter_part_def)
next
  case False
  with assms have m: "marshal_map json_int c = Inr pt2" and "\<forall>k \<in> fmdom' c. utf8_name k"
    by (auto simp: counter_part_def marshal_counters_def safe_name_def)
  then have "unmarshal_counters pt2 = (None, c)"
    by (simp add: counter_codec.unmarshal_marshal unmarshal_counters_def)
  with False counter_codec.marshal_shape [OF m assms(2)] that(2) show ?thesis by metis
qed

lemma backup_parts:
  assumes pt1: "gauge_part g = Inr pt1" and pt2: "counter_part c = Inr pt2"
    and names: "\<forall>k \<in> fmdom' g. safe_name k" "\<forall>k \<in> fmdom' c. safe_name k"
    and size: "length (backup_data pt1 pt2) < 4096" "length pt1 < 2047"
  shows "read_parts (backup_data pt1 pt2) = Ret (pt1, pt2) \<and>
    (2 < length pt1 \<and> unmarshal_gauges pt1 = (None, g) \<or> length pt1 \<le> 2 \<and> g = fmempty) \<and>
    (2 < length pt2 \<and> unmarshal_counters pt2 = (None, c) \<or> length pt2 \<le> 2 \<and> c = fmempty)"
proof -
  obtain b1 where b1: "pt1 = CHR ''{'' # b1 @ ''}''" "calm pt1"
    and g: "2 < length pt1 \<and> unmarshal_gauges pt1 = (None, g) \<or> length pt1 \<le> 2 \<and> g = fmempty"
    using gauge_part_shape [OF pt1 names(1)] .
  have calm1: "calm (CHR ''['' # pt1)" using b1 by simp
  from pt2 names(2) show ?thesis
  proof (cases rule: counter_part_shape)
    case 1
    have data: "backup_data pt1 pt2 = CHR ''['' # pt1 @ '']''" using 1 by (simp add: backup_data_def)
    have "calm (CHR ''['' # pt1 @ '']'')" using calm_append [OF calm1, of "'']''"] by simp
    then have "read_parts (backup_data pt1 pt2) = Ret (Trim (CHR ''['' # pt1 @ '']'') ''[,]'', [])"
      unfolding data by (rule read_parts_one) (use size(1) data in simp_all)
    moreover have "Trim (CHR ''['' # pt1 @ '']'') ''[,]'' = pt1"
      using Trim_braces [of "''[''" "'']''" b1] b1(1) by simp
    ultimately show ?thesis using g 1 by simp
  next
    case (2 b2)
    have data: "backup_data pt1 pt2 = (CHR ''['' # pt1) @ CHR '','' # CHR ''{'' # (b2 @ ''}]'')"
      using 2(1,3) by (cases b2) (simp_all add: backup_data_def)
    have "calm (CHR ''{'' # (b2 @ ''}]''))" using calm_append [of pt2 "'']''"] 2 by simp
    with calm1 have "read_parts (backup_data pt1 pt2) =
        Ret (Trim ((CHR ''['' # pt1) @ '','') ''[,]'', Trim (CHR ''{'' # (b2 @ ''}]'')) ''[,]'')"
      unfolding data by (rule read_parts_two) (use size data in simp_all)
    moreover have "Trim ((CHR ''['' # pt1) @ '','') ''[,]'' = pt1"
      using Trim_braces [of "''[''" "'',''" b1] b1(1) by simp
    moreover have "Trim (CHR ''{'' # (b2 @ ''}]'')) ''[,]'' = pt2"
      using Trim_braces [of "[]" "'']''" b2] 2(1) by simp
    ultimately show ?thesis using g 2 by simp
  qed
qed

text \<open>
  C11. A store of finite gauges and of counters whose names are UTF-8 and contain no \<open>,{\<close>,
  written to a healthy disk, comes back: \<open>RestorePrev\<close> on the written file merges the
  gauges and adds the counters to any other in-memory store (a fresh one becomes equal to
  the saved one), as long as the file stays below the scanner's first buffer (4096 bytes)
  and the gauges below half of it.
\<close>

theorem backup_roundtrip:
  assumes "mem_inv ms" and "mem_inv ms0" and "\<not> b_mu b" and "b_RestoreFlag b" and "healthy (b_Path b) d"
    and "gauge_part (mem_gauges ms) = Inr pt1" and "counter_part (mem_counters ms) = Inr pt2"
    and "\<forall>k \<in> fmdom' (mem_gauges ms). safe_name k" and "\<forall>k \<in> fmdom' (mem_counters ms). safe_name k"
    and "3 \<le> length pt1 \<or> 3 \<le> length pt2"
    and "length (backup_data pt1 pt2) < 4096" and "length pt1 < 2047"
  shows "\<exists>d' ms1 ms2. Backup_Write b memory_db True d ms = Ret (None, d', ms1) \<and>
    mem_gauges ms1 = mem_gauges ms \<and> mem_counters ms1 = mem_counters ms \<and>
    RestorePrev b memory_db d' ms0 = Ret (None, d', ms2) \<and> mem_inv ms2 \<and>
    mem_gauges ms2 = fmadd (mem_gauges ms0) (mem_gauges ms) \<and>
    mem_counters ms2 = add_counters (mem_counters ms) (mem_counters ms0)"
proof -
  let ?d' = "put_file (b_Path b) (backup_data pt1 pt2) d"
  obtain ms1 where w: "Backup_Write b memory_db True d ms = Ret (None, ?d', ms1)"
    "mem_gauges ms1 = mem_gauges ms" "mem_counters ms1 = mem_counters ms"
    using mem.write_ok [OF assms(1,3,5,6,7,10)] by blast
  note parts = backup_parts [OF assms(6-9,11,12)]
  have "\<exists>ms2. RestorePrev b memory_db ?d' ms0 = Ret (None, ?d', ms2) \<and> mem_inv ms2 \<and>
      mem_gauges ms2 = fmadd (mem_gauges ms0) (mem_gauges ms) \<and>
      mem_counters ms2 = add_counters (mem_counters ms) (mem_counters ms0)"
    by (rule mem.restore_parts [of ms0 b ?d' "backup_data pt1 pt2" pt1 pt2])
      (use assms parts in \<open>auto simp: healthy_def\<close>)
  with w show ?thesis by blast
qed

end
