(* ===== verification/Fw_Limits.thy ===== *)
theory Fw_Limits
  imports Fw_Facts
begin

text \<open>
  The limits of the backup file: the scan always ends (the fuel of \<open>Scan\<close> suffices); a
  comma at the end of the scanner's buffer panics; gauges past half of the buffer are
  overwritten before they are read; a gauge without a JSON form loses the old backup; the
  ticks of \<open>Schedule\<close> write nothing.
\<close>

section \<open>The scan ends\<close>

definition advances :: "split_fn \<Rightarrow> bool" where
  "advances f \<longleftrightarrow> (\<forall>d e. f d e \<noteq> Blocked \<and> (\<forall>adv t. f d e = Ret (adv, t) \<longrightarrow> adv \<le> length d))"

definition work :: "Scanner \<Rightarrow> nat" where
  "work sc = length (sc_rest sc) + (if sc_err sc then 0 else 1)"

lemma sc_ok_shift: "sc_ok sc \<Longrightarrow> sc_ok (shift_buf sc) \<and> work (shift_buf sc) = work sc"
  by (auto simp: sc_ok_def shift_buf_def set_cur_def cur_buf_def overwrite_def sc_data_def work_def)

lemma sc_ok_grow:
  assumes "sc_ok sc" and "grow_buf sc = Some sc'"
  shows "sc_ok sc' \<and> work sc' = work sc \<and> sc_end sc' < length (cur_buf sc') \<and> sc_err sc' = sc_err sc"
proof (cases "sc_end sc = length (cur_buf sc)")
  case True
  let ?n = "length (cur_buf sc)"
  let ?size = "min (if ?n = 0 then startBufSize else 2 * ?n) maxTokenSize"
  from True assms have lt: "?n < maxTokenSize" and sc': "sc' = sc\<lparr>arrays := arrays sc @ [overwrite 0 (sc_data sc) (replicate ?size CHR 0x00)],
      sc_end := sc_end sc - sc_start sc, sc_start := 0\<rparr>"
    by (auto simp: grow_buf_def Let_def split: if_splits)
  have "?n < ?size" using lt by (auto simp: startBufSize_def maxTokenSize_def)
  moreover have "length (sc_data sc) \<le> ?n" by (simp add: sc_data_def)
  ultimately have "length (overwrite 0 (sc_data sc) (replicate ?size CHR 0x00)) = ?size"
    by (simp add: overwrite_def)
  moreover have "?n - sc_start sc < ?size" using \<open>?n < ?size\<close> by linarith
  ultimately show ?thesis unfolding sc' using True by (simp add: sc_ok_def cur_buf_def work_def)
next
  case False
  with assms show ?thesis by (auto simp: grow_buf_def sc_ok_def Let_def)
qed

lemma sc_ok_read:
  assumes "sc_ok sc" and "sc_end sc < length (cur_buf sc)" and "\<not> sc_err sc"
  shows "sc_ok (read_buf sc) \<and> work (read_buf sc) < work sc"
  using assms
  by (cases "sc_rest sc = []")
    (auto simp: read_buf_def sc_ok_def Let_def work_def cur_buf_def set_cur_def overwrite_def min_def)

definition keeps :: "Scanner \<Rightarrow> Scanner \<Rightarrow> bool" where
  "keeps sc sc' \<longleftrightarrow> sc_ok sc' \<and> work sc' = work sc \<and> sc_err sc' = sc_err sc"

lemma try_split_keeps:
  assumes "advances f" and "sc_ok sc"
  shows "try_split f sc = More sc' \<Longrightarrow> keeps sc sc'" "try_split f sc = Token t sc' \<Longrightarrow> keeps sc sc'"
    "try_split f sc \<noteq> Stop sc'"
proof -
  have "case try_split f sc of More sc' \<Rightarrow> keeps sc sc' | Token t sc' \<Rightarrow> keeps sc sc' | Stop _ \<Rightarrow> False | Crash _ \<Rightarrow> True"
  proof (cases "sc_start sc < sc_end sc \<or> sc_err sc")
    case True
    show ?thesis
    proof (cases "f (sc_data sc) (sc_err sc)")
      case (Ret r)
      obtain adv tok where r: "r = (adv, tok)" by (cases r)
      with assms(1) Ret have "adv \<le> length (sc_data sc)" unfolding advances_def by blast
      then have "keeps sc (sc\<lparr>sc_start := sc_start sc + adv\<rparr>)"
        using assms(2) by (auto simp: keeps_def sc_ok_def sc_data_def cur_buf_def work_def)
      with True Ret r show ?thesis by (cases tok) (auto simp: try_split_def)
    qed (use True assms(1) in \<open>auto simp: try_split_def advances_def\<close>)
  next
    case False
    with assms(2) show ?thesis by (simp add: try_split_def keeps_def)
  qed
  then show "try_split f sc = More sc' \<Longrightarrow> keeps sc sc'" "try_split f sc = Token t sc' \<Longrightarrow> keeps sc sc'"
    "try_split f sc \<noteq> Stop sc'" by auto
qed

lemma Scan_ends:
  "advances f \<Longrightarrow> sc_ok sc \<Longrightarrow> work sc < n \<Longrightarrow>
   Scan n f sc \<noteq> Blocked \<and> (\<forall>t sc'. Scan n f sc = Ret (t, sc') \<longrightarrow> sc_ok sc' \<and> work sc' \<le> work sc)"
proof (induction n arbitrary: sc)
  case (Suc n)
  show ?case
  proof (cases "try_split f sc")
    case (Token t sc')
    with try_split_keeps(2) [OF Suc.prems(1,2) Token] show ?thesis by (simp add: keeps_def)
  next
    case (Stop sc')
    with try_split_keeps(3) [OF Suc.prems(1,2)] show ?thesis by blast
  next
    case (Crash p)
    then show ?thesis by simp
  next
    case (More sc')
    note more = try_split_keeps(1) [OF Suc.prems(1,2) More, unfolded keeps_def]
    show ?thesis
    proof (cases "sc_err sc'")
      case True
      with More more show ?thesis by (auto simp: sc_ok_def cur_buf_def work_def)
    next
      case False
      note shift = sc_ok_shift [of sc']
      have err: "\<not> sc_err (shift_buf sc')" using False by (simp add: shift_buf_def set_cur_def)
      show ?thesis
      proof (cases "grow_buf (shift_buf sc')")
        case None
        with More more False shift show ?thesis by (auto simp: sc_ok_def cur_buf_def work_def)
      next
        case (Some sc'')
        note grow = sc_ok_grow [OF _ Some]
        have "sc_ok (read_buf sc'') \<and> work (read_buf sc'') < work sc"
          using sc_ok_read [of sc''] grow shift more err by simp
        with Suc.IH [OF Suc.prems(1), of "read_buf sc''"] Suc.prems(3) More False Some
        show ?thesis by fastforce
      qed
    qed
  qed
qed simp

lemma split_search_bound: "split_search i s = Ret (Some j) \<Longrightarrow> j < i + length s"
  by (induction i s rule: split_search.induct) (auto split: if_splits list.splits)

lemma split_search_not_Blocked: "split_search i s \<noteq> Blocked"
  by (induction i s rule: split_search.induct) (auto split: list.splits)

lemma backup_split_advances: "advances backup_split"
proof -
  have "backup_split d e \<noteq> Blocked \<and> (\<forall>adv t. backup_split d e = Ret (adv, t) \<longrightarrow> adv \<le> length d)" for d e
  proof (cases "split_search 0 d")
    case (Ret r)
    with split_search_bound [of 0 d] show ?thesis
      by (cases r) (auto simp: backup_split_def Suc_le_eq)
  next
    case Blocked
    with split_search_not_Blocked show ?thesis by blast
  qed (simp add: backup_split_def)
  then show ?thesis by (simp add: advances_def)
qed

lemma work_fuel: "work sc < scan_fuel sc"
  by (simp add: work_def scan_fuel_def)

text \<open>
  Reading the backup file ends on every file: the fuel given to the two scans is never
  exhausted, so \<open>RestorePrev\<close> waits only for the backup's mutex or the store.
\<close>

lemma read_parts_ends: "read_parts txt \<noteq> Blocked"
proof -
  let ?sc0 = "NewScanner txt"
  have ok: "sc_ok ?sc0" by (simp add: sc_ok_def NewScanner_def cur_buf_def)
  note scan = Scan_ends [OF backup_split_advances _ work_fuel]
  show ?thesis
  proof (cases "Scan (scan_fuel ?sc0) backup_split ?sc0")
    case (Ret r)
    obtain t1 sc1 where r: "r = (t1, sc1)" by (cases r)
    with Ret scan [OF ok] have "sc_ok sc1" by blast
    from scan [OF this] show ?thesis
      using Ret r by (cases "Scan (scan_fuel sc1) backup_split sc1") (auto simp: read_parts_def Let_def)
  qed (use scan [OF ok] in \<open>auto simp: read_parts_def Let_def\<close>)
qed

section \<open>Gauges past half of the buffer\<close>

text \<open>
  The second scan moves the rest of the file to the front of the buffer, under the slice the
  first scan returned.
\<close>

lemma read_parts_shifted:
  assumes "calm p" and "calm (CHR ''{'' # t)" and "2048 \<le> length p" and "length p + length t + 2 < 4096"
    and f: "f = p @ CHR '','' # CHR ''{'' # t"
  shows "read_parts f = Ret (take (length (Trim (p @ '','') ''[,]''))
      (drop (length (takeWhile (\<lambda>c. c \<in> set ''[,]'') (p @ '','')))
        (overwrite 0 (CHR ''{'' # t) (f @ replicate (4096 - length f) CHR 0x00))), Trim (CHR ''{'' # t) ''[,]'')"
proof -
  let ?st = "length p + 1" and ?buf = "f @ replicate (4096 - length f) CHR 0x00" and ?rest = "CHR ''{'' # t"
  let ?l = "length (takeWhile (\<lambda>c. c \<in> set ''[,]'') (p @ '',''))"
  have fuel: "scan_fuel (NewScanner f) = Suc (Suc (length p + length t + 2))"
    by (simp add: scan_fuel_def NewScanner_def f)
  have first: "Scan (scan_fuel (NewScanner f)) backup_split (NewScanner f) =
      Ret (Some \<lparr>s_arr = 1, s_off = 0, s_len = ?st\<rparr>, loaded f ?st False)"
    unfolding fuel using assms
    by (subst Scan_load) (simp_all add: try_split_def backup_split_def split_search_found)
  have fuel2: "scan_fuel (loaded f ?st False) = Suc (Suc 0)" by (simp add: scan_fuel_def)
  have len: "length f = ?st + length ?rest" using f by simp
  have drop: "drop ?st f = ?rest" using f by simp
  let ?sc = "\<lparr>arrays = [[], overwrite 0 ?rest ?buf], sc_start = length ?rest, sc_end = length ?rest, sc_rest = [], sc_err = True\<rparr>"
  have second: "Scan (scan_fuel (loaded f ?st False)) backup_split (loaded f ?st False) =
      Ret (Some \<lparr>s_arr = 1, s_off = 0, s_len = length ?rest\<rparr>, ?sc)"
  proof -
    have "try_split backup_split (loaded f ?st False) = More (loaded f ?st False)"
      using len assms by (simp add: try_split_def drop backup_split_def split_search_calm del: split_search.simps)
    moreover have shift: "shift_buf (loaded f ?st False) = ?sc\<lparr>sc_start := 0, sc_err := False\<rparr>"
    proof -
      have "shift_buf (loaded f ?st False) = (set_cur (overwrite 0 ?rest ?buf) (loaded f ?st False))
          \<lparr>sc_end := length f - ?st, sc_start := 0\<rparr>"
        using assms(3,4) len unfolding shift_buf_def sc_data_loaded drop by simp
      then show ?thesis using len by (simp add: set_cur_def loaded_def)
    qed
    moreover have "grow_buf (?sc\<lparr>sc_start := 0, sc_err := False\<rparr>) = Some (?sc\<lparr>sc_start := 0, sc_err := False\<rparr>)"
      using assms(3,4) len by (simp add: grow_buf_def cur_buf_def overwrite_def)
    moreover have "read_buf (?sc\<lparr>sc_start := 0, sc_err := False\<rparr>) = ?sc\<lparr>sc_start := 0\<rparr>"
      by (simp add: read_buf_def)
    moreover have "sc_data (?sc\<lparr>sc_start := 0\<rparr>) = ?rest"
      by (simp add: sc_data_def cur_buf_def overwrite_def)
    then have "try_split backup_split (?sc\<lparr>sc_start := 0\<rparr>) = Token \<lparr>s_arr = 1, s_off = 0, s_len = length ?rest\<rparr> ?sc"
      using assms(2) by (simp add: try_split_def backup_split_def split_search_calm del: split_search.simps)
    ultimately show ?thesis unfolding fuel2 by simp
  qed
  have slice: "slice_bytes (arrays (loaded f ?st False)) \<lparr>s_arr = 1, s_off = 0, s_len = ?st\<rparr> = p @ '',''"
    by (subst slice_loaded) (simp_all add: f)
  have gj: "slice_bytes (arrays ?sc) (trim_slice (arrays (loaded f ?st False)) ''[,]'' \<lparr>s_arr = 1, s_off = 0, s_len = ?st\<rparr>)
      = take (length (Trim (p @ '','') ''[,]'')) (drop ?l (overwrite 0 ?rest ?buf))"
    unfolding trim_slice_def slice Let_def by (simp add: slice_bytes_def)
  have cj: "slice_bytes (arrays ?sc) (trim_slice (arrays ?sc) ''[,]'' \<lparr>s_arr = 1, s_off = 0, s_len = length ?rest\<rparr>)
      = Trim ?rest ''[,]''"
    by (subst slice_bytes_trim) (simp_all add: slice_bytes_def overwrite_def)
  show ?thesis
    unfolding read_parts_def Let_def first bind_outcome.simps prod.case second
    by (simp only: option.map option.case gj cj)
qed

text \<open>A text that continues after a string is no JSON value.\<close>

lemma json_parse_string_rest:
  assumes "utf8_name k"
  shows "json_parse (json_quote k @ CHR '':'' # x) = None"
proof -
  let ?s = "json_quote k @ CHR '':'' # x"
  have "2 * length ?s + 2 = Suc (2 * length ?s + 1)" by simp
  then have "json_value 10000 (2 * length ?s + 2) ?s = Some (JStr k, CHR '':'' # x)"
    using scan_quoted [OF assms, of "CHR '':'' # x"]
    unfolding \<open>2 * length ?s + 2 = Suc (2 * length ?s + 1)\<close> json_value.simps(2)
    by (simp add: json_quote_def)
  then show ?thesis by (simp only: json_parse_def option.case prod.case) simp
qed

context reliable_repo begin

lemma restore_without_gauges:
  assumes "inv s" and "\<not> b_mu b" and "b_RestoreFlag b" and "d_open_err d (b_Path b) = None" and "d_files d (b_Path b) = Some txt"
    and parts: "read_parts txt = Ret (gj, cj)" and gj: "2 < length gj" "json_parse gj = None"
    and cj: "2 < length cj" "unmarshal_counters cj = (None, c)"
  shows "\<exists>s'. RestorePrev b db d s = Ret (None, d, s') \<and> inv s' \<and>
    gauges s' = gauges s \<and> counters s' = add_counters c (counters s)"
proof -
  have g: "restore_gauges b db gj s = Ret ((Some syntax_error, None), s)"
    using gj by (simp add: restore_gauges_def unmarshal_gauges_def unmarshal_map_def)
  obtain s' where "SetCounterAll db c s = Ret (None, s')" "inv s'" "gauges s' = gauges s" "counters s' = add_counters c (counters s)"
    using set_counter_all_eq [OF assms(1)] by metis
  with g cj show ?thesis
    using assms(2-5) parts
    by (auto simp: RestorePrev_def ShouldRestore_def OpenFile_def file_contents_def restore_counters_def)
qed

end

lemma counter_part_json:
  assumes "counter_part c = Inr pt2" and "c \<noteq> fmempty" and "\<forall>k \<in> fmdom' c. safe_name k"
  obtains k x where "pt2 = CHR ''{'' # json_quote k @ CHR '':'' # x" "utf8_name k"
proof -
  from assms(1,2) obtain b where b: "encode_members json_int (sorted_list_of_fmap c) = Some b" and pt2: "pt2 = CHR ''{'' # b @ ''}''"
    by (auto simp: counter_part_def marshal_counters_def marshal_map_def split: option.splits)
  have "sorted_list_of_fmap c \<noteq> []" using assms(2) foldl_fmupd_sorted [of c] by auto
  then obtain k v kvs where kvs: "sorted_list_of_fmap c = (k, v) # kvs" by (metis neq_Nil_conv surj_pair)
  with b obtain e where "b = json_quote k @ CHR '':'' # e" by (auto split: option.splits)
  moreover have "k \<in> fmdom' c" using enumerates_dom [OF enumerates_sorted, of c] kvs by force
  ultimately show ?thesis using assms(3) pt2 that by (auto simp: safe_name_def)
qed

text \<open>
  C23. When the gauges take 2047 bytes or more (and the file still fits the scanner's
  buffer) and there is a counter, the restart reports success, restores the counters and
  loses every gauge: the slice of the gauges aliases the scanner's buffer, which the second
  scan overwrites, and the error of parsing what it then reads is dropped.
\<close>

theorem backup_loses_gauges:
  assumes "mem_inv ms" and "mem_inv ms0" and "\<not> b_mu b" and "b_RestoreFlag b" and "healthy (b_Path b) d"
    and "gauge_part (mem_gauges ms) = Inr pt1" and "counter_part (mem_counters ms) = Inr pt2"
    and "\<forall>k \<in> fmdom' (mem_gauges ms). safe_name k" and "\<forall>k \<in> fmdom' (mem_counters ms). safe_name k"
    and "mem_counters ms \<noteq> fmempty"
    and "length (backup_data pt1 pt2) < 4096" and "2047 \<le> length pt1"
  shows "\<exists>d' ms1 ms2. Backup_Write b memory_db True d ms = Ret (None, d', ms1) \<and>
    RestorePrev b memory_db d' ms0 = Ret (None, d', ms2) \<and>
    mem_gauges ms2 = mem_gauges ms0 \<and>
    mem_counters ms2 = add_counters (mem_counters ms) (mem_counters ms0)"
proof -
  let ?d' = "put_file (b_Path b) (backup_data pt1 pt2) d" and ?c = "mem_counters ms"
  obtain ms1 where w: "Backup_Write b memory_db True d ms = Ret (None, ?d', ms1)"
    using mem.write_ok [OF assms(1,3,5,6,7)] assms(12) by auto
  obtain b1 where b1: "pt1 = CHR ''{'' # b1 @ ''}''" "calm pt1"
    using gauge_part_shape [OF assms(6,8)] by metis
  obtain b2 where b2: "pt2 = CHR ''{'' # b2 @ ''}''" "calm pt2" "2 < length pt2" "unmarshal_counters pt2 = (None, ?c)"
    using counter_part_shape [OF assms(7,9)] assms(10) by metis
  obtain k x where k: "pt2 = CHR ''{'' # json_quote k @ CHR '':'' # x" "utf8_name k"
    using counter_part_json [OF assms(7,10,9)] .
  let ?f = "backup_data pt1 pt2"
  have f: "?f = (CHR ''['' # pt1) @ CHR '','' # CHR ''{'' # (b2 @ ''}]'')"
    using b2(1,3) by (cases b2) (simp_all add: backup_data_def)
  have rest: "CHR ''{'' # (b2 @ ''}]'') = pt2 @ '']''" using b2(1) by simp
  have gtrim: "Trim ((CHR ''['' # pt1) @ '','') ''[,]'' = pt1"
    using Trim_braces [of "''[''" "'',''" b1] b1(1) by simp
  have ctrim: "Trim (pt2 @ '']'') ''[,]'' = pt2"
    using Trim_braces [of "[]" "'']''" b2] b2(1) by simp
  have one: "length (takeWhile (\<lambda>c. c \<in> set ''[,]'') ((CHR ''['' # pt1) @ '','')) = 1" using b1(1) by simp
  have "read_parts ?f = Ret (take (length (Trim ((CHR ''['' # pt1) @ '','') ''[,]''))
      (drop (length (takeWhile (\<lambda>c. c \<in> set ''[,]'') ((CHR ''['' # pt1) @ '','')))
        (overwrite 0 (CHR ''{'' # (b2 @ ''}]'')) (?f @ replicate (4096 - length ?f) CHR 0x00))),
      Trim (CHR ''{'' # (b2 @ ''}]'')) ''[,]'')"
  proof (rule read_parts_shifted [OF _ _ _ _ f])
    show "calm (CHR ''{'' # (b2 @ ''}]''))" using calm_append [of pt2 "'']''"] b2 by simp
  qed (use b1(2) assms(11,12) f in simp_all)
  then have parts: "read_parts ?f = Ret (take (length pt1) (drop 1
      (overwrite 0 (pt2 @ '']'') (?f @ replicate (4096 - length ?f) CHR 0x00))), pt2)"
    by (simp only: gtrim rest ctrim one)
  have short: "length pt2 < length pt1" using assms(11,12) f rest by simp
  have gj: "\<exists>y. take (length pt1) (drop 1 (overwrite 0 (pt2 @ '']'') (?f @ z))) = json_quote k @ CHR '':'' # y" for z
  proof -
    have "drop 1 (overwrite 0 (pt2 @ '']'') (?f @ z)) = json_quote k @ CHR '':'' # x @ '']'' @ drop (Suc (length pt2)) (?f @ z)"
      using k(1) by (simp add: overwrite_def)
    moreover have "length (json_quote k @ '':'') \<le> length pt1" using short k(1) by simp
    ultimately show ?thesis by (auto simp: take_append take_Cons' not_less)
  qed
  obtain y where y: "take (length pt1) (drop 1
      (overwrite 0 (pt2 @ '']'') (?f @ replicate (4096 - length ?f) CHR 0x00))) = json_quote k @ CHR '':'' # y"
    using gj by blast
  then have "2 < length (json_quote k @ CHR '':'' # y)" by (simp add: json_quote_def)
  from mem.restore_without_gauges [OF assms(2,3,4) _ _ parts [unfolded y] this json_parse_string_rest [OF k(2)] b2(3,4), of ?d']
  show ?thesis using w assms(5) by (auto simp: healthy_def)
qed

section \<open>Concrete stores\<close>

text \<open>Stores with one or two gauges whose names are runs of one letter.\<close>

definition letters :: "nat \<Rightarrow> bytes" where
  "letters n = replicate n CHR ''a''"

lemma letters_name: "safe_name (letters n)"
proof -
  have "valid_utf8 n (letters n)" by (induction n) (simp_all add: letters_def)
  moreover have "no_sep (letters n)" by (induction n) (simp_all add: letters_def)
  ultimately show ?thesis by (simp add: safe_name_def utf8_name_def letters_def)
qed

lemma letters_quote: "json_quote (letters n) = CHR 0x22 # letters n @ [CHR 0x22]"
proof -
  have e: "escape_byte CHR ''a'' = ''a''" by code_simp
  have "quote_body n (letters n) = letters n" by (induction n) (simp_all add: letters_def e)
  then show ?thesis by (simp add: json_quote_def letters_def)
qed

lemma length_letters [simp]: "length (letters n) = n"
  by (simp add: letters_def)

lemma sorted_one: "sorted_list_of_fmap (fmupd (k :: string) v fmempty) = [(k, v)]"
  by (simp add: sorted_list_of_fmap_def sorted_list_of_fset.rep_eq)

lemma sorted_two: "(k :: string) < l \<Longrightarrow> sorted_list_of_fmap (fmupd k v (fmupd l w fmempty)) = [(k, v), (l, w)]"
  by (auto simp: sorted_list_of_fmap_def sorted_list_of_fset.rep_eq insort_is_Cons)

definition one_gauge :: "nat \<Rightarrow> MemorySt" where
  "one_gauge n = put_counters (fmupd ''c'' 1 fmempty) (put_gauges (fmupd (letters n) (0 :: float64) fmempty) Memory_Init)"

lemma json_float_zero: "json_float 0 = Some ''0''"
  by code_simp

lemma one_gauge_parts:
  "gauge_part (mem_gauges (one_gauge n)) = Inr (CHR ''{'' # CHR 0x22 # letters n @ CHR 0x22 # '':0}'')"
  "counter_part (mem_counters (one_gauge n)) = Inr (CHR ''{'' # CHR 0x22 # CHR ''c'' # CHR 0x22 # '':1}'')"
proof -
  have "json_quote ''c'' = [CHR 0x22, CHR ''c'', CHR 0x22]" "FormatInt 1 = ''1''" by code_simp+
  then show "counter_part (mem_counters (one_gauge n)) = Inr (CHR ''{'' # CHR 0x22 # CHR ''c'' # CHR 0x22 # '':1}'')"
    by (simp add: counter_part_def one_gauge_def marshal_counters_def marshal_map_def sorted_one json_int_def)
  show "gauge_part (mem_gauges (one_gauge n)) = Inr (CHR ''{'' # CHR 0x22 # letters n @ CHR 0x22 # '':0}'')"
    by (simp add: gauge_part_def one_gauge_def marshal_gauges_def marshal_map_def sorted_one letters_quote json_float_zero)
qed

lemma one_gauge_names:
  "\<forall>k \<in> fmdom' (mem_gauges (one_gauge n)). safe_name k" "\<forall>k \<in> fmdom' (mem_counters (one_gauge n)). safe_name k"
  "mem_inv (one_gauge n)" "mem_counters (one_gauge n) \<noteq> fmempty"
  "mem_gauges (one_gauge n) = fmupd (letters n) 0 fmempty"
  "mem_counters (one_gauge n) = fmupd ''c'' 1 fmempty"
  using letters_name by (simp_all add: one_gauge_def safe_name_def utf8_name_def)

definition test_backup :: Backup where
  "test_backup = \<lparr>b_mu = False, b_Path = ''/tmp/backup.json'', b_Interval = 300, b_RestoreFlag = True\<rparr>"

definition test_disk :: Disk where
  "test_disk = \<lparr>d_files = (\<lambda>_. Some ''[{}]''), d_open_err = (\<lambda>_. None), d_truncate_fails = (\<lambda>_. False), d_write_err = (\<lambda>_. None)\<rparr>"

lemma test_env: "\<not> b_mu test_backup" "b_RestoreFlag test_backup" "healthy p test_disk"
  by (simp_all add: test_backup_def test_disk_def healthy_def)

lemma one_gauge_size:
  "length (backup_data (CHR ''{'' # CHR 0x22 # letters n @ CHR 0x22 # '':0}'') (CHR ''{'' # CHR 0x22 # CHR ''c'' # CHR 0x22 # '':1}'')) = n + 16"
  by (simp add: backup_data_def)

theorem backup_loses_gauges_witness:
  "\<exists>d' ms1 ms2. Backup_Write test_backup memory_db True test_disk (one_gauge 2100) = Ret (None, d', ms1) \<and>
    RestorePrev test_backup memory_db d' Memory_Init = Ret (None, d', ms2) \<and>
    mem_gauges ms2 = fmempty \<and> mem_counters ms2 = fmupd ''c'' 1 fmempty"
proof -
  note inst = backup_loses_gauges [OF one_gauge_names(3) mem_inv_Init(1) test_env one_gauge_parts
      one_gauge_names(1,2,4), of 2100, unfolded one_gauge_size one_gauge_names(6) mem_inv_Init(2,3) add_counters_empty(2)]
  show ?thesis by (rule inst) simp_all
qed

lemma fmadd_empty_left: "fmadd fmempty g = g"
  by (intro fmap_ext) (simp split: option.splits)

theorem backup_roundtrip_witness:
  "\<exists>d' ms1 ms2. Backup_Write test_backup memory_db True test_disk (one_gauge 5) = Ret (None, d', ms1) \<and>
    mem_gauges ms1 = fmupd (letters 5) 0 fmempty \<and> mem_counters ms1 = fmupd ''c'' 1 fmempty \<and>
    RestorePrev test_backup memory_db d' Memory_Init = Ret (None, d', ms2) \<and> mem_inv ms2 \<and>
    mem_gauges ms2 = fmupd (letters 5) 0 fmempty \<and> mem_counters ms2 = fmupd ''c'' 1 fmempty"
proof -
  note inst = backup_roundtrip [OF one_gauge_names(3) mem_inv_Init(1) test_env one_gauge_parts
      one_gauge_names(1,2), of 5, unfolded one_gauge_size one_gauge_names(5,6) mem_inv_Init(2,3) add_counters_empty(2) fmadd_empty_left]
  show ?thesis by (rule inst) simp_all
qed

section \<open>A comma at the end of the buffer\<close>

lemma split_search_panics:
  "no_sep s \<Longrightarrow> s \<noteq> [] \<Longrightarrow> last s = CHR '','' \<Longrightarrow> split_search i s = Panic ''runtime error: index out of range''"
proof (induction s arbitrary: i)
  case (Cons c s)
  then show ?case by (cases s) auto
qed simp

text \<open>
  C27. When the first 4096 bytes of the file end in a comma before any separator is seen,
  \<open>RestorePrev\<close> panics: its split function reads the byte after the data.
\<close>

theorem restore_panics_on_comma:
  assumes "b_RestoreFlag b" and "\<not> b_mu b" and "d_open_err d (b_Path b) = None" and "d_files d (b_Path b) = Some txt"
    and "4096 \<le> length txt" and "no_sep (take 4096 txt)" and "txt ! 4095 = CHR '',''"
  shows "RestorePrev b db d s = Panic ''runtime error: index out of range''"
proof -
  let ?data = "take 4096 txt"
  have "last ?data = CHR '',''" using assms(5,7) by (subst last_conv_nth) auto
  moreover have "?data \<noteq> []" using assms(5) by auto
  ultimately have split: "split_search 0 ?data = Panic ''runtime error: index out of range''"
    using assms(6) by (simp add: split_search_panics)
  let ?sc = "\<lparr>arrays = [[], ?data], sc_start = 0, sc_end = 4096, sc_rest = drop 4096 txt, sc_err = False\<rparr>"
  have "Scan (Suc n) backup_split (NewScanner txt) = Scan n backup_split ?sc" for n
    using assms(5)
    by (auto simp: NewScanner_def try_split_def shift_buf_def grow_buf_def cur_buf_def startBufSize_def
        maxTokenSize_def sc_data_def overwrite_def read_buf_def set_cur_def min_def Let_def)
  moreover have "Scan (Suc n) backup_split ?sc = Panic ''runtime error: index out of range''" for n
    using assms(5) split by (simp add: try_split_def sc_data_def cur_buf_def backup_split_def min_def)
  ultimately have "Scan (scan_fuel (NewScanner txt)) backup_split (NewScanner txt) = Panic ''runtime error: index out of range''"
    by (simp add: scan_fuel_def numeral_2_eq_2)
  then have "read_parts txt = Panic ''runtime error: index out of range''"
    by (simp add: read_parts_def Let_def)
  with assms(1-4) show ?thesis
    by (simp add: RestorePrev_def ShouldRestore_def OpenFile_def file_contents_def)
qed

text \<open>A store whose backup panics the next start: its file has a comma at offset 4095.\<close>

definition two_gauges :: MemorySt where
  "two_gauges = put_gauges (fmupd (letters 4089) (0 :: float64) (fmupd ''b'' 0 fmempty)) Memory_Init"

definition two_gauges_file :: bytes where
  "two_gauges_file = CHR ''['' # CHR ''{'' # CHR 0x22 # letters 4089 @
     CHR 0x22 # '':0,'' @ CHR 0x22 # CHR ''b'' # CHR 0x22 # '':0}]''"

lemma no_sep_append: "no_sep (a @ b) \<longleftrightarrow> no_sep a \<and> no_sep b \<and> (a \<noteq> [] \<and> last a = CHR '','' \<longrightarrow> b = [] \<or> hd b \<noteq> CHR ''{'')"
  by (induction a) (auto split: if_splits)

lemma letters_less: "letters (Suc n) < ''b''"
  by (simp add: letters_def)

lemma two_gauges_written:
  "\<exists>ms1. Backup_Write test_backup memory_db True test_disk two_gauges =
    Ret (None, put_file (b_Path test_backup) two_gauges_file test_disk, ms1)"
proof -
  have less: "letters 4089 < ''b''" using letters_less [of 4088] by simp
  have b: "json_quote ''b'' = [CHR 0x22, CHR ''b'', CHR 0x22]" by code_simp
  let ?pt1 = "CHR ''{'' # CHR 0x22 # letters 4089 @ CHR 0x22 # '':0,'' @ CHR 0x22 # CHR ''b'' # CHR 0x22 # '':0}''"
  have pt1: "gauge_part (mem_gauges two_gauges) = Inr ?pt1"
    by (simp add: gauge_part_def two_gauges_def marshal_gauges_def marshal_map_def sorted_two [OF less]
        letters_quote b json_float_zero)
  have pt2: "counter_part (mem_counters two_gauges) = Inr []"
    by (simp add: counter_part_def two_gauges_def)
  have inv: "mem_inv two_gauges" by (simp add: two_gauges_def)
  have data: "backup_data ?pt1 [] = two_gauges_file" by (simp add: backup_data_def two_gauges_file_def)
  have "3 \<le> length ?pt1" by simp
  then show ?thesis
    using mem.write_ok [OF inv test_env(1,3) pt1 pt2] unfolding data by blast
qed

theorem restore_panics_on_comma_witness:
  "(\<exists>ms1. Backup_Write test_backup memory_db True test_disk two_gauges =
      Ret (None, put_file (b_Path test_backup) two_gauges_file test_disk, ms1)) \<and>
   RestorePrev test_backup memory_db (put_file (b_Path test_backup) two_gauges_file test_disk) Memory_Init =
      Panic ''runtime error: index out of range''"
proof -
  have len: "length two_gauges_file = 4103" by (simp add: two_gauges_file_def)
  have front: "take 4096 two_gauges_file = (CHR ''['' # CHR ''{'' # [CHR 0x22]) @ letters 4089 @ CHR 0x22 # '':0,''"
    by (simp add: two_gauges_file_def)
  have "no_sep (letters 4089)" using letters_name by (simp add: safe_name_def)
  then have "no_sep (take 4096 two_gauges_file)"
    unfolding front no_sep_append by (auto simp: letters_def)
  moreover have "two_gauges_file ! 4095 = CHR '',''"
  proof -
    have "two_gauges_file ! 4095 = take 4096 two_gauges_file ! 4095" by simp
    also have "\<dots> = CHR '',''" unfolding front by (simp add: nth_append)
    finally show ?thesis .
  qed
  ultimately show ?thesis
    using two_gauges_written test_env len
    by (intro conjI restore_panics_on_comma [of _ _ two_gauges_file]) (simp_all add: healthy_def)
qed

section \<open>A gauge without a JSON form\<close>

text \<open>
  C28. One NaN or infinite gauge in the store makes every backup fail, and only after the
  old file was truncated: what it held is lost.
\<close>

theorem write_non_finite_loses_backup:
  assumes "mem_inv ms" and "\<not> b_mu b" and "healthy (b_Path b) d"
    and "fmlookup (mem_gauges ms) n = Some v" and "\<not> is_finite v"
  shows "\<exists>e ms'. Backup_Write b memory_db True d ms = Ret (Some e, put_file (b_Path b) [] d, ms') \<and>
    mem_gauges ms' = mem_gauges ms \<and> mem_counters ms' = mem_counters ms"
proof -
  have "map_of (sorted_list_of_fmap (mem_gauges ms)) n = Some v" using assms(4) by (simp add: map_of_sorted_list)
  then have "(n, v) \<in> set (sorted_list_of_fmap (mem_gauges ms))" by (rule map_of_SomeD)
  moreover have "json_float v = None" using assms(5) by (simp add: json_float_def)
  ultimately have "encode_members json_float (sorted_list_of_fmap (mem_gauges ms)) = None"
    using gauge_codec.encode_members_None by blast
  moreover have "mem_gauges ms \<noteq> fmempty" using assms(4) by auto
  ultimately obtain e where e: "gauge_part (mem_gauges ms) = Inl e"
    by (auto simp: gauge_part_def marshal_gauges_def marshal_map_def)
  with truncated_open [OF assms(3)] assms(1,2) show ?thesis
    by (simp add: Backup_Write_def memory_db_def memory_gets or_empty_def)
qed

theorem write_non_finite_loses_backup_witness:
  "\<exists>e ms'. Backup_Write test_backup memory_db True test_disk (put_gauges (fmupd ''x'' f64_nan fmempty) Memory_Init) =
    Ret (Some e, put_file (b_Path test_backup) [] test_disk, ms') \<and>
    mem_gauges ms' = fmupd ''x'' f64_nan fmempty \<and> mem_counters ms' = fmempty"
proof -
  have nan: "\<not> is_finite f64_nan" by code_simp
  have "mem_inv (put_gauges (fmupd ''x'' f64_nan fmempty) Memory_Init)" by simp
  from write_non_finite_loses_backup [OF this test_env(1,3) _ nan, of "''x''"] show ?thesis by simp
qed

section \<open>Schedule\<close>

text \<open>
  The scheduler writes only once, at the end of its context, however many ticks came
  before and whatever interval is configured; without that end nothing is ever written.
\<close>

lemma schedule_writes_at_end:
  "Schedule (b\<lparr>b_Interval := i\<rparr>) db (replicate n Tick @ CtxDone # evs) d s = Backup_Write b db True d s \<and>
   Schedule b db (replicate n Tick) d s = Blocked"
proof -
  have "Backup_Write (b\<lparr>b_Interval := i\<rparr>) db True d s = Backup_Write b db True d s"
  proof -
    have "b_mu (b\<lparr>b_Interval := i\<rparr>) = b_mu b" "b_Path (b\<lparr>b_Interval := i\<rparr>) = b_Path b" by simp_all
    then show ?thesis unfolding Backup_Write_def by (simp only:)
  qed
  then show ?thesis by (induction n) simp_all
qed

end
