(* ===== verification/Repo_Facts.thy ===== *)
theory Repo_Facts
  imports Repo Pgsql_Facts Fw_Limits
begin

text \<open>
  The server's store keeps the contract of a store whichever provider it dispatches to
  (\<open>dispatch_repo\<close>), and is reliable in memory (interpretation \<open>in_memory\<close>); the type
  invariant of \<open>Current\<close>; what a restart of the server preserves.
\<close>

section \<open>The interface value\<close>

lemma on_left_simps [simp]:
  "on_left f g (Inl p) = map_outcome (apsnd Inl) (f p)" "on_left f g (Inr m) = map_outcome (apsnd Inr) (g m)"
  by (simp_all add: on_left_def)

lemma map_outcome_apsnd_eq [simp]:
  "map_outcome (apsnd h) x = Ret (r, y) \<longleftrightarrow> (\<exists>z. x = Ret (r, z) \<and> y = h z)"
  by (cases x) auto

lemma dispatch_sel [simp]:
  "GetGauge (dispatch a b) n = on_left (GetGauge a n) (GetGauge b n)"
  "GetGaugeAll (dispatch a b) = on_left (GetGaugeAll a) (GetGaugeAll b)"
  "GetCounter (dispatch a b) n = on_left (GetCounter a n) (GetCounter b n)"
  "GetCounterAll (dispatch a b) = on_left (GetCounterAll a) (GetCounterAll b)"
  "SetGauge (dispatch a b) n v = on_left (SetGauge a n v) (SetGauge b n v)"
  "SetGaugeAll (dispatch a b) g = on_left (SetGaugeAll a g) (SetGaugeAll b g)"
  "SetCounter (dispatch a b) n i = on_left (SetCounter a n i) (SetCounter b n i)"
  "SetCounterAll (dispatch a b) c = on_left (SetCounterAll a c) (SetCounterAll b c)"
  "Ping (dispatch a b) = on_left (Ping a) (Ping b)"
  by (simp_all add: dispatch_def)

text \<open>Two providers that keep the contract, behind one interface value.\<close>

lemma dispatch_repo:
  assumes a: "metrics_repo a inva ga ca" and b: "metrics_repo b invb gb cb"
  shows "metrics_repo (dispatch a b) (case_sum inva invb) (case_sum ga gb) (case_sum ca cb)"
proof -
  show ?thesis
  proof (unfold_locales, goal_cases)
    case (1 s n)
    then show ?case
      by (cases s) (force dest: metrics_repo.get_gauge [OF a, of _ n] metrics_repo.get_gauge [OF b, of _ n])+
  next
    case (2 s)
    then show ?case
      by (cases s) (force dest: metrics_repo.get_gauge_all [OF a] metrics_repo.get_gauge_all [OF b])+
  next
    case (3 s n)
    then show ?case
      by (cases s) (force dest: metrics_repo.get_counter [OF a, of _ n] metrics_repo.get_counter [OF b, of _ n])+
  next
    case (4 s)
    then show ?case
      by (cases s) (force dest: metrics_repo.get_counter_all [OF a] metrics_repo.get_counter_all [OF b])+
  next
    case (5 s n v)
    then show ?case
      by (cases s) (force dest: metrics_repo.set_gauge [OF a, of _ n v] metrics_repo.set_gauge [OF b, of _ n v])+
  next
    case (6 s d)
    then show ?case
      by (cases s) (force dest: metrics_repo.set_gauge_all [OF a, of _ d] metrics_repo.set_gauge_all [OF b, of _ d])+
  next
    case (7 s n i)
    then show ?case
      by (cases s) (force dest: metrics_repo.set_counter [OF a, of _ n i] metrics_repo.set_counter [OF b, of _ n i])+
  next
    case (8 s c)
    then show ?case
      by (cases s) (force dest: metrics_repo.set_counter_all [OF a, of _ c] metrics_repo.set_counter_all [OF b, of _ c])+
  next
    case (9 s)
    then show ?case
      by (cases s) (force dest: metrics_repo.ping [OF a] metrics_repo.ping [OF b])+
  qed
qed

text \<open>In memory the interface value never fails, whatever the driver.\<close>

interpretation in_memory: offline_repo "repo_db pg" "case_sum (\<lambda>_. False) mem_inv"
    "case_sum (\<lambda>_. fmempty) mem_gauges" "case_sum (\<lambda>_. fmempty) mem_counters"
proof -
  have "metrics_repo (pgsql_db pg) (\<lambda>_. False) (\<lambda>_. fmempty) (\<lambda>_. fmempty)" by unfold_locales simp_all
  from dispatch_repo [OF this mem.metrics_repo_axioms]
  have "metrics_repo (repo_db pg) (case_sum (\<lambda>_. False) mem_inv) (case_sum (\<lambda>_. fmempty) mem_gauges) (case_sum (\<lambda>_. fmempty) mem_counters)"
    by (simp add: repo_db_def)
  moreover have "reliable_repo_axioms (repo_db pg) (case_sum (\<lambda>_. False) mem_inv)"
    using mem.gets_succeed mem.sets_succeed by unfold_locales (auto simp: repo_db_def split: sum.splits)
  ultimately have "reliable_repo (repo_db pg) (case_sum (\<lambda>_. False) mem_inv)
      (case_sum (\<lambda>_. fmempty) mem_gauges) (case_sum (\<lambda>_. fmempty) mem_counters)"
    by (rule reliable_repo.intro)
  moreover have "offline_repo_axioms (repo_db pg) (case_sum (\<lambda>_. False) mem_inv)"
    using mem.ping_fails by unfold_locales (auto simp: repo_db_def split: sum.splits)
  ultimately show "offline_repo (repo_db pg) (case_sum (\<lambda>_. False) mem_inv)
      (case_sum (\<lambda>_. fmempty) mem_gauges) (case_sum (\<lambda>_. fmempty) mem_counters)"
    by (rule offline_repo.intro)
qed

section \<open>Backups keep the contract\<close>

context metrics_repo begin

lemma SetGaugeAll_inv: "inv s \<Longrightarrow> SetGaugeAll db m s = Ret (e, s') \<Longrightarrow> inv s'"
  using set_gauge_all [of s m] by auto

lemma SetCounterAll_inv: "inv s \<Longrightarrow> SetCounterAll db m s = Ret (e, s') \<Longrightarrow> inv s'"
  using set_counter_all [of s m] by auto

lemma restore_gauges_inv: "inv s \<Longrightarrow> restore_gauges b db gj s = Ret (r, s') \<Longrightarrow> inv s'"
  by (auto simp: restore_gauges_def SetGaugeAll_inv split: if_splits prod.splits option.splits)

lemma restore_counters_inv: "inv s \<Longrightarrow> restore_counters b db cj g s = Ret (r, s') \<Longrightarrow> inv s'"
  by (auto simp: restore_counters_def SetCounterAll_inv split: if_splits prod.splits option.splits)

lemma RestorePrev_inv: "inv s \<Longrightarrow> RestorePrev b db d s = Ret (e, d', s') \<Longrightarrow> inv s'"
  by (auto simp: RestorePrev_def split: if_splits sum.splits prod.splits dest: restore_gauges_inv restore_counters_inv)

lemma Backup_Write_inv:
  "inv s \<Longrightarrow> Backup_Write b db t d s = Ret (e, d', s') \<Longrightarrow> inv s' \<and> gauges s' = gauges s \<and> counters s' = counters s"
proof -
  assume s: "inv s" and w: "Backup_Write b db t d s = Ret (e, d', s')"
  obtain g s1 where g: "GetGaugeAll db s = Ret (g, s1)" "inv s1" "gauges s1 = gauges s" "counters s1 = counters s"
    using get_gauge_all [OF s] by blast
  obtain c s2 where c: "GetCounterAll db s1 = Ret (c, s2)" "inv s2" "gauges s2 = gauges s" "counters s2 = counters s"
    using get_counter_all [OF g(2)] g by metis
  have "s' = s \<or> s' = s2"
    using w g(1) c(1) by (auto simp: Backup_Write_def Let_def split: if_splits sum.splits prod.splits)
  with s c show ?thesis by auto
qed

lemma Schedule_inv:
  "inv s \<Longrightarrow> Schedule b db evs d s = Ret (e, d', s') \<Longrightarrow> inv s' \<and> gauges s' = gauges s \<and> counters s' = counters s"
proof (induction evs)
  case (Cons ev evs)
  then show ?case by (cases ev) (auto dest: Backup_Write_inv)
qed simp

end

section \<open>Properties\<close>

text \<open>The flag tells the provider, and the provider's invariant holds.\<close>

definition cur_good :: "('p \<Rightarrow> txst) \<Rightarrow> 'p Current \<Rightarrow> bool" where
  "cur_good cur c \<longleftrightarrow>
     (case cur_repo c of Inl p \<Rightarrow> \<not> isInMemory c \<and> cur p = NoTx | Inr ms \<Rightarrow> isInMemory c \<and> mem_inv ms)"

definition cur_tables :: "('p \<Rightarrow> tables) \<Rightarrow> 'p Current \<Rightarrow> tables" where
  "cur_tables tables c = (case cur_repo c of Inl p \<Rightarrow> tables p | Inr ms \<Rightarrow> (mem_gauges ms, mem_counters ms))"

text \<open>
  C17. The server's store is consistent from start to end: \<open>Init\<close> makes a PostgreSQL store
  exactly when a connection string is given and the connection is made, else an empty memory
  store; restoring and backing up keep the flag and the provider's invariant; a backup never
  changes a metric; and with PostgreSQL both do nothing, to the store and to the file.
\<close>

theorem current_invariant:
  assumes "pg_laws pg tables cur" and "\<forall>p. pgInit connStr = Inr p \<longrightarrow> cur p = NoTx"
  shows "cur_good cur (Repo_Init pgInit connStr b) \<and>
    isInMemory (Repo_Init pgInit connStr b) = (connStr = [] \<or> (\<exists>e. pgInit connStr = Inl e)) \<and>
    (\<forall>c d e d' c'. cur_good cur c \<and> Restore pg d c = Ret (e, d', c') \<longrightarrow>
       cur_good cur c' \<and> (\<not> isInMemory c \<longrightarrow> d' = d \<and> c' = c)) \<and>
    (\<forall>c evs d e d' c'. cur_good cur c \<and> ScheduleBackup pg evs d c = Ret (e, d', c') \<longrightarrow>
       cur_good cur c' \<and> cur_tables tables c' = cur_tables tables c \<and> (\<not> isInMemory c \<longrightarrow> d' = d \<and> c' = c))"
proof (intro conjI allI impI; (elim conjE)?)
  show "cur_good cur (Repo_Init pgInit connStr b)"
    "isInMemory (Repo_Init pgInit connStr b) = (connStr = [] \<or> (\<exists>e. pgInit connStr = Inl e))"
    using assms(2) by (auto simp: Repo_Init_def cur_good_def Let_def split: sum.splits)
next
  fix c d e d' c'
  assume c: "cur_good cur c" and r: "Restore pg d c = Ret (e, d', c')"
  show "\<not> isInMemory c \<Longrightarrow> d' = d" "\<not> isInMemory c \<Longrightarrow> c' = c" using r by (simp_all add: Restore_def)
  show "cur_good cur c'"
    using c r in_memory.RestorePrev_inv [where pg = pg]
    by (auto simp: Restore_def cur_good_def split: if_splits sum.splits) (fastforce split: sum.splits)+
next
  fix c evs d e d' c'
  assume c: "cur_good cur c" and r: "ScheduleBackup pg evs d c = Ret (e, d', c')"
  show "\<not> isInMemory c \<Longrightarrow> d' = d" "\<not> isInMemory c \<Longrightarrow> c' = c" using r by (simp_all add: ScheduleBackup_def)
  show "cur_good cur c'" "cur_tables tables c' = cur_tables tables c"
    using c r in_memory.Schedule_inv [where pg = pg]
    by (auto simp: ScheduleBackup_def cur_good_def cur_tables_def split: if_splits sum.splits) (fastforce split: sum.splits)+
qed

theorem current_invariant_witness:
  "cur_good td_cur (Repo_Init (\<lambda>_. Inl (ErrMsg ''refused'') :: go_error + Toy_db) ''dsn'' test_backup) \<and>
   isInMemory (Repo_Init (\<lambda>_. Inl (ErrMsg ''refused'') :: go_error + Toy_db) ''dsn'' test_backup)"
  using current_invariant [OF toy_pg_laws, of "\<lambda>_. Inl (ErrMsg ''refused'')" "''dsn''" test_backup] by simp

lemma Schedule_ticks: "Schedule b db (replicate n Tick @ [CtxDone]) d s = Backup_Write b db True d s"
  by (induction n) simp_all

text \<open>The shutdown's write and the next start's restoration of it.\<close>

lemma write_then_restore:
  assumes "mem_inv ms" and "\<not> b_mu b" and "\<not> b_mu b'" and "b_RestoreFlag b'" and "b_Path b' = b_Path b" and "healthy (b_Path b) d"
    and "gauge_part (mem_gauges ms) = Inr pt1" and "counter_part (mem_counters ms) = Inr pt2"
    and "\<forall>k \<in> fmdom' (mem_gauges ms). safe_name k" and "\<forall>k \<in> fmdom' (mem_counters ms). safe_name k"
    and "3 \<le> length pt1 \<or> 3 \<le> length pt2"
    and "length (backup_data pt1 pt2) < 4096" and "length pt1 < 2047"
  defines "d' \<equiv> put_file (b_Path b) (backup_data pt1 pt2) d"
  obtains m1 m2 where "Backup_Write b (repo_db pg) True d (Inr ms) = Ret (None, d', Inr m1)"
    and "mem_inv m1" and "mem_gauges m1 = mem_gauges ms" and "mem_counters m1 = mem_counters ms"
    and "RestorePrev b' (repo_db pg) d' (Inr Memory_Init) = Ret (None, d', Inr m2)"
    and "mem_inv m2" and "mem_gauges m2 = mem_gauges ms" and "mem_counters m2 = mem_counters ms"
proof -
  obtain s1 where w: "Backup_Write b (repo_db pg) True d (Inr ms) = Ret (None, d', s1)"
      "case_sum (\<lambda>_. False) mem_inv s1" "case_sum (\<lambda>_. fmempty) mem_gauges s1 = mem_gauges ms" "case_sum (\<lambda>_. fmempty) mem_counters s1 = mem_counters ms"
    unfolding d'_def using in_memory.write_ok [of "Inr ms" b d pt1 pt2, where pg = pg] assms by auto
  note parts = backup_parts [OF assms(7-10,12,13)]
  have "\<exists>s'. RestorePrev b' (repo_db pg) d' (Inr Memory_Init) = Ret (None, d', s') \<and> case_sum (\<lambda>_. False) mem_inv s' \<and>
      case_sum (\<lambda>_. fmempty) mem_gauges s' = fmadd (case_sum (\<lambda>_. fmempty) mem_gauges (Inr Memory_Init)) (mem_gauges ms) \<and>
      case_sum (\<lambda>_. fmempty) mem_counters s' = add_counters (mem_counters ms) (case_sum (\<lambda>_. fmempty) mem_counters (Inr Memory_Init))"
    unfolding d'_def
    using in_memory.restore_parts [of "Inr Memory_Init" b' d' "backup_data pt1 pt2" pt1 pt2 "mem_gauges ms" "mem_counters ms", where pg = pg, unfolded d'_def]
      assms parts unfolding healthy_def by fastforce
  then obtain s2 where r: "RestorePrev b' (repo_db pg) d' (Inr Memory_Init) = Ret (None, d', s2)" "case_sum (\<lambda>_. False) mem_inv s2"
      "case_sum (\<lambda>_. fmempty) mem_gauges s2 = mem_gauges ms" "case_sum (\<lambda>_. fmempty) mem_counters s2 = mem_counters ms"
    by (auto simp: fmadd_empty_left)
  from w r that show ?thesis by (cases s1; cases s2) auto
qed

text \<open>
  A restart of a server without a database keeps every metric: the backup written when
  the context ends, after any number of ticks, restored by the next server's fresh store,
  gives the same gauges and counters, for finite gauges, names without \<open>,{\<close> and a file
  below the scanner's first buffer. Nothing written between two restarts is in the file.
\<close>

theorem restart_preserves_metrics:
  assumes "isInMemory c" and "cur_repo c = Inr ms" and "mem_inv ms" and "cur_bkp c = b"
    and "\<not> b_mu b" and "b_RestoreFlag b" and "healthy (b_Path b) d"
    and "gauge_part (mem_gauges ms) = Inr pt1" and "counter_part (mem_counters ms) = Inr pt2"
    and "\<forall>k \<in> fmdom' (mem_gauges ms). safe_name k" and "\<forall>k \<in> fmdom' (mem_counters ms). safe_name k"
    and "3 \<le> length pt1 \<or> 3 \<le> length pt2"
    and "length (backup_data pt1 pt2) < 4096" and "length pt1 < 2047"
  shows "\<exists>d' c1 c2. ScheduleBackup pg (replicate n Tick @ [CtxDone]) d c = Ret (None, d', c1) \<and>
    Restore pg d' (Repo_Init pgInit [] b) = Ret (None, d', c2) \<and>
    cur_tables tables c1 = cur_tables tables c \<and> cur_tables tables c2 = cur_tables tables c \<and> cur_good cur c2 \<and>
    ScheduleBackup pg (replicate n Tick) d c = Blocked"
proof -
  let ?d' = "put_file (b_Path b) (backup_data pt1 pt2) d"
  have init: "Repo_Init pgInit [] b = \<lparr>cur_repo = Inr Memory_Init, cur_bkp = b, isInMemory = True\<rparr>"
    by (simp add: Repo_Init_def Let_def)
  obtain m1 m2 where w: "Backup_Write b (repo_db pg) True d (Inr ms) = Ret (None, ?d', Inr m1)"
      "mem_gauges m1 = mem_gauges ms" "mem_counters m1 = mem_counters ms"
    and r: "RestorePrev b (repo_db pg) ?d' (Inr Memory_Init) = Ret (None, ?d', Inr m2)"
      "mem_inv m2" "mem_gauges m2 = mem_gauges ms" "mem_counters m2 = mem_counters ms"
    by (rule write_then_restore [OF assms(3,5,5,6) refl assms(7-14), where pg = pg])
  have "Schedule b (repo_db pg) (replicate n Tick) d x = Blocked" for x by (induction n) simp_all
  moreover have "ScheduleBackup pg (replicate n Tick @ [CtxDone]) d c = Ret (None, ?d', c\<lparr>cur_repo := Inr m1\<rparr>)"
    using assms(1,2,4) w(1) by (simp add: ScheduleBackup_def Schedule_ticks)
  moreover have "Restore pg ?d' (Repo_Init pgInit [] b) = Ret (None, ?d', (Repo_Init pgInit [] b)\<lparr>cur_repo := Inr m2\<rparr>)"
    using assms(6) r(1) by (simp add: Restore_def init ShouldRestore_def)
  ultimately show ?thesis
    using assms(1,2,4) w r by (auto simp: cur_tables_def cur_good_def init ScheduleBackup_def)
qed

end
