(* ===== verification/Handlers_Spec.thy ===== *)
theory Handlers_Spec
  imports Handlers Memory
begin

text \<open>
  What the handlers of \<open>Handlers\<close> promise: an abstract server on the pair of gauges and
  counters (\<open>spec_update\<close>, \<open>spec_batch\<close>, \<open>spec_value\<close>), and the proof that
  every handler implements it on any reliable store and any well-behaved writer (locale
  \<open>api\<close>), interpreted on the in-memory store and the server's writer (\<open>api_mem\<close>).
\<close>

section \<open>The abstract server\<close>

text \<open>
  What an update means for the pair of gauges and counters, without stores, writers or
  errors of either: the status and the new pair, or a panic.
\<close>

type_synonym metrics_state = "float64 gomap \<times> int64 gomap"

definition spec_update :: "Metrics \<Rightarrow> metrics_state \<Rightarrow> (nat \<times> metrics_state) outcome" where
  "spec_update m st =
     (if ID m = [] then Ret (404, st)
      else if MType m = GaugeType then
        (if SValue m \<noteq> [] then
           (case ParseGauge (SValue m) of
              Inl e \<Rightarrow> Ret (400, st)
            | Inr v \<Rightarrow> Ret (200, fmupd (ID m) v (fst st), snd st))
         else case Value m of
                None \<Rightarrow> Panic nil_deref
              | Some v \<Rightarrow> Ret (200, fmupd (ID m) v (fst st), snd st))
      else if MType m = CounterType then
        (if SValue m \<noteq> [] then
           (case ParseCounter (SValue m) of
              Inl e \<Rightarrow> Ret (400, st)
            | Inr d \<Rightarrow> Ret (200, fst st, add_counter (ID m) d (snd st)))
         else case Delta m of
                None \<Rightarrow> Panic nil_deref
              | Some d \<Rightarrow> Ret (200, fst st, add_counter (ID m) d (snd st)))
      else Ret (400, st))"

text \<open>A batch, as its usable records applied one after the other.\<close>

definition usable :: "Metrics \<Rightarrow> bool" where
  "usable m \<longleftrightarrow> ID m \<noteq> [] \<and> (MType m = GaugeType \<or> MType m = CounterType)"

definition complete :: "Metrics \<Rightarrow> bool" where
  "complete m \<longleftrightarrow> (MType m = GaugeType \<longrightarrow> Value m \<noteq> None) \<and> (MType m = CounterType \<longrightarrow> Delta m \<noteq> None)"

definition apply_record :: "metrics_state \<Rightarrow> Metrics \<Rightarrow> metrics_state" where
  "apply_record st m =
     (case spec_update m st of Ret (_, st') \<Rightarrow> st' | _ \<Rightarrow> st)"

definition spec_batch :: "Metrics list \<Rightarrow> metrics_state \<Rightarrow> (nat \<times> metrics_state) outcome" where
  "spec_batch mm st =
     (if \<exists>m \<in> set mm. usable m \<and> \<not> complete m then Panic nil_deref
      else if filter usable mm = [] then Ret (400, st)
      else Ret (200, foldl apply_record st (filter usable mm)))"

text \<open>The JSON frame: status 400 for another content type, 500 for a body that cannot be read.\<close>

definition spec_json :: "Request \<Rightarrow> (bytes \<Rightarrow> 'x \<Rightarrow> (nat \<times> 'x) outcome) \<Rightarrow> 'x \<Rightarrow> (nat \<times> 'x) outcome" where
  "spec_json req f st =
     (if \<not> Contains (hdr_Get ''Content-Type'' (rHeader req)) ''application/json'' then Ret (400, st)
      else if read_err (rBody req) \<noteq> None then Ret (500, st)
      else f (content (rBody req)) st)"

definition path_metrics :: "Request \<Rightarrow> Metrics" where
  "path_metrics req = Metrics_zero\<lparr>MType := URLParam req ''type'', ID := URLParam req ''name'',
     SValue := URLParam req ''value''\<rparr>"

definition spec_update_json :: "bytes \<Rightarrow> metrics_state \<Rightarrow> (nat \<times> metrics_state) outcome" where
  "spec_update_json b st =
     (case unmarshal_Metrics b of (Some e, _) \<Rightarrow> Ret (400, st) | (None, m) \<Rightarrow> spec_update m st)"

definition spec_batch_json :: "bytes \<Rightarrow> metrics_state \<Rightarrow> (nat \<times> metrics_state) outcome" where
  "spec_batch_json b st =
     (case unmarshal_batch b of (Some e, _) \<Rightarrow> Ret (400, st) | (None, mm) \<Rightarrow> spec_batch mm st)"

text \<open>What a client and the store show of a handler's result.\<close>

definition view :: "('w \<Rightarrow> nat option) \<Rightarrow> ('s \<Rightarrow> 'x) \<Rightarrow> ('w \<times> 's) outcome \<Rightarrow> (nat option \<times> 'x) outcome" where
  "view code st = map_outcome (\<lambda>(w, s). (code w, st s))"

text \<open>The first status sent stays: \<open>c0\<close> is what was sent before the handler ran.\<close>

definition sent :: "nat option \<Rightarrow> nat \<Rightarrow> nat option" where
  "sent c0 c = Some (case c0 of None \<Rightarrow> c | Some c' \<Rightarrow> c')"

lemma sent_simps [simp]: "sent None c = Some c" "sent (Some c') c = Some c'" "sent (sent c0 c) d = sent c0 c"
  by (simp_all add: sent_def)

definition status :: "nat option \<Rightarrow> (nat \<times> 'x) outcome \<Rightarrow> (nat option \<times> 'x) outcome" where
  "status c0 = map_outcome (apfst (sent c0))"

lemma view_simps [simp]:
  "view code st (Ret (w, s)) = Ret (code w, st s)" "view code st (Panic p) = Panic p"
  "status c0 (Ret (c, x)) = Ret (sent c0 c, x)" "status c0 (Panic p) = Panic p"
  "view code st Blocked = Blocked" "status c0 Blocked = Blocked"
  by (simp_all add: view_def status_def)

text \<open>A handler implements an abstract step: status and state agree, and the store keeps its invariant.\<close>

definition implements :: "('w \<Rightarrow> nat option) \<Rightarrow> ('w \<Rightarrow> bool) \<Rightarrow> ('s \<Rightarrow> 'x) \<Rightarrow> ('s \<Rightarrow> bool)
    \<Rightarrow> nat option \<Rightarrow> ('w \<times> 's) outcome \<Rightarrow> (nat \<times> 'x) outcome \<Rightarrow> bool" where
  "implements code okw st good c0 r spec \<longleftrightarrow>
     view code st r = status c0 spec \<and> (\<forall>w s'. r = Ret (w, s') \<longrightarrow> good s' \<and> okw w)"

definition pair :: "('s \<Rightarrow> float64 gomap) \<Rightarrow> ('s \<Rightarrow> int64 gomap) \<Rightarrow> 's \<Rightarrow> metrics_state" where
  "pair g c s = (g s, c s)"

section \<open>Facts about the batch\<close>

lemma decode_fields_SValue: "SValue (snd (decode_fields js err m)) = SValue m"
proof (induction js arbitrary: err m)
  case (Cons kj js)
  obtain k j where kj: "kj = (k, j)" by (cases kj)
  obtain e m' where f: "decode_field k j m = (e, m')" by (cases "decode_field k j m")
  moreover have "SValue (snd (decode_field k j m)) = SValue m"
    by (simp add: decode_field_def Let_def apsnd_def map_prod_def split: prod.splits)
  ultimately have "SValue m' = SValue m" by simp
  with Cons kj f show ?case by simp
qed simp

lemma decode_Metrics_SValue: "SValue (snd (decode_Metrics j m)) = SValue m"
  by (simp add: decode_Metrics_def decode_fields_SValue split: json.splits)

lemma decode_elems_SValue: "m \<in> set (snd (decode_elems js err)) \<Longrightarrow> SValue m = []"
proof (induction js arbitrary: err)
  case (Cons j js)
  obtain e m1 where d: "decode_Metrics j Metrics_zero = (e, m1)"
    by (cases "decode_Metrics j Metrics_zero")
  moreover have "SValue m1 = []"
    using decode_Metrics_SValue [of j Metrics_zero] d by (simp add: Metrics_zero_def)
  ultimately show ?case using Cons by auto
qed simp

lemma unmarshal_batch_SValue: "unmarshal_batch b = (None, mm) \<Longrightarrow> m \<in> set mm \<Longrightarrow> SValue m = []"
proof -
  assume b: "unmarshal_batch b = (None, mm)" and m: "m \<in> set mm"
  then obtain js where "decode_elems js None = (None, mm)"
    by (auto simp: unmarshal_batch_def split: option.splits json.splits)
  with m decode_elems_SValue [of m js None] show ?thesis by simp
qed

text \<open>The loop body, record by record.\<close>

lemma collect_batch_step:
  "\<not> usable r \<Longrightarrow> collect_batch (r # rs) gm cm = collect_batch rs gm cm"
  "usable r \<Longrightarrow> \<not> complete r \<Longrightarrow> collect_batch (r # rs) gm cm = Panic nil_deref"
  "ID r \<noteq> [] \<Longrightarrow> MType r = GaugeType \<Longrightarrow> Value r = Some v \<Longrightarrow>
   collect_batch (r # rs) gm cm = collect_batch rs (fmupd (ID r) v gm) cm"
  "ID r \<noteq> [] \<Longrightarrow> MType r = CounterType \<Longrightarrow> Delta r = Some d \<Longrightarrow>
   collect_batch (r # rs) gm cm = collect_batch rs gm (fmupd (ID r) (plus_opt (fmlookup cm (ID r)) d) cm)"
  by (auto simp: usable_def complete_def plus_opt_def split: option.splits)

lemma record_cases [case_names skip gauge counter incomplete]:
  obtains "\<not> usable r"
    | v where "ID r \<noteq> []" "MType r = GaugeType" "Value r = Some v"
    | d where "ID r \<noteq> []" "MType r = CounterType" "Delta r = Some d"
    | "usable r" "\<not> complete r"
  by (fastforce simp: usable_def complete_def)

declare collect_batch.simps(2) [simp del]

lemma collect_batch_panics:
  "\<exists>m \<in> set mm. usable m \<and> \<not> complete m \<Longrightarrow> collect_batch mm gm cm = Panic nil_deref"
proof (induction mm arbitrary: gm cm)
  case (Cons r rs)
  show ?case
  proof (cases r rule: record_cases)
    case incomplete
    then show ?thesis by (simp add: collect_batch_step)
  qed (use Cons in \<open>auto simp: collect_batch_step usable_def complete_def\<close>)
qed simp

lemma fmadd_upd: "fmadd g (fmupd k v gm) = fmupd k v (fmadd g gm)"
  by simp

lemma add_counters_upd:
  "add_counters (fmupd k (plus_opt (fmlookup cm k) d) cm) c = add_counter k d (add_counters cm c)"
  by (intro fmap_ext) (auto simp: plus_opt_def algebra_simps split: option.splits)

lemma collect_batch_refines:
  assumes "\<forall>m \<in> set mm. (usable m \<longrightarrow> complete m) \<and> SValue m = []"
  shows "\<exists>gm' cm'. collect_batch mm gm cm = Ret (gm', cm') \<and>
    (fmadd g gm', add_counters cm' c) = foldl apply_record (fmadd g gm, add_counters cm c) (filter usable mm) \<and>
    (gm' = fmempty \<and> cm' = fmempty \<longleftrightarrow> gm = fmempty \<and> cm = fmempty \<and> filter usable mm = [])"
  using assms
proof (induction mm arbitrary: gm cm)
  case (Cons r rs)
  show ?case
  proof (cases r rule: record_cases)
    case skip
    with Cons.IH [of gm cm] Cons.prems show ?thesis by (simp add: collect_batch_step)
  next
    case (gauge v)
    then have "apply_record (fmadd g gm, add_counters cm c) r = (fmadd g (fmupd (ID r) v gm), add_counters cm c)"
      using Cons.prems by (simp add: apply_record_def spec_update_def)
    with gauge Cons.IH [of "fmupd (ID r) v gm" cm] Cons.prems show ?thesis
      by (simp add: usable_def collect_batch_step)
  next
    case (counter d)
    let ?cm = "fmupd (ID r) (plus_opt (fmlookup cm (ID r)) d) cm"
    have "apply_record (fmadd g gm, add_counters cm c) r = (fmadd g gm, add_counters ?cm c)"
      using counter Cons.prems by (simp add: apply_record_def spec_update_def add_counters_upd)
    with counter Cons.IH [of gm ?cm] Cons.prems show ?thesis
      by (simp add: usable_def collect_batch_step)
  next
    case incomplete
    with Cons.prems show ?thesis by simp
  qed
qed simp

section \<open>Values\<close>

text \<open>The value a query finds, or the status of its failure.\<close>

definition spec_value :: "Metrics \<Rightarrow> metrics_state \<Rightarrow> nat + Metrics" where
  "spec_value m st =
     (if ID m = [] then Inl 404
      else if MType m = GaugeType then
        (case fmlookup (fst st) (ID m) of
           None \<Rightarrow> Inl 404
         | Some v \<Rightarrow> Inr (Metrics_zero\<lparr>ID := ID m, MType := MType m, Value := Some v, SValue := FormatGauge v\<rparr>))
      else if MType m = CounterType then
        (case fmlookup (snd st) (ID m) of
           None \<Rightarrow> Inl 404
         | Some v \<Rightarrow> Inr (Metrics_zero\<lparr>ID := ID m, MType := MType m, Delta := Some v, SValue := FormatCounter v\<rparr>))
      else Inl 400)"

definition spec_value_json :: "bytes \<Rightarrow> metrics_state \<Rightarrow> (nat \<times> metrics_state) outcome" where
  "spec_value_json b st =
     (case unmarshal_Metrics b of
        (Some e, _) \<Rightarrow> Ret (400, st)
      | (None, m) \<Rightarrow>
          Ret (case spec_value m st of
                 Inl c \<Rightarrow> c
               | Inr x \<Rightarrow> (case marshal_Metrics x of Inl e \<Rightarrow> 500 | Inr js \<Rightarrow> 200), st))"

section \<open>Pages\<close>

text \<open>
  The root page's status: a page that was begun is sent with 200 whatever happens later. The
  template writes something or fails.
\<close>

type_synonym page = "(float64 gomap \<Rightarrow> int64 gomap \<Rightarrow> bytes list \<times> go_error option) option"

definition spec_page :: "page \<Rightarrow> metrics_state \<Rightarrow> nat" where
  "spec_page tmpl st =
     (case tmpl of None \<Rightarrow> 500 | Some execute \<Rightarrow> if fst (execute (fst st) (snd st)) = [] then 500 else 200)"

definition page_writes :: "page \<Rightarrow> bool" where
  "page_writes tmpl \<longleftrightarrow> (\<forall>execute g c. tmpl = Some execute \<longrightarrow> fst (execute g c) \<noteq> [] \<or> snd (execute g c) \<noteq> None)"

section \<open>Responses\<close>

context resp_writer begin

text \<open>On a writer with an intact state.\<close>

lemma code_respond: "ok w \<Longrightarrow> code (respond rw (c, e) w) = sent (code w) c" "ok w \<Longrightarrow> ok (respond rw (c, e) w)"
  by (simp_all add: respond_def api_Error_def sent_def split: option.splits)

lemma code_api_Error: "ok w \<Longrightarrow> code (api_Error rw e c w) = sent (code w) c"
    "ok w \<Longrightarrow> ok (api_Error rw e c w)"
  by (simp_all add: api_Error_def sent_def)

lemma implements_json_handler:
  assumes "good s" and "ok w"
    and h: "\<And>b. implements code ok st good (code w) (h b w s) (f b (st s))"
  shows "implements code ok st good (code w) (json_handler rw req h w s)
     (spec_json req f (st s))"
proof (cases "Contains (hdr_Get ''Content-Type'' (rHeader req)) ''application/json'' \<and> read_err (rBody req) = None")
  case True
  let ?h = "h (content (rBody req)) w s"
  show ?thesis
  proof (cases ?h)
    case (Ret ws)
    obtain w' s' where ws: "ws = (w', s')" by (cases ws)
    with Ret h [of "content (rBody req)"] obtain c where "code w' = sent (code w) c" "ok w'"
      by (cases "f (content (rBody req)) (st s)") (auto simp: implements_def)
    with True Ret ws h [of "content (rBody req)"] show ?thesis
      by (auto simp: implements_def json_handler_def spec_json_def code_api_Error split: option.splits)
  qed (use True h [of "content (rBody req)"] in \<open>auto simp: implements_def json_handler_def spec_json_def\<close>)
next
  case False
  with assms(1,2) show ?thesis
    by (auto simp: implements_def json_handler_def spec_json_def code_api_Error split: option.splits)
qed

lemma implements_error:
  "good s \<Longrightarrow> ok w \<Longrightarrow>
   implements code ok st good (code w) (Ret (api_Error rw e c w, s)) (Ret (c, st s))"
  by (simp add: implements_def code_api_Error)

lemma code_write_body:
  assumes "ok w"
  shows "code (write_body rw b w) = sent (code w) 200" "ok (write_body rw b w)"
proof -
  obtain n e w' where wr: "rw_Write rw b w = ((n, e), w')" by (metis surj_pair)
  with ok_write [OF assms, of b] have ok': "ok w'" by simp
  with wr show "ok (write_body rw b w)" by (simp add: write_body_def code_api_Error split: option.splits)
  show "code (write_body rw b w) = sent (code w) 200"
    using wr ok' code_write [OF assms, of b] by (simp add: write_body_def code_api_Error sent_def split: option.splits)
qed

lemma code_write_chunks:
  "ok w \<Longrightarrow> ok (snd (write_chunks rw bs w)) \<and> code (snd (write_chunks rw bs w)) = (if bs = [] then code w else sent (code w) 200)"
proof (induction bs arbitrary: w)
  case (Cons b bs)
  obtain n e w' where wr: "rw_Write rw b w = ((n, e), w')" by (metis surj_pair)
  with ok_write [OF Cons.prems, of b] code_write [OF Cons.prems, of b]
  have "ok w'" "code w' = sent (code w) 200" by (simp_all add: sent_def)
  with wr Cons.IH [of w'] show ?case by (auto simp: sent_def split: option.splits)
qed simp

text \<open>The root page, on the values it shows.\<close>

lemma code_page:
  fixes w :: 'w and g :: "float64 gomap" and c :: "int64 gomap"
  assumes "ok w" and "page_writes tmpl"
  defines "w' \<equiv> case tmpl of
      None \<Rightarrow> api_Error rw (NewRespError ''file parsing error'' None) 500 w
    | Some execute \<Rightarrow>
        (case tmpl_Execute rw (execute g c) (rw_SetHeader rw ''Content-Type'' ''text/html; charset=utf-8'' w) of
           (err, w') \<Rightarrow> (case err of Some e \<Rightarrow> api_Error rw (NewRespError ''template execution error'' (Some e)) 500 w' | None \<Rightarrow> w'))"
  shows "code w' = sent (code w) (spec_page tmpl (g, c))" "ok w'"
proof -
  have "code w' = sent (code w) (spec_page tmpl (g, c)) \<and> ok w'"
  proof (cases tmpl)
    case None
    with assms show ?thesis by (simp add: code_api_Error spec_page_def)
  next
    case (Some execute)
    obtain bs err where page: "execute g c = (bs, err)" by (cases "execute g c")
    let ?w = "rw_SetHeader rw ''Content-Type'' ''text/html; charset=utf-8'' w"
    obtain werr w1 where w1: "write_chunks rw bs ?w = (werr, w1)" by (cases "write_chunks rw bs ?w")
    have "ok ?w" "code ?w = code w" using assms(1) by simp_all
    with code_write_chunks [of ?w bs] w1 have code': "ok w1" "code w1 = (if bs = [] then code w else sent (code w) 200)" by simp_all
    have none: "bs = [] \<longrightarrow> werr = None \<and> err \<noteq> None"
    proof
      assume "bs = []"
      with assms(2) Some page have "err \<noteq> None" unfolding page_writes_def by (metis fst_conv snd_conv)
      with w1 \<open>bs = []\<close> show "werr = None \<and> err \<noteq> None" by simp
    qed
    have sent2: "sent (sent c0 200) 500 = sent c0 200" for c0 by (simp add: sent_def split: option.splits)
    from Some page w1 code' none show ?thesis
      by (auto simp: w'_def tmpl_Execute_def code_api_Error spec_page_def sent2 split: option.splits)
  qed
  then show "code w' = sent (code w) (spec_page tmpl (g, c))" "ok w'" by simp_all
qed

end

section \<open>Handlers on a reliable store\<close>

locale api = reliable_repo db inv gauges counters + resp_writer rw code ok
  for db :: "'s MetricsRepo" and inv gauges counters
    and rw :: "'w RespWriter" and code :: "'w \<Rightarrow> nat option" and ok :: "'w \<Rightarrow> bool"
begin

lemmas json_frame = implements_json_handler [where good = inv and st = "pair gauges counters"]
  and error_answer = implements_error [where good = inv and st = "pair gauges counters"]

text \<open>\<open>updateMetrics\<close> implements the abstract update; the error is nil exactly on status 200.\<close>

lemma updateMetrics_Panic:
  assumes "spec_update m st = Panic p"
  shows "updateMetrics db m s = Panic p"
  using assms
  by (auto simp: spec_update_def updateMetrics_def update_gauge_def update_counter_def
      split: if_splits sum.splits option.splits)

lemma spec_update_not_Blocked [simp]: "spec_update m st \<noteq> Blocked"
  by (auto simp: spec_update_def split: if_splits sum.splits option.splits)

lemma updateMetrics_Ret:
  assumes "inv s" and "spec_update m (gauges s, counters s) = Ret (c, st)"
  shows "\<exists>e s'. updateMetrics db m s = Ret ((c, e), s') \<and> inv s' \<and> (gauges s', counters s') = st \<and> (e = None \<longleftrightarrow> c = 200)"
proof -
  have gauge: "\<exists>s'. SetGauge db n v s = Ret (None, s') \<and> inv s' \<and> gauges s' = fmupd n v (gauges s) \<and> counters s' = counters s" for n v
    using set_gauge_eq [OF assms(1), of n v] by metis
  have counter: "\<exists>s'. SetCounter db n v s = Ret (None, s') \<and> inv s' \<and> gauges s' = gauges s \<and> counters s' = add_counter n v (counters s)" for n v
    using set_counter_eq [OF assms(1), of n v] by metis
  show ?thesis
  proof (cases "ID m \<noteq> [] \<and> (MType m = GaugeType \<or> MType m = CounterType)")
    case False
    with assms show ?thesis by (auto simp: spec_update_def updateMetrics_def split: if_splits)
  next
    case True
    then show ?thesis
    proof (cases "MType m = GaugeType")
      case True
      with \<open>ID m \<noteq> [] \<and> _\<close> assms gauge [of "ID m"] show ?thesis
        by (fastforce simp: spec_update_def updateMetrics_def update_gauge_def split: if_splits sum.splits option.splits)
    next
      case False
      with \<open>ID m \<noteq> [] \<and> _\<close> assms counter [of "ID m"] show ?thesis
        by (fastforce simp: spec_update_def updateMetrics_def update_counter_def split: if_splits sum.splits option.splits)
    qed
  qed
qed

lemma implements_update:
  assumes "inv s" and "ok w"
  shows "implements code ok (pair gauges counters) inv (code w)
     (bind_outcome (updateMetrics db m s) (\<lambda>(res, s'). Ret (respond rw res w, s')))
     (spec_update m (pair gauges counters s))"
proof (cases "spec_update m (gauges s, counters s)")
  case (Ret cst)
  obtain c st where cst: "cst = (c, st)" by (cases cst)
  with Ret updateMetrics_Ret [OF assms(1), of m c st] obtain e s'
    where "updateMetrics db m s = Ret ((c, e), s')" "inv s'" "(gauges s', counters s') = st" by auto
  with Ret cst show ?thesis using assms(2)
    by (auto simp: implements_def code_respond pair_def)
next
  case (Panic p)
  with updateMetrics_Panic [OF Panic] show ?thesis by (simp add: implements_def pair_def)
qed simp

lemma implements_UpdateHandler:
  "inv s \<Longrightarrow> ok w \<Longrightarrow>
   implements code ok (pair gauges counters) inv (code w) (UpdateHandler db rw req w s)
     (spec_update (path_metrics req) (pair gauges counters s))"
  using implements_update by (simp add: UpdateHandler_def path_metrics_def)

lemma implements_UpdateRootHandler:
  assumes "inv s" and "ok w"
  shows "implements code ok (pair gauges counters) inv (code w) (UpdateRootHandler db rw req w s)
     (spec_json req spec_update_json (pair gauges counters s))"
  unfolding UpdateRootHandler_def
proof (rule json_frame [OF assms])
  fix b
  show "implements code ok (pair gauges counters) inv (code w)
      (case unmarshal_Metrics b of (Some e, _) \<Rightarrow> Ret (unmarshaling_failed rw e w, s)
       | (None, m) \<Rightarrow> bind_outcome (updateMetrics db m s) (\<lambda>(res, s'). Ret (respond rw res w, s')))
      (spec_update_json b (pair gauges counters s))"
    using assms by (auto simp: spec_update_json_def unmarshaling_failed_def error_answer implements_update
        split: prod.splits option.splits)
qed

lemma implements_store_batch:
  assumes "inv s" and "ok w"
    and "(g', c') = (fmadd (gauges s) gm, add_counters cm (counters s))"
  shows "implements code ok (pair gauges counters) inv (code w) (store_batch db rw gm cm w s)
     (if gm = fmempty \<and> cm = fmempty then Ret (400, pair gauges counters s) else Ret (200, (g', c')))"
proof -
  have "\<exists>s1. store_gauges db gm s = Ret (None, s1) \<and> inv s1 \<and>
      gauges s1 = fmadd (gauges s) gm \<and> counters s1 = counters s"
  proof (cases "gm = fmempty")
    case False
    from set_gauge_all_eq [OF assms(1), of gm] False show ?thesis
      by (metis store_gauges_def map_len_pos_iff)
  qed (simp add: store_gauges_def assms(1))
  then obtain s1 where s1: "store_gauges db gm s = Ret (None, s1)" "inv s1"
      "gauges s1 = fmadd (gauges s) gm" "counters s1 = counters s" by blast
  have "\<exists>s2. store_counters db cm s1 = Ret (None, s2) \<and> inv s2 \<and>
      gauges s2 = gauges s1 \<and> counters s2 = add_counters cm (counters s1)"
  proof (cases "cm = fmempty")
    case False
    from set_counter_all_eq [OF s1(2), of cm] False show ?thesis
      by (metis store_counters_def map_len_pos_iff)
  qed (simp add: store_counters_def s1(2))
  then obtain s2 where s2: "store_counters db cm s1 = Ret (None, s2)" "inv s2"
      "gauges s2 = gauges s1" "counters s2 = add_counters cm (counters s1)" by blast
  from s1 s2 assms show ?thesis
    by (simp add: implements_def store_batch_def code_api_Error pair_def sent_def)
qed

lemma implements_UpdateBatchHandler:
  assumes "inv s" and "ok w"
  shows "implements code ok (pair gauges counters) inv (code w) (UpdateBatchHandler db rw req w s)
     (spec_json req spec_batch_json (pair gauges counters s))"
  unfolding UpdateBatchHandler_def
proof (rule json_frame [OF assms])
  fix b
  show "implements code ok (pair gauges counters) inv (code w)
      (case unmarshal_batch b of (Some e, _) \<Rightarrow> Ret (unmarshaling_failed rw e w, s)
       | (None, mm) \<Rightarrow> bind_outcome (collect_batch mm fmempty fmempty) (\<lambda>(gm, cm). store_batch db rw gm cm w s))
      (spec_batch_json b (pair gauges counters s))"
  proof (cases "unmarshal_batch b")
    case (Pair err mm)
    show ?thesis
    proof (cases err)
      case (Some e)
      with Pair assms show ?thesis
        by (simp add: spec_batch_json_def unmarshaling_failed_def error_answer)
    next
      case None
      note b = Pair None
      show ?thesis
      proof (cases "\<exists>m \<in> set mm. usable m \<and> \<not> complete m")
        case True
        with b show ?thesis
          by (simp add: spec_batch_json_def spec_batch_def collect_batch_panics implements_def)
      next
        case False
        with b have "\<forall>m \<in> set mm. (usable m \<longrightarrow> complete m) \<and> SValue m = []"
          using unmarshal_batch_SValue by blast
        from collect_batch_refines [OF this, of fmempty fmempty "gauges s" "counters s"]
        obtain gm cm where "collect_batch mm fmempty fmempty = Ret (gm, cm)"
          and "(fmadd (gauges s) gm, add_counters cm (counters s)) =
               foldl apply_record (gauges s, counters s) (filter usable mm)"
          and "gm = fmempty \<and> cm = fmempty \<longleftrightarrow> filter usable mm = []"
          by auto
        with b False implements_store_batch [OF assms, of "fmadd (gauges s) gm" "add_counters cm (counters s)" gm cm]
        show ?thesis by (auto simp: spec_batch_json_def spec_batch_def pair_def)
      qed
    qed
  qed
qed

text \<open>Queries change nothing and answer with the value or the status of the failure.\<close>

lemma getVhData_value:
  assumes "inv s"
  obtains c e s' where "getVhData db m s = Ret (Inl (c, e), s')" "spec_value m (gauges s, counters s) = Inl c"
      "inv s'" "gauges s' = gauges s" "counters s' = counters s"
    | x s' where "getVhData db m s = Ret (Inr \<lparr>vh_metrics = x, vh_code = 200\<rparr>, s')" "spec_value m (gauges s, counters s) = Inr x"
      "inv s'" "gauges s' = gauges s" "counters s' = counters s"
proof -
  obtain s1 where g: "GetGauge db (ID m) s = Ret (Inr (fmlookup (gauges s) (ID m)), s1)"
    "inv s1" "gauges s1 = gauges s" "counters s1 = counters s"
    using get_gauge_eq [OF assms] .
  obtain s2 where c: "GetCounter db (ID m) s = Ret (Inr (fmlookup (counters s) (ID m)), s2)"
    "inv s2" "gauges s2 = gauges s" "counters s2 = counters s"
    using get_counter_eq [OF assms] .
  have "\<exists>r s'. getVhData db m s = Ret (r, s') \<and> inv s' \<and> gauges s' = gauges s \<and> counters s' = counters s \<and>
    (case spec_value m (gauges s, counters s) of
       Inl c \<Rightarrow> \<exists>e. r = Inl (c, e)
     | Inr x \<Rightarrow> r = Inr \<lparr>vh_metrics = x, vh_code = 200\<rparr>)"
    using g c assms
    by (cases "fmlookup (gauges s) (ID m)"; cases "fmlookup (counters s) (ID m)")
      (simp_all add: getVhData_def spec_value_def)
  with that show ?thesis by (cases "spec_value m (gauges s, counters s)") auto
qed

lemma implements_ValueHandler:
  assumes "inv s" and "ok w"
  shows "implements code ok (pair gauges counters) inv (code w) (ValueHandler db rw req w s)
    (Ret (case spec_value (Metrics_zero\<lparr>MType := URLParam req ''type'', ID := URLParam req ''name''\<rparr>) (pair gauges counters s) of
            Inl c \<Rightarrow> c | Inr x \<Rightarrow> 200, pair gauges counters s))"
  by (rule getVhData_value [OF assms(1), of "Metrics_zero\<lparr>MType := URLParam req ''type'', ID := URLParam req ''name''\<rparr>"])
    (use assms(2) in \<open>simp_all add: ValueHandler_def Let_def implements_def pair_def code_api_Error code_write_body\<close>)

lemma implements_ValueRootHandler:
  assumes "inv s" and "ok w"
  shows "implements code ok (pair gauges counters) inv (code w) (ValueRootHandler db rw req w s)
    (spec_json req spec_value_json (pair gauges counters s))"
  unfolding ValueRootHandler_def
proof (rule json_frame [OF assms])
  fix b
  let ?h = "case unmarshal_Metrics b of (Some e, _) \<Rightarrow> Ret (unmarshaling_failed rw e w, s)
       | (None, m) \<Rightarrow> bind_outcome (getVhData db m s) (\<lambda>(r, s'). Ret (case r of
           Inl (code, e) \<Rightarrow> api_Error rw e code w
         | Inr vhd \<Rightarrow> (case marshal_Metrics (vh_metrics vhd) of
              Inl e \<Rightarrow> api_Error rw (NewRespError ''marshaling failed'' (Some e)) 500 w
            | Inr js \<Rightarrow> write_body rw js (rw_PutHeader rw
                (hdr_Add ''Content-Type'' ''application/json; charset=utf-8'' (rw_Header rw w)) w)), s'))"
  obtain err m where u: "unmarshal_Metrics b = (err, m)" by (cases "unmarshal_Metrics b")
  show "implements code ok (pair gauges counters) inv (code w) ?h (spec_value_json b (pair gauges counters s))"
  proof (cases err)
    case (Some e)
    with u assms show ?thesis by (simp add: spec_value_json_def unmarshaling_failed_def error_answer)
  next
    case None
    show ?thesis
      by (rule getVhData_value [OF assms(1), of m])
        (use None u assms(2) in \<open>auto simp: spec_value_json_def implements_def pair_def code_api_Error code_write_body split: sum.splits\<close>)
  qed
qed

text \<open>The root page and the ping.\<close>

lemma implements_RootHandler:
  assumes "inv s" and "ok w" and "page_writes tmpl"
  shows "implements code ok (pair gauges counters) inv (code w) (CreateRootHandler tmpl db rw req w s)
    (Ret (spec_page tmpl (pair gauges counters s), pair gauges counters s))"
proof -
  obtain s1 where g: "GetGaugeAll db s = Ret (Inr (gauges s), s1)" "inv s1" "gauges s1 = gauges s" "counters s1 = counters s"
    using get_gauge_all_eq [OF assms(1)] .
  obtain s2 where c: "GetCounterAll db s1 = Ret (Inr (counters s), s2)" "inv s2" "gauges s2 = gauges s" "counters s2 = counters s"
    using get_counter_all_eq [OF g(2)] g by metis
  with g code_page [OF assms(2,3)] show ?thesis by (simp add: CreateRootHandler_def implements_def pair_def)
qed

lemma implements_PingHandler:
  assumes "inv s" and "ok w" and "Ping db s = Ret (Some e, s')"
  shows "implements code ok (pair gauges counters) inv (code w) (PingHandler db rw req w s) (Ret (500, pair gauges counters s))"
  using ping [OF assms(1)] assms(2,3) by (auto simp: PingHandler_def implements_def code_api_Error pair_def)

end

interpretation api_mem: api memory_db mem_inv mem_gauges mem_counters net_writer net_code net_ok
  by unfold_locales

end
