(* ===== verification/Middlewares_Facts.thy ===== *)
theory Middlewares_Facts
  imports Middlewares Handlers_Spec
begin

text \<open>
  The writers of the middlewares keep the contract of a response writer (\<open>plain_writer\<close>
  for those without a state of their own, then the compressing writer over any of them), so
  the handlers' correctness carries over to the chain the server mounts (\<open>api_chain\<close>).
\<close>

section \<open>Writers without a state of their own\<close>

text \<open>The slots of the compressing writer that other writers leave alone.\<close>

definition same_gz :: "'z Conn \<Rightarrow> 'z Conn \<Rightarrow> bool" where
  "same_gz w w' \<longleftrightarrow> c_wroteHeader w' = c_wroteHeader w \<and> c_gz w' = c_gz w \<and> c_gz_err w' = c_gz_err w"

lemma same_gz_refl [simp]: "same_gz w w"
  by (simp add: same_gz_def)

locale plain_writer =
  fixes rw :: "'z Conn RespWriter"
  assumes pcode_put: "conn_code (rw_PutHeader rw h w) = conn_code w"
    and pcode_write_header: "conn_code (rw_WriteHeader rw c w) = Some (case conn_code w of None \<Rightarrow> c | Some c' \<Rightarrow> c')"
    and pcode_write: "conn_code (snd (rw_Write rw b w)) = Some (case conn_code w of None \<Rightarrow> 200 | Some c' \<Rightarrow> c')"
    and keep_put: "same_gz w (rw_PutHeader rw h w)"
    and keep_write_header: "same_gz w (rw_WriteHeader rw c w)"
    and keep_write: "same_gz w (snd (rw_Write rw b w))"

sublocale plain_writer \<subseteq> resp_writer rw conn_code "\<lambda>_. True"
  by unfold_locales (simp_all add: pcode_put pcode_write_header pcode_write)

lemma conn_code_slots [simp]:
  "conn_code (w\<lparr>c_code := n\<rparr>) = conn_code w" "conn_code (w\<lparr>c_size := n\<rparr>) = conn_code w"
  "conn_code (w\<lparr>c_wroteHeader := b\<rparr>) = conn_code w" "conn_code (w\<lparr>c_gz := z\<rparr>) = conn_code w"
  "conn_code (w\<lparr>c_gz_err := e\<rparr>) = conn_code w" "conn_code (new_conn gz) = None"
  by (simp_all add: conn_code_def new_conn_def net_code_def fresh_writer_def)

interpretation conn: plain_writer conn_net
proof unfold_locales
  fix h c b and w :: "'z Conn"
  show "conn_code (rw_PutHeader conn_net h w) = conn_code w"
    by (simp add: conn_net_def conn_code_def net_code_def)
  show "conn_code (rw_WriteHeader conn_net c w) = Some (case conn_code w of None \<Rightarrow> c | Some c' \<Rightarrow> c')"
    using net.code_write_header [of "c_net w" c] by (simp add: conn_net_def conn_code_def)
  show "conn_code (snd (rw_Write conn_net b w)) = Some (case conn_code w of None \<Rightarrow> 200 | Some c' \<Rightarrow> c')"
    using net.code_write [of "c_net w" b] by (simp add: conn_net_def conn_code_def)
  show "same_gz w (rw_PutHeader conn_net h w)" "same_gz w (rw_WriteHeader conn_net c w)" "same_gz w (snd (rw_Write conn_net b w))"
    by (simp_all add: conn_net_def same_gz_def)
qed

context plain_writer begin

lemma plain_log: "plain_writer (log_writer rw)"
proof unfold_locales
  fix h c b and w :: "'z Conn"
  obtain n e w' where wr: "rw_Write rw b w = ((n, e), w')" by (metis surj_pair)
  show "conn_code (rw_PutHeader (log_writer rw) h w) = conn_code w" "same_gz w (rw_PutHeader (log_writer rw) h w)"
    by (simp_all add: log_writer_def pcode_put keep_put)
  show "conn_code (rw_WriteHeader (log_writer rw) c w) = Some (case conn_code w of None \<Rightarrow> c | Some c' \<Rightarrow> c')"
    by (simp add: log_writer_def log_WriteHeader_def pcode_write_header)
  show "same_gz w (rw_WriteHeader (log_writer rw) c w)"
    using keep_write_header [of "w\<lparr>c_code := c\<rparr>" c] by (simp add: log_writer_def log_WriteHeader_def same_gz_def)
  show "conn_code (snd (rw_Write (log_writer rw) b w)) = Some (case conn_code w of None \<Rightarrow> 200 | Some c' \<Rightarrow> c')"
    using pcode_write [of b w] wr by (simp add: log_writer_def log_Write_def)
  show "same_gz w (snd (rw_Write (log_writer rw) b w))"
    using keep_write [of w b] wr by (simp add: log_writer_def log_Write_def same_gz_def)
qed

lemma same_gz_set: "same_gz w (rw_SetHeader rw k v w)"
  by (simp add: rw_SetHeader_def keep_put)

lemma same_gz_trans: "same_gz a b \<Longrightarrow> same_gz b c \<Longrightarrow> same_gz a c"
  by (simp add: same_gz_def)

lemma plain_sign: "plain_writer (sign_writer hmac key rw)"
proof unfold_locales
  fix h c b and w :: "'z Conn"
  let ?w = "rw_SetHeader rw ''HashSHA256'' (b64_encode (hmac key [])) w"
  show "conn_code (rw_PutHeader (sign_writer hmac key rw) h w) = conn_code w" "same_gz w (rw_PutHeader (sign_writer hmac key rw) h w)"
    "conn_code (rw_WriteHeader (sign_writer hmac key rw) c w) = Some (case conn_code w of None \<Rightarrow> c | Some c' \<Rightarrow> c')"
    "same_gz w (rw_WriteHeader (sign_writer hmac key rw) c w)"
    by (simp_all add: sign_writer_def pcode_put keep_put pcode_write_header keep_write_header)
  have "conn_code ?w = conn_code w" by (simp add: rw_SetHeader_def pcode_put)
  then show "conn_code (snd (rw_Write (sign_writer hmac key rw) b w)) = Some (case conn_code w of None \<Rightarrow> 200 | Some c' \<Rightarrow> c')"
    using pcode_write [of b ?w] by (simp add: sign_writer_def sign_Write_def)
  show "same_gz w (snd (rw_Write (sign_writer hmac key rw) b w))"
    using same_gz_trans [OF same_gz_set keep_write] by (simp add: sign_writer_def sign_Write_def)
qed

text \<open>Chunks written to such a writer.\<close>

lemma write_chunks_plain:
  "same_gz w (snd (write_chunks rw bs w)) \<and>
   (conn_code w \<noteq> None \<longrightarrow> conn_code (snd (write_chunks rw bs w)) = conn_code w)"
proof (induction bs arbitrary: w)
  case (Cons b bs)
  obtain n e w' where wr: "rw_Write rw b w = ((n, e), w')" by (metis surj_pair)
  from keep_write [of w b] wr have "same_gz w w'" by simp
  moreover from pcode_write [of b w] wr have "conn_code w \<noteq> None \<longrightarrow> conn_code w' = conn_code w" by auto
  ultimately show ?case
    using wr Cons.IH [of w'] by (auto split: option.splits intro: same_gz_trans)
qed simp

end

section \<open>The compressing writer\<close>

text \<open>Once the header was decided on, it was sent.\<close>

definition gz_ok :: "'z Conn \<Rightarrow> bool" where
  "gz_ok w \<longleftrightarrow> (c_wroteHeader w \<longrightarrow> conn_code w \<noteq> None)"

context plain_writer begin

lemma gw_WriteHeader_facts:
  "conn_code (gw_WriteHeader rw c w) = Some (case conn_code w of None \<Rightarrow> c | Some c' \<Rightarrow> c')"
  "c_wroteHeader (gw_WriteHeader rw c w)" "c_gz_err (gw_WriteHeader rw c w) = c_gz_err w" "c_gz (gw_WriteHeader rw c w) = c_gz w"
  using keep_write_header keep_put
  by (auto simp: gw_WriteHeader_def Let_def pcode_write_header pcode_put same_gz_def)

lemma gw_Write_facts:
  assumes "gz_ok w"
  shows "conn_code (snd (gw_Write gz rw b w)) = Some (case conn_code w of None \<Rightarrow> 200 | Some c' \<Rightarrow> c') \<and>
    c_wroteHeader (snd (gw_Write gz rw b w))"
proof -
  define w1 where "w1 = (if c_wroteHeader w then w else gw_WriteHeader rw 200 w)"
  have code: "conn_code w1 = Some (case conn_code w of None \<Rightarrow> 200 | Some c' \<Rightarrow> c')" and wrote: "c_wroteHeader w1"
    using assms gw_WriteHeader_facts [of 200 w] by (auto simp: w1_def gz_ok_def)
  show ?thesis
  proof (cases "c_gz_err w1")
    case (Some e)
    with code wrote show ?thesis unfolding gw_Write_def w1_def [symmetric] by (simp add: Let_def)
  next
    case None
    obtain out z where out: "gz_Write gz b (c_gz w1) = (out, z)" by (cases "gz_Write gz b (c_gz w1)")
    obtain err w2 where w2: "write_chunks rw out (w1\<lparr>c_gz := z\<rparr>) = (err, w2)" by (metis surj_pair)
    have "same_gz (w1\<lparr>c_gz := z\<rparr>) w2" "conn_code w2 = conn_code w1"
      using write_chunks_plain [of "w1\<lparr>c_gz := z\<rparr>" out] w2 code by simp_all
    with None out w2 code wrote show ?thesis
      unfolding gw_Write_def w1_def [symmetric] by (simp add: Let_def same_gz_def)
  qed
qed

lemma gz_resp_writer: "resp_writer (gz_writer gz rw) conn_code gz_ok"
proof unfold_locales
  fix h c b and w :: "'z Conn"
  assume ok: "gz_ok w"
  show "conn_code (rw_PutHeader (gz_writer gz rw) h w) = conn_code w"
    by (simp add: gz_writer_def pcode_put)
  show "conn_code (rw_WriteHeader (gz_writer gz rw) c w) = Some (case conn_code w of None \<Rightarrow> c | Some c' \<Rightarrow> c')"
    by (simp add: gz_writer_def gw_WriteHeader_facts)
  show "conn_code (snd (rw_Write (gz_writer gz rw) b w)) = Some (case conn_code w of None \<Rightarrow> 200 | Some c' \<Rightarrow> c')"
    using gw_Write_facts [OF ok, of gz b] by (simp add: gz_writer_def)
  show "gz_ok (rw_PutHeader (gz_writer gz rw) h w)"
    using ok keep_put [of w h] by (simp add: gz_writer_def gz_ok_def pcode_put same_gz_def)
  show "gz_ok (rw_WriteHeader (gz_writer gz rw) c w)"
    by (simp add: gz_writer_def gz_ok_def gw_WriteHeader_facts)
  show "gz_ok (snd (rw_Write (gz_writer gz rw) b w))"
    using gw_Write_facts [OF ok, of gz b] by (simp add: gz_writer_def gz_ok_def)
qed

text \<open>Ending the text or flushing it changes no status that was sent.\<close>

lemma gw_Flush_code: "conn_code w \<noteq> None \<Longrightarrow> conn_code (gw_Flush gz rw w) = conn_code w"
proof (cases "c_gz_err w")
  case None
  assume c: "conn_code w \<noteq> None"
  obtain out z where out: "gz_Flush gz (c_gz w) = (out, z)" by (cases "gz_Flush gz (c_gz w)")
  obtain err w' where "write_chunks rw out (w\<lparr>c_gz := z\<rparr>) = (err, w')" by (metis surj_pair)
  with write_chunks_plain [of "w\<lparr>c_gz := z\<rparr>" out] c None out show ?thesis by (simp add: gw_Flush_def)
qed (simp add: gw_Flush_def)

lemma gw_Close_code: "conn_code w \<noteq> None \<Longrightarrow> conn_code (snd (gw_Close gz rw w)) = conn_code w"
  using write_chunks_plain by (auto simp: gw_Close_def split: option.splits prod.splits)

end

end
