(* ===== verification/Mondata_Facts.thy ===== *)
theory Mondata_Facts
  imports Mondata Go_Json_Facts
begin

text \<open>
  The text and JSON forms of metrics: what \<open>json.Marshal\<close> writes for a \<open>Metrics\<close> or a
  batch decodes to the same records without \<open>SValue\<close>; \<open>FormatGauge\<close> does not read back.
\<close>

section \<open>Members and elements\<close>

lemma json_value_string: "utf8_name s \<Longrightarrow> json_value d (Suc n) (json_quote s @ t) = Some (JStr s, t)"
  using scan_quoted [of s t] by (simp add: json_quote_def)

lemma json_members_step:
  assumes "utf8_name k" and "json_value d n (v @ e # u) = Some (j, e # u)"
  shows "e = CHR '','' \<Longrightarrow> json_members d (Suc n) (json_field k v @ e # u) = map_option (apfst (Cons (k, j))) (json_members d n u)"
    and "e = CHR ''}'' \<Longrightarrow> json_members d (Suc n) (json_field k v @ e # u) = Some ([(k, j)], u)"
  using assms scan_quoted [OF assms(1), of "CHR '':'' # v @ e # u"]
  by (simp_all add: json_field_def json_quote_def)

lemma json_field_hd: "\<exists>u. json_field k v @ t = CHR 0x22 # u"
  by (simp add: json_field_def json_quote_def)

text \<open>The members a record is written as.\<close>

definition metrics_members :: "Metrics \<Rightarrow> (bytes \<times> json) list" where
  "metrics_members m =
     [(''id'', JStr (ID m)), (''type'', JStr (MType m))] @
     (case Delta m of None \<Rightarrow> [] | Some d \<Rightarrow> [(''delta'', JNum (FormatInt d))]) @
     (case Value m of None \<Rightarrow> [] | Some v \<Rightarrow> [(''value'', JNum (the (json_float v)))])"

lemma field_names: "utf8_name ''id''" "utf8_name ''type''" "utf8_name ''delta''" "utf8_name ''value''"
  by (simp_all add: utf8_name_def)

definition utf8_metrics :: "Metrics \<Rightarrow> bool" where
  "utf8_metrics m \<longleftrightarrow> utf8_name (ID m) \<and> utf8_name (MType m)"

text \<open>The members, once the value of each is known to parse.\<close>

lemma json_members_metrics:
  assumes "marshal_Metrics m = Inr b" and "utf8_metrics m"
  shows "\<exists>u. b = CHR ''{'' # u \<and> hd u = CHR 0x22 \<and> u \<noteq> [] \<and>
    json_members d (Suc (Suc (Suc (Suc (Suc n))))) (u @ t) = Some (metrics_members m, t)"
proof -
  note str = json_value_string [of "ID m"] json_value_string [of "MType m"]
  let ?ts = "\<lambda>x. json_field ''type'' (json_quote (MType m)) @ x"
  let ?ds = "\<lambda>i x. json_field ''delta'' (FormatInt i) @ x"
  have id: "json_members d (Suc (Suc n')) (json_field ''id'' (json_quote (ID m)) @ CHR '','' # x) =
      map_option (apfst (Cons (''id'', JStr (ID m)))) (json_members d (Suc n') x)" for n' x
    using assms(2) str by (intro json_members_step field_names) (simp_all add: utf8_metrics_def)
  have ty: "json_members d (Suc (Suc n')) (?ts (CHR '','' # x)) =
      map_option (apfst (Cons (''type'', JStr (MType m)))) (json_members d (Suc n') x)"
    "json_members d (Suc (Suc n')) (?ts (CHR ''}'' # x)) = Some ([(''type'', JStr (MType m))], x)" for n' x
    using assms(2) str by (intro json_members_step field_names; simp add: utf8_metrics_def)+
  have de: "json_members d (Suc (Suc n')) (?ds i (CHR '','' # x)) =
      map_option (apfst (Cons (''delta'', JNum (FormatInt i)))) (json_members d (Suc n') x)"
    "json_members d (Suc (Suc n')) (?ds i (CHR ''}'' # x)) = Some ([(''delta'', JNum (FormatInt i))], x)" for i n' x
    using number_text_FormatInt by (intro json_members_step field_names json_value_number; simp)+
  have va: "json_members d (Suc (Suc n')) (json_field ''value'' e @ CHR ''}'' # x) = Some ([(''value'', JNum e)], x)"
    if "json_float f = Some e" for f e n' x
    using json_float_text(1) [OF that] by (intro json_members_step field_names json_value_number; simp)
  define u where "u = tl b"
  from assms(1) have b: "b = CHR ''{'' # u" and
    u: "u @ t = json_field ''id'' (json_quote (ID m)) @ CHR '','' # ?ts
      ((case Delta m of None \<Rightarrow> [] | Some i \<Rightarrow> CHR '','' # json_field ''delta'' (FormatInt i)) @
       (case Value m of None \<Rightarrow> [] | Some v \<Rightarrow> CHR '','' # json_field ''value'' (the (json_float v))) @ CHR ''}'' # t)"
    and fin: "Value m \<noteq> None \<Longrightarrow> json_float (the (Value m)) \<noteq> None"
    by (auto simp: marshal_Metrics_def Let_def u_def split: option.splits)
  have "hd u = CHR 0x22 \<and> u \<noteq> []"
    using assms(1) by (auto simp: marshal_Metrics_def Let_def u_def json_field_def json_quote_def split: option.splits)
  moreover have "json_members d (Suc (Suc (Suc (Suc (Suc n))))) (u @ t) = Some (metrics_members m, t)"
    unfolding u
    using fin id ty de va
    by (cases "Delta m"; cases "Value m") (auto simp: metrics_members_def)
  ultimately show ?thesis using b by blast
qed

lemma decode_field_eqs:
  "decode_field ''id'' (JStr s) m = (None, m\<lparr>ID := s\<rparr>)"
  "decode_field ''type'' (JStr s) m = (None, m\<lparr>MType := s\<rparr>)"
  "Delta m = None \<Longrightarrow> decode_field ''delta'' (JNum (FormatInt i)) m = (None, m\<lparr>Delta := Some i\<rparr>)"
  "json_float f = Some e \<Longrightarrow> Value m = None \<Longrightarrow> decode_field ''value'' (JNum e) m = (None, m\<lparr>Value := Some f\<rparr>)"
proof -
  have names: "map lower ''id'' = ''id''" "map lower ''type'' = ''type''" "map lower ''delta'' = ''delta''" "map lower ''value'' = ''value''"
    by code_simp+
  show "decode_field ''id'' (JStr s) m = (None, m\<lparr>ID := s\<rparr>)"
    "decode_field ''type'' (JStr s) m = (None, m\<lparr>MType := s\<rparr>)"
    unfolding decode_field_def names by (simp_all add: decode_string_def)
  show "decode_field ''delta'' (JNum (FormatInt i)) m = (None, m\<lparr>Delta := Some i\<rparr>)" if "Delta m = None"
    unfolding decode_field_def names using that by (simp add: decode_ptr_def decode_int_def ParseInt_FormatInt)
  show "decode_field ''value'' (JNum e) m = (None, m\<lparr>Value := Some f\<rparr>)" if "json_float f = Some e" "Value m = None"
    unfolding decode_field_def names using that json_float_text(2) [OF that(1)]
    by (simp add: decode_ptr_def decode_float_def)
qed

lemma decode_metrics_members:
  assumes "Value m \<noteq> None \<Longrightarrow> json_float (the (Value m)) \<noteq> None"
  shows "decode_fields (metrics_members m) None Metrics_zero = (None, m\<lparr>SValue := []\<rparr>)"
proof -
  have z: "Delta Metrics_zero = None" "Value Metrics_zero = None" by (simp_all add: Metrics_zero_def)
  have eq: "m\<lparr>SValue := []\<rparr> = Metrics_zero\<lparr>ID := ID m, MType := MType m, Delta := Delta m, Value := Value m\<rparr>"
    by (simp add: Metrics_zero_def)
  have same: "Metrics_zero\<lparr>ID := i, MType := t\<rparr>\<lparr>Delta := None\<rparr> = Metrics_zero\<lparr>ID := i, MType := t\<rparr>"
    "Metrics_zero\<lparr>ID := i, MType := t, Delta := x\<rparr>\<lparr>Value := None\<rparr> = Metrics_zero\<lparr>ID := i, MType := t, Delta := x\<rparr>" for i t x
    by (simp_all add: Metrics_zero_def)
  show ?thesis
    unfolding metrics_members_def eq using assms z same
    by (cases "Delta m"; cases "Value m") (auto simp: decode_field_eqs first_error_def)
qed

lemma decode_metrics_text:
  assumes "marshal_Metrics m = Inr b" and "utf8_metrics m"
  shows "unmarshal_Metrics b = (None, m\<lparr>SValue := []\<rparr>)"
proof -
  have "Value m \<noteq> None \<Longrightarrow> json_float (the (Value m)) \<noteq> None"
    using assms(1) by (auto simp: marshal_Metrics_def Let_def split: option.splits)
  note dec = decode_metrics_members [OF this]
  obtain u where u: "b = CHR ''{'' # CHR 0x22 # u" using json_members_metrics [OF assms] by (metis list.collapse)
  have "2 * length b + 1 = Suc (Suc (Suc (Suc (Suc (2 * length u)))))" using u by simp
  then have "json_members 9999 (2 * length b + 1) (CHR 0x22 # u) = Some (metrics_members m, [])"
    using json_members_metrics [OF assms, of 9999 "2 * length u" "[]"] u by auto
  from json_parse_object [OF this u] dec show ?thesis
    by (simp add: unmarshal_Metrics_def decode_Metrics_def)
qed

section \<open>Batches\<close>

lemma marshal_Metrics_value:
  assumes "marshal_Metrics m = Inr b" and "utf8_metrics m"
  shows "json_value (Suc d) (Suc (Suc (Suc (Suc (Suc (Suc n)))))) (b @ t) = Some (JObj (metrics_members m), t)"
proof -
  obtain u where u: "b = CHR ''{'' # CHR 0x22 # u" using json_members_metrics [OF assms] by (metis list.collapse)
  then have "json_members d (Suc (Suc (Suc (Suc (Suc n))))) (CHR 0x22 # u @ t) = Some (metrics_members m, t)"
    using json_members_metrics [OF assms, of d n t] by auto
  then show ?thesis unfolding u json_value.simps(2) by simp
qed

lemma json_elems_batch:
  "marshal_batch_elems ms = Inr b \<Longrightarrow> ms \<noteq> [] \<Longrightarrow> \<forall>m \<in> set ms. utf8_metrics m \<Longrightarrow> length ms + 6 < n \<Longrightarrow>
   json_elems (Suc d) n (b @ CHR '']'' # t) = Some (map (\<lambda>m. JObj (metrics_members m)) ms, t)"
proof (induction ms arbitrary: b n)
  case (Cons m ms)
  from Cons.prems(1) obtain x r where x: "marshal_Metrics m = Inr x" and r: "marshal_batch_elems ms = Inr r"
    and b: "b = x @ (if ms = [] then [] else CHR '','' # r)"
    by (auto split: sum.splits)
  define n' where "n' = n - 7"
  with Cons.prems(4) have n: "n = Suc (Suc (Suc (Suc (Suc (Suc (Suc n'))))))" "length ms + 6 < Suc (Suc (Suc (Suc (Suc (Suc n')))))"
    by simp_all
  note mv = marshal_Metrics_value [OF x, of d n']
  show ?case
  proof (cases "ms = []")
    case True
    with b mv [of "CHR '']'' # t"] Cons.prems(3) show ?thesis unfolding n(1) by simp
  next
    case False
    have "json_elems (Suc d) (Suc (Suc (Suc (Suc (Suc (Suc n')))))) (r @ CHR '']'' # t) = Some (map (\<lambda>m. JObj (metrics_members m)) ms, t)"
      by (rule Cons.IH [OF r False _ n(2)]) (use Cons.prems(3) in simp)
    with False b mv [of "CHR '','' # r @ CHR '']'' # t"] Cons.prems(3) show ?thesis
      unfolding n(1) json_elems.simps(2) by simp
  qed
qed simp

lemma marshal_batch_elems_length: "marshal_batch_elems ms = Inr b \<Longrightarrow> 4 * length ms \<le> length b"
proof (induction ms arbitrary: b)
  case (Cons m ms)
  then obtain x r where x: "marshal_Metrics m = Inr x" and r: "marshal_batch_elems ms = Inr r"
    and b: "b = x @ (if ms = [] then [] else CHR '','' # r)"
    by (auto split: sum.splits)
  have "4 \<le> length x" using x by (auto simp: marshal_Metrics_def Let_def json_field_def json_quote_def split: option.splits)
  with Cons.IH [OF r] b show ?case by auto
qed simp

lemma decode_batch_elems:
  "marshal_batch_elems ms = Inr b \<Longrightarrow>
   decode_elems (map (\<lambda>m. JObj (metrics_members m)) ms) None = (None, map (\<lambda>m. m\<lparr>SValue := []\<rparr>) ms)"
proof (induction ms arbitrary: b)
  case (Cons m ms)
  then obtain x r where x: "marshal_Metrics m = Inr x" and r: "marshal_batch_elems ms = Inr r"
    by (auto split: sum.splits)
  from x have "Value m \<noteq> None \<Longrightarrow> json_float (the (Value m)) \<noteq> None"
    by (auto simp: marshal_Metrics_def Let_def split: option.splits)
  note dec = decode_metrics_members [OF this]
  with Cons.IH [OF r] show ?case by (simp add: decode_Metrics_def first_error_def)
qed simp

lemma decode_batch_text:
  assumes "marshal_batch ms = Inr b" and "\<forall>m \<in> set ms. utf8_metrics m"
  shows "unmarshal_batch b = (None, map (\<lambda>m. m\<lparr>SValue := []\<rparr>) ms)"
proof -
  from assms(1) obtain r where r: "marshal_batch_elems ms = Inr r" and b: "b = CHR ''['' # r @ '']''"
    by (auto simp: marshal_batch_def split: sum.splits)
  show ?thesis
  proof (cases "ms = []")
    case True
    with r b have "b = ''[]''" by simp
    moreover have "json_parse ''[]'' = Some (JArr [])" by code_simp
    ultimately show ?thesis using True by (simp add: unmarshal_batch_def)
  next
    case False
    then obtain m ms' where ms: "ms = m # ms'" by (cases ms) auto
    with r obtain u where u: "r @ '']'' = CHR ''{'' # u"
      by (auto simp: marshal_Metrics_def Let_def split: sum.splits option.splits if_splits)
    have big: "length ms + 6 < 2 * length b + 1"
    proof -
      have "12 \<le> length r" using r ms
        by (auto simp: marshal_Metrics_def Let_def json_field_def json_quote_def split: sum.splits option.splits if_splits)
      with b marshal_batch_elems_length [OF r] show ?thesis by simp
    qed
    have "json_elems (Suc 9998) (2 * length b + 1) (r @ CHR '']'' # []) = Some (map (\<lambda>m. JObj (metrics_members m)) ms, [])"
      by (rule json_elems_batch [OF r False assms(2) big])
    then have "json_value 10000 (Suc (2 * length b + 1)) b = Some (JArr (map (\<lambda>m. JObj (metrics_members m)) ms), [])"
      unfolding json_value.simps(2) b using u by simp
    then have "json_parse b = Some (JArr (map (\<lambda>m. JObj (metrics_members m)) ms))"
      by (simp add: json_parse_def skip_ws_def)
    with decode_batch_elems [OF r] show ?thesis by (simp add: unmarshal_batch_def)
  qed
qed

section \<open>FormatGauge\<close>

lemma strip_zeros_mod: "strip_zeros c k = (c', k') \<Longrightarrow> c' = 0 \<or> c' mod 10 \<noteq> 0"
proof (induction c k rule: strip_zeros.induct)
  case (1 c k)
  then show ?case by (cases "c = 0 \<or> c mod 10 \<noteq> 0") (auto simp: strip_zeros.simps [of c k])
qed

lemma shortest_last_digit:
  assumes "0 < b" and "b < mag_inf" and "shortest b = (c, k)"
  shows "c mod 10 \<noteq> 0"
proof -
  obtain c0 k0 where "strip_zeros c0 k0 = (c, k)"
    using assms(1,3) by (auto simp: shortest_def split: option.splits prod.splits)
  with strip_zeros_mod shortest_pos [OF assms] show ?thesis by fastforce
qed

lemma last_show_nat: "last (show_nat n) = digit_char (n mod 10)"
  by (subst show_nat.simps) simp

lemma digit_char_zero: "d < 10 \<Longrightarrow> digit_char d = CHR ''0'' \<longleftrightarrow> d = 0"
proof -
  assume d: "d < 10"
  have "CHR ''0'' = digit_char 0" by code_simp
  with d show ?thesis by (metis digit_char_digit(2) zero_less_numeral)
qed

lemma last_digit_keep: "c mod 10 \<noteq> 0 \<Longrightarrow> last (show_nat c) \<notin> set ''0.''"
proof -
  assume "c mod 10 \<noteq> 0"
  moreover have "is_digit (last (show_nat c))" by (rule show_nat_digits [OF last_in_set]) simp
  ultimately show ?thesis by (auto simp: last_show_nat digit_char_zero)
qed

lemma show_nat_times: "0 < c \<Longrightarrow> show_nat (c * 10 ^ n) = show_nat c @ replicate n CHR ''0''"
proof (induction n)
  case (Suc n)
  have "\<not> c * 10 ^ Suc n < 10" using Suc.prems by simp
  then have "show_nat (c * 10 ^ Suc n) = show_nat (c * 10 ^ n) @ [digit_char 0]"
    by (subst show_nat.simps) simp
  moreover have "digit_char 0 = CHR ''0''" by code_simp
  ultimately show ?case using Suc by (simp add: replicate_append_same)
qed simp

lemma FormatF_finite: "is_finite f \<Longrightarrow> shortest (f64_mag f) = (c, k) \<Longrightarrow> FormatF f = sign_text (f64_neg f) @ fmt_f c k"
  by (auto simp: FormatF_def is_nan_def is_inf_def is_finite_def with_sign_text)

text \<open>
  A finite non-zero gauge whose shortest decimal is no multiple of ten keeps all its
  digits: \<open>FormatGauge\<close> prints what \<open>strconv\<close> does, and the text parses back to the value.
\<close>

theorem FormatGauge_exact:
  assumes "is_finite f" and "f64_mag f \<noteq> 0" and "snd (shortest (f64_mag f)) \<le> 0"
  shows "FormatGauge f = FormatF f \<and> ParseGauge (FormatGauge f) = Inr f"
proof -
  obtain c k where ck: "shortest (f64_mag f) = (c, k)" by (cases "shortest (f64_mag f)")
  with assms have c: "c mod 10 \<noteq> 0" by (intro shortest_last_digit) (auto simp: is_finite_def)
  have "last (fmt_f c k) \<notin> set ''0.'' \<and> fmt_f c k \<noteq> []"
  proof (cases "k = 0")
    case True
    with last_digit_keep [OF c] show ?thesis by (simp add: fmt_f_def)
  next
    case False
    let ?p = "10 ^ nat (- k) :: nat"
    from False ck assms(3) have "10 dvd ?p" by (simp add: dvd_power)
    then have "c mod ?p mod 10 \<noteq> 0" using c by (simp add: mod_mod_cancel)
    from last_digit_keep [OF this] False ck assms(3) show ?thesis
      by (simp add: fmt_f_def Let_def pad_left_def)
  qed
  then have "last (FormatF f) \<notin> set ''0.''" using FormatF_finite [OF assms(1) ck] by simp
  then have "FormatGauge f = FormatF f" by (simp add: FormatGauge_def TrimRight_id)
  with assms(1) show ?thesis by (simp add: ParseGauge_def ParseFloat_FormatF)
qed

lemma search_17: "shortest_search 17 b k =
    (case candidate b k of Some c \<Rightarrow> Some (c, k) | None \<Rightarrow> shortest_search 16 b (k - 1))"
proof -
  have "(17::nat) = Suc 16" by simp
  then show ?thesis by (simp only: shortest_search.simps)
qed

text \<open>The equations that evaluate small floats.\<close>

lemmas float_eval = round_mag_def floor_log_def descale_def ratio_def round_half_even_def Let_def nlog.simps
  mag_value_def mag_mant_def mag_exp_def shortest_def search_17 candidate_def strip_zeros.simps
  f64_mag_def f64_neg_def is_finite_def mag_inf_def

theorem FormatGauge_exact_witness:
  "FormatGauge 0x3FF0000000000000 = FormatF 0x3FF0000000000000 \<and> ParseGauge (FormatGauge 0x3FF0000000000000) = Inr 0x3FF0000000000000"
  by (rule FormatGauge_exact) (simp_all add: float_eval)

text \<open>
  C30. Every other non-zero integer gauge loses its trailing zeros, and its value with them:
  a gauge of 100 is printed as \<open>1\<close>. Zero is printed as the empty text, which does not parse.
\<close>

theorem FormatGauge_drops_zeros:
  assumes "is_finite f" and "shortest (f64_mag f) = (c, k)" and "0 < c" and "0 \<le> k"
  shows "FormatF f = sign_text (f64_neg f) @ show_nat c @ replicate (nat k) CHR ''0'' \<and>
    FormatGauge f = sign_text (f64_neg f) @ show_nat c \<and>
    FormatGauge 0 = [] \<and> ParseGauge [] = Inl ErrSyntax"
proof -
  from assms(2,3) have "f64_mag f \<noteq> 0" by (metis Pair_inject less_irrefl shortest_zero)
  with assms(1,2) have c: "c mod 10 \<noteq> 0" by (intro shortest_last_digit) (auto simp: is_finite_def)
  have F: "FormatF f = sign_text (f64_neg f) @ show_nat c @ replicate (nat k) CHR ''0''"
    using FormatF_finite [OF assms(1,2)] assms(3,4) by (simp add: fmt_f_def show_nat_times)
  then have "FormatGauge f = TrimRight ((sign_text (f64_neg f) @ show_nat c) @ replicate (nat k) CHR ''0'') ''0.''"
    by (simp add: FormatGauge_def)
  also have "\<dots> = sign_text (f64_neg f) @ show_nat c"
    using last_digit_keep [OF c] by (subst TrimRight_append) (auto intro!: TrimRight_id)
  finally show ?thesis using F by (simp add: conj_assoc) code_simp
qed

theorem FormatGauge_drops_zeros_witness:
  "FormatF 0x4059000000000000 = ''100'' \<and> FormatGauge 0x4059000000000000 = ''1'' \<and>
   FormatGauge 0 = [] \<and> ParseGauge [] = Inl ErrSyntax"
proof -
  have "show_nat 1 = ''1''" by code_simp
  moreover have "\<not> f64_neg 0x4059000000000000" "shortest (f64_mag 0x4059000000000000) = (1, 2)" "is_finite 0x4059000000000000"
    by (simp_all add: float_eval)
  ultimately show ?thesis
    using FormatGauge_drops_zeros [of "0x4059000000000000" 1 2] by (simp add: sign_text_def numeral_2_eq_2)
qed

section \<open>JSON round trips\<close>

text \<open>
  A metric marshalled and unmarshalled again is the same metric without its text value,
  for UTF-8 names.
\<close>

theorem metrics_json_roundtrip:
  assumes "marshal_Metrics m = Inr b" and "utf8_metrics m"
  shows "unmarshal_Metrics b = (None, m\<lparr>SValue := []\<rparr>)"
  using decode_metrics_text [OF assms] .

definition test_metrics :: Metrics where
  "test_metrics = Metrics_zero\<lparr>ID := ''Alloc'', MType := GaugeType, Value := Some 0, SValue := ''0''\<rparr>"

lemma test_metrics_text: "marshal_Metrics test_metrics = Inr
    (CHR ''{'' # json_field ''id'' (json_quote ''Alloc'') @ CHR '','' # json_field ''type'' (json_quote ''gauge'') @
     CHR '','' # json_field ''value'' ''0'' @ ''}'')" "utf8_metrics test_metrics"
proof -
  have "json_float 0 = Some ''0''" by code_simp
  then show "marshal_Metrics test_metrics = Inr
    (CHR ''{'' # json_field ''id'' (json_quote ''Alloc'') @ CHR '','' # json_field ''type'' (json_quote ''gauge'') @
     CHR '','' # json_field ''value'' ''0'' @ ''}'')"
    by (simp add: test_metrics_def marshal_Metrics_def Metrics_zero_def Let_def GaugeType_def)
  show "utf8_metrics test_metrics"
    by (simp add: test_metrics_def utf8_metrics_def utf8_name_def Metrics_zero_def GaugeType_def)
qed

theorem metrics_json_roundtrip_witness:
  "unmarshal_Metrics (CHR ''{'' # json_field ''id'' (json_quote ''Alloc'') @ CHR '','' # json_field ''type'' (json_quote ''gauge'') @
     CHR '','' # json_field ''value'' ''0'' @ ''}'') = (None, test_metrics\<lparr>SValue := []\<rparr>)"
  by (rule metrics_json_roundtrip) (rule test_metrics_text)+

text \<open>
  C29. A batch marshalled and unmarshalled again is the same batch without text values, for
  UTF-8 names: what the agent sends is what the server reads.
\<close>

theorem batch_json_roundtrip:
  assumes "marshal_batch ms = Inr b" and "\<forall>m \<in> set ms. utf8_metrics m"
  shows "unmarshal_batch b = (None, map (\<lambda>m. m\<lparr>SValue := []\<rparr>) ms)"
  using decode_batch_text [OF assms] .

theorem batch_json_roundtrip_witness:
  "\<exists>b. marshal_batch [test_metrics, test_metrics] = Inr b \<and>
     unmarshal_batch b = (None, [test_metrics\<lparr>SValue := []\<rparr>, test_metrics\<lparr>SValue := []\<rparr>])"
proof -
  obtain b where b: "marshal_batch [test_metrics, test_metrics] = Inr b"
    by (simp add: marshal_batch_def test_metrics_text)
  with batch_json_roundtrip [OF b] test_metrics_text(2) show ?thesis by simp
qed

end
