(* ===== verification/Handlers_Facts.thy ===== *)
theory Handlers_Facts
  imports Handlers_Spec Mondata_Facts
begin

text \<open>
  The properties of the HTTP handlers on the in-memory store and the server's own response
  writer: each handler implements the abstract server of \<open>Handlers_Spec\<close>; a value written
  by one request is read by the next; the requests that make a handler panic or answer 500.
\<close>

section \<open>Requests\<close>

text \<open>A JSON request with the given body, and a path request with the given parameters.\<close>

definition json_request :: "bytes \<Rightarrow> Request" where
  "json_request b = \<lparr>Method = ''POST'', URLParams = fmempty,
     rHeader = hdr_Set ''Content-Type'' ''application/json'' fmempty, rBody = NopCloser b\<rparr>"

definition path_request :: "string \<Rightarrow> string \<Rightarrow> string \<Rightarrow> Request" where
  "path_request t n v = \<lparr>Method = ''POST'',
     URLParams = fmupd ''type'' t (fmupd ''name'' n (fmupd ''value'' v fmempty)),
     rHeader = fmempty, rBody = NopCloser []\<rparr>"

lemma json_request_accepted [simp]:
  "Contains (hdr_Get ''Content-Type'' (rHeader (json_request b))) ''application/json''"
  "read_err (rBody (json_request b)) = None" "close_err (rBody (json_request b)) = None"
  "content (rBody (json_request b)) = b"
proof -
  have "Contains ''application/json'' ''application/json''" by code_simp
  then show "Contains (hdr_Get ''Content-Type'' (rHeader (json_request b))) ''application/json''"
    by (simp add: json_request_def hdr_Get_Set)
qed (simp_all add: json_request_def NopCloser_def)

lemma json_handler_request:
  "json_handler rw (json_request b) h w s = bind_outcome (h b w s) Ret"
  by (cases "h b w s") (auto simp: json_handler_def)

lemma bind_Ret [simp]: "bind_outcome x Ret = x"
  by (cases x) simp_all

lemma path_request_params [simp]:
  "URLParam (path_request t n v) ''type'' = t" "URLParam (path_request t n v) ''name'' = n"
  "URLParam (path_request t n v) ''value'' = v"
  by (simp_all add: URLParam_def path_request_def)

lemma path_metrics_request:
  "path_metrics (path_request t n v) = Metrics_zero\<lparr>MType := t, ID := n, SValue := v\<rparr>"
  by (simp add: path_metrics_def)

lemma fresh_code [simp]: "net_code fresh_writer = None" "n_fail fresh_writer = False"
    "n_body fresh_writer = []" "n_sent fresh_writer = None" "n_header fresh_writer = fmempty"
  by (simp_all add: net_code_def fresh_writer_def)

section \<open>The handlers implement the abstract server\<close>

text \<open>
  The path update on an idle in-memory store sends the status and makes the change of the
  abstract update: a gauge is set, a counter is increased, a bad name, type or value changes
  nothing and gets 404 or 400; the store's locks are free again.
\<close>

theorem update_handler_correct:
  assumes "mem_inv ms"
  shows "implements net_code net_ok (pair mem_gauges mem_counters) mem_inv (net_code w)
    (UpdateHandler memory_db net_writer req w ms)
    (spec_update (path_metrics req) (mem_gauges ms, mem_counters ms))"
  using api_mem.implements_UpdateHandler [OF assms net_ok] by (simp add: pair_def)

theorem update_handler_correct_witness:
  "implements net_code net_ok (pair mem_gauges mem_counters) mem_inv None
    (UpdateHandler memory_db net_writer (path_request ''counter'' ''c'' ''7'') fresh_writer Memory_Init)
    (spec_update (path_metrics (path_request ''counter'' ''c'' ''7'')) (mem_gauges Memory_Init, mem_counters Memory_Init)) \<and>
   spec_update (path_metrics (path_request ''counter'' ''c'' ''7'')) (fmempty, fmempty) = Ret (200, fmempty, fmupd ''c'' 7 fmempty)"
proof
  have "ParseCounter ''7'' = Inr 7" by code_simp
  then show "spec_update (path_metrics (path_request ''counter'' ''c'' ''7'')) (fmempty, fmempty) = Ret (200, fmempty, fmupd ''c'' 7 fmempty)"
    by (simp add: path_metrics_request spec_update_def CounterType_def GaugeType_def add_counter_def)
qed (use update_handler_correct [OF mem_inv_Init(1), of fresh_writer] in simp)

text \<open>
  The JSON update answers 400 to another content type or a body that does not decode,
  500 to a body that cannot be read, and otherwise makes the abstract update of the record.
\<close>

theorem update_root_handler_correct:
  assumes "mem_inv ms"
  shows "implements net_code net_ok (pair mem_gauges mem_counters) mem_inv (net_code w)
    (UpdateRootHandler memory_db net_writer req w ms)
    (spec_json req spec_update_json (mem_gauges ms, mem_counters ms))"
  using api_mem.implements_UpdateRootHandler [OF assms net_ok] by (simp add: pair_def)

theorem update_root_handler_correct_witness:
  "implements net_code net_ok (pair mem_gauges mem_counters) mem_inv None
    (UpdateRootHandler memory_db net_writer (json_request ''[]'') fresh_writer Memory_Init)
    (spec_json (json_request ''[]'') spec_update_json (mem_gauges Memory_Init, mem_counters Memory_Init))"
  using update_root_handler_correct [OF mem_inv_Init(1), of fresh_writer "json_request ''[]''"] by simp

text \<open>
  The batch update refines the abstract batch: its usable records (named, of a known
  type) applied one after the other in their order, though the code collects them into two
  maps first and stores each map once; with no usable record nothing changes (400), with a
  usable record without its value the handler panics.
\<close>

theorem batch_handler_correct:
  assumes "mem_inv ms"
  shows "implements net_code net_ok (pair mem_gauges mem_counters) mem_inv (net_code w)
    (UpdateBatchHandler memory_db net_writer req w ms)
    (spec_json req spec_batch_json (mem_gauges ms, mem_counters ms))"
  using api_mem.implements_UpdateBatchHandler [OF assms net_ok] by (simp add: pair_def)

text \<open>Two additions to one counter and an unusable record.\<close>

definition test_batch :: "Metrics list" where
  "test_batch =
     [Metrics_zero\<lparr>ID := ''c'', MType := CounterType, Delta := Some 5\<rparr>,
      Metrics_zero\<lparr>ID := ''x'', MType := ''histogram''\<rparr>,
      Metrics_zero\<lparr>ID := ''c'', MType := CounterType, Delta := Some 7\<rparr>]"

lemma test_batch_spec: "spec_batch test_batch (fmempty, fmempty) = Ret (200, fmempty, fmupd ''c'' 12 fmempty)"
proof -
  have "filter usable test_batch =
     [Metrics_zero\<lparr>ID := ''c'', MType := CounterType, Delta := Some 5\<rparr>,
      Metrics_zero\<lparr>ID := ''c'', MType := CounterType, Delta := Some 7\<rparr>]"
    by (simp add: test_batch_def usable_def CounterType_def GaugeType_def)
  moreover have "\<not> (\<exists>m \<in> set test_batch. usable m \<and> \<not> complete m)"
    by (simp add: test_batch_def usable_def complete_def CounterType_def GaugeType_def)
  ultimately show ?thesis
    by (simp add: spec_batch_def apply_record_def spec_update_def Metrics_zero_def add_counter_def CounterType_def GaugeType_def)
qed

theorem batch_handler_correct_witness:
  "\<exists>b. marshal_batch test_batch = Inr b \<and>
    implements net_code net_ok (pair mem_gauges mem_counters) mem_inv None
      (UpdateBatchHandler memory_db net_writer (json_request b) fresh_writer Memory_Init)
      (Ret (200, fmempty, fmupd ''c'' 12 fmempty))"
proof -
  obtain b where b: "marshal_batch test_batch = Inr b"
    by (auto simp: test_batch_def marshal_batch_def marshal_Metrics_def Metrics_zero_def Let_def)
  have names: "\<forall>m \<in> set test_batch. utf8_metrics m"
    by (simp add: test_batch_def utf8_metrics_def utf8_name_def CounterType_def)
  have "map (\<lambda>m. m\<lparr>SValue := []\<rparr>) test_batch = test_batch"
    by (simp add: test_batch_def Metrics_zero_def)
  then have "unmarshal_batch b = (None, test_batch)"
    using decode_batch_text [OF b names] by simp
  then have "spec_json (json_request b) spec_batch_json (fmempty, fmempty) = Ret (200, fmempty, fmupd ''c'' 12 fmempty)"
    by (simp add: spec_json_def spec_batch_json_def test_batch_spec)
  with b batch_handler_correct [OF mem_inv_Init(1), of fresh_writer "json_request b"] show ?thesis by simp
qed

section \<open>Reading values\<close>

lemma getVhData_mem:
  "mem_inv ms \<Longrightarrow> spec_value m (mem_gauges ms, mem_counters ms) = Inr x \<Longrightarrow>
   getVhData memory_db m ms = Ret (Inr \<lparr>vh_metrics = x, vh_code = 200\<rparr>, ms)"
  by (auto simp: getVhData_def spec_value_def memory_gets split: if_splits option.splits)

lemma write_body_net:
  "\<not> n_fail w \<Longrightarrow> n_sent w = None \<Longrightarrow>
   write_body net_writer b w = w\<lparr>n_sent := Some (200, n_header w), n_body := n_body w @ b\<rparr>"
  by (simp add: write_body_def net_Write_def net_WriteHeader_def Let_def)

text \<open>
  The two value endpoints on the in-memory store send 404 for an empty or unknown name,
  400 for an unknown type, 200 for a value (500 for one that has no JSON form), and leave the
  store as it was.
\<close>

theorem value_handlers_correct:
  assumes "mem_inv ms"
  shows "implements net_code net_ok (pair mem_gauges mem_counters) mem_inv (net_code w) (ValueHandler memory_db net_writer req w ms)
      (Ret (case spec_value (Metrics_zero\<lparr>MType := URLParam req ''type'', ID := URLParam req ''name''\<rparr>)
                   (mem_gauges ms, mem_counters ms) of Inl c \<Rightarrow> c | Inr x \<Rightarrow> 200,
            (mem_gauges ms, mem_counters ms))) \<and>
    implements net_code net_ok (pair mem_gauges mem_counters) mem_inv (net_code w) (ValueRootHandler memory_db net_writer req w ms)
      (spec_json req spec_value_json (mem_gauges ms, mem_counters ms))"
  using api_mem.implements_ValueHandler [OF assms net_ok] api_mem.implements_ValueRootHandler [OF assms net_ok]
  by (simp add: pair_def)

theorem value_handlers_correct_witness:
  "implements net_code net_ok (pair mem_gauges mem_counters) mem_inv None
      (ValueHandler memory_db net_writer (path_request ''gauge'' ''x'' []) fresh_writer Memory_Init)
      (Ret (404, (fmempty, fmempty)))"
proof -
  have "spec_value (Metrics_zero\<lparr>MType := ''gauge'', ID := ''x''\<rparr>) (fmempty, fmempty) = Inl 404"
    by (simp add: spec_value_def GaugeType_def)
  then show ?thesis
    using value_handlers_correct [OF mem_inv_Init(1), of fresh_writer "path_request ''gauge'' ''x'' []"] by simp
qed

lemma value_json_response:
  assumes "mem_inv ms" and "unmarshal_Metrics b = (None, m)"
    and "spec_value m (mem_gauges ms, mem_counters ms) = Inr x" and "marshal_Metrics x = Inr js"
  shows "\<exists>w. ValueRootHandler memory_db net_writer (json_request b) fresh_writer ms = Ret (w, ms) \<and>
    net_code w = Some 200 \<and> n_body w = js \<and>
    hdr_Get ''Content-Type'' (snd (the (n_sent w))) = ''application/json; charset=utf-8''"
  using assms
  by (simp add: ValueRootHandler_def json_handler_request getVhData_mem write_body_net net_code_def
      hdr_Add_def hdr_Get_def)

text \<open>The query for one metric.\<close>

definition query :: "string \<Rightarrow> string \<Rightarrow> Metrics" where
  "query t n = Metrics_zero\<lparr>ID := n, MType := t\<rparr>"

lemma query_text:
  assumes "utf8_name n" and "utf8_name t" and "marshal_Metrics (query t n) = Inr b"
  shows "unmarshal_Metrics b = (None, query t n)"
proof -
  have "utf8_metrics (query t n)" using assms by (simp add: utf8_metrics_def query_def)
  from decode_metrics_text [OF assms(3) this] show ?thesis by (simp add: query_def Metrics_zero_def)
qed

lemma query_marshals: "\<exists>b. marshal_Metrics (query t n) = Inr b"
  by (simp add: marshal_Metrics_def query_def Metrics_zero_def Let_def)

lemma type_utf8: "utf8_name GaugeType" "utf8_name CounterType"
  by (simp_all add: utf8_name_def GaugeType_def CounterType_def)

text \<open>
  C24. A finite gauge set by a path request is what a JSON query of the same name reads
  afterwards, bit for bit: the response is 200 with a body that decodes to the parsed value.
\<close>

theorem gauge_read_your_write:
  assumes "mem_inv ms" and "n \<noteq> []" and "utf8_name n" and "v \<noteq> []"
    and "ParseGauge v = Inr f" and "is_finite f"
  shows "\<exists>w ms' b w'. UpdateHandler memory_db net_writer (path_request GaugeType n v) fresh_writer ms = Ret (w, ms') \<and>
    net_code w = Some 200 \<and> marshal_Metrics (query GaugeType n) = Inr b \<and>
    ValueRootHandler memory_db net_writer (json_request b) fresh_writer ms' = Ret (w', ms') \<and>
    net_code w' = Some 200 \<and>
    unmarshal_Metrics (n_body w') = (None, (query GaugeType n)\<lparr>Value := Some f\<rparr>)"
proof -
  let ?ms' = "put_gauges (fmupd n f (mem_gauges ms)) ms"
  have upd: "UpdateHandler memory_db net_writer (path_request GaugeType n v) fresh_writer ms =
      Ret (net_WriteHeader 200 fresh_writer, ?ms')"
    using assms by (simp add: UpdateHandler_def updateMetrics_def update_gauge_def memory_sets respond_def)
  obtain b where b: "marshal_Metrics (query GaugeType n) = Inr b" using query_marshals by blast
  let ?x = "(query GaugeType n)\<lparr>Value := Some f, SValue := FormatGauge f\<rparr>"
  have val: "spec_value (query GaugeType n) (mem_gauges ?ms', mem_counters ?ms') = Inr ?x"
    using assms(2) by (simp add: spec_value_def query_def Metrics_zero_def)
  obtain e where "json_float f = Some e" using assms(6) by (cases "json_float f") (auto simp: json_float_def)
  then obtain js where js: "marshal_Metrics ?x = Inr js"
    by (simp add: marshal_Metrics_def query_def Metrics_zero_def Let_def)
  have "mem_inv ?ms'" using assms(1) by simp
  from value_json_response [OF this query_text [OF assms(3) type_utf8(1) b] val js]
  obtain w' where w': "ValueRootHandler memory_db net_writer (json_request b) fresh_writer ?ms' = Ret (w', ?ms')"
    "net_code w' = Some 200" "n_body w' = js" by blast
  have "utf8_metrics ?x" using assms(3) type_utf8 by (simp add: utf8_metrics_def query_def)
  from decode_metrics_text [OF js this] have "unmarshal_Metrics js = (None, (query GaugeType n)\<lparr>Value := Some f\<rparr>)"
    by (simp add: query_def Metrics_zero_def)
  moreover have "net_code (net_WriteHeader 200 fresh_writer) = Some 200"
    by (simp add: net_code_def net_WriteHeader_def)
  ultimately show ?thesis using upd b w' by metis
qed

theorem gauge_read_your_write_witness:
  "\<exists>w ms' b w'. UpdateHandler memory_db net_writer (path_request GaugeType ''x'' ''0'') fresh_writer Memory_Init = Ret (w, ms') \<and>
    net_code w = Some 200 \<and> marshal_Metrics (query GaugeType ''x'') = Inr b \<and>
    ValueRootHandler memory_db net_writer (json_request b) fresh_writer ms' = Ret (w', ms') \<and>
    net_code w' = Some 200 \<and>
    unmarshal_Metrics (n_body w') = (None, (query GaugeType ''x'')\<lparr>Value := Some 0\<rparr>)"
proof -
  have f0: "FormatF 0 = ''0''" "is_finite 0" by code_simp+
  with ParseFloat_FormatF [OF f0(2)] have "ParseGauge ''0'' = Inr 0" by (simp add: ParseGauge_def)
  then show ?thesis
    using f0(2) by (intro gauge_read_your_write) (simp_all add: utf8_name_def)
qed

text \<open>
  C31. NaN and the infinities are accepted as gauges (200), but then the JSON query of that
  gauge answers 500: it has no JSON form.
\<close>

theorem non_finite_gauge_unreadable:
  assumes "mem_inv ms" and "n \<noteq> []" and "utf8_name n" and "v \<noteq> []"
    and "ParseGauge v = Inr f" and "\<not> is_finite f"
  shows "\<exists>w ms' b w'. UpdateHandler memory_db net_writer (path_request GaugeType n v) fresh_writer ms = Ret (w, ms') \<and>
    net_code w = Some 200 \<and> marshal_Metrics (query GaugeType n) = Inr b \<and>
    ValueRootHandler memory_db net_writer (json_request b) fresh_writer ms' = Ret (w', ms') \<and>
    net_code w' = Some 500"
proof -
  let ?ms' = "put_gauges (fmupd n f (mem_gauges ms)) ms"
  have upd: "UpdateHandler memory_db net_writer (path_request GaugeType n v) fresh_writer ms =
      Ret (net_WriteHeader 200 fresh_writer, ?ms')"
    using assms by (simp add: UpdateHandler_def updateMetrics_def update_gauge_def memory_sets respond_def)
  obtain b where b: "marshal_Metrics (query GaugeType n) = Inr b" using query_marshals by blast
  let ?x = "(query GaugeType n)\<lparr>Value := Some f, SValue := FormatGauge f\<rparr>"
  have val: "spec_value (query GaugeType n) (mem_gauges ?ms', mem_counters ?ms') = Inr ?x"
    using assms(2) by (simp add: spec_value_def query_def Metrics_zero_def)
  have "json_float f = None" using assms(6) by (simp add: json_float_def)
  then obtain e where e: "marshal_Metrics ?x = Inl e"
    by (simp add: marshal_Metrics_def query_def Metrics_zero_def Let_def)
  have inv: "mem_inv ?ms'" using assms(1) by simp
  have "ValueRootHandler memory_db net_writer (json_request b) fresh_writer ?ms' =
      Ret (api_Error net_writer (NewRespError ''marshaling failed'' (Some e)) 500 fresh_writer, ?ms')"
    using query_text [OF assms(3) type_utf8(1) b] getVhData_mem [OF inv val] e
    by (simp add: ValueRootHandler_def json_handler_request)
  moreover have "net_code (net_WriteHeader 200 fresh_writer) = Some 200"
    by (simp add: net_code_def net_WriteHeader_def)
  ultimately show ?thesis using upd b net.code_api_Error(1) [OF net_ok, of _ 500 fresh_writer] by fastforce
qed

theorem non_finite_gauge_unreadable_witness:
  "\<exists>w ms' b w'. UpdateHandler memory_db net_writer (path_request GaugeType ''x'' ''NaN'') fresh_writer Memory_Init = Ret (w, ms') \<and>
    net_code w = Some 200 \<and> marshal_Metrics (query GaugeType ''x'') = Inr b \<and>
    ValueRootHandler memory_db net_writer (json_request b) fresh_writer ms' = Ret (w', ms') \<and>
    net_code w' = Some 500"
proof -
  have "ParseGauge ''NaN'' = Inr f64_nan" "\<not> is_finite f64_nan" by code_simp+
  then show ?thesis
    by (intro non_finite_gauge_unreadable) (simp_all add: utf8_name_def)
qed

section \<open>Panics\<close>

lemma unmarshal_SValue: "unmarshal_Metrics b = (e, m) \<Longrightarrow> SValue m = []"
  using decode_Metrics_SValue [of _ Metrics_zero]
  by (auto simp: unmarshal_Metrics_def Metrics_zero_def split: option.splits) (metis snd_conv)

lemma spec_update_panics: "SValue m = [] \<Longrightarrow> spec_update m st = Panic p \<longleftrightarrow> usable m \<and> \<not> complete m \<and> p = nil_deref"
  by (auto simp: spec_update_def usable_def complete_def split: option.splits)

lemma implements_Panic: "implements code okw st good c0 r spec \<Longrightarrow> r = Panic p \<longleftrightarrow> spec = Panic p"
  by (cases r; cases spec) (auto simp: implements_def)

text \<open>
  C26. The JSON handlers panic with a nil dereference exactly when a decoded record has a name
  and a known type but not the value of its type: the one record of a single update, any
  record of a batch. (The server recovers and drops the connection.)
\<close>

theorem json_update_panics_iff:
  assumes "mem_inv ms"
  shows "(UpdateRootHandler memory_db net_writer (json_request b) fresh_writer ms = Panic p \<longleftrightarrow>
      (\<exists>m. unmarshal_Metrics b = (None, m) \<and> usable m \<and> \<not> complete m) \<and> p = nil_deref) \<and>
    (UpdateBatchHandler memory_db net_writer (json_request b) fresh_writer ms = Panic p \<longleftrightarrow>
      (\<exists>mm. unmarshal_batch b = (None, mm) \<and> (\<exists>m \<in> set mm. usable m \<and> \<not> complete m)) \<and> p = nil_deref)"
proof
  obtain e m where u: "unmarshal_Metrics b = (e, m)" by (cases "unmarshal_Metrics b")
  have "UpdateRootHandler memory_db net_writer (json_request b) fresh_writer ms = Panic p \<longleftrightarrow>
      spec_json (json_request b) spec_update_json (pair mem_gauges mem_counters ms) = Panic p"
    by (rule implements_Panic [OF api_mem.implements_UpdateRootHandler [OF assms net_ok]])
  also have "\<dots> \<longleftrightarrow> (\<exists>m. unmarshal_Metrics b = (None, m) \<and> usable m \<and> \<not> complete m) \<and> p = nil_deref"
    using u spec_update_panics [OF unmarshal_SValue [OF u]]
    by (cases e) (auto simp: spec_json_def spec_update_json_def)
  finally show "UpdateRootHandler memory_db net_writer (json_request b) fresh_writer ms = Panic p \<longleftrightarrow>
      (\<exists>m. unmarshal_Metrics b = (None, m) \<and> usable m \<and> \<not> complete m) \<and> p = nil_deref" .
next
  obtain e mm where u: "unmarshal_batch b = (e, mm)" by (cases "unmarshal_batch b")
  have "UpdateBatchHandler memory_db net_writer (json_request b) fresh_writer ms = Panic p \<longleftrightarrow>
      spec_json (json_request b) spec_batch_json (pair mem_gauges mem_counters ms) = Panic p"
    by (rule implements_Panic [OF api_mem.implements_UpdateBatchHandler [OF assms net_ok]])
  also have "\<dots> \<longleftrightarrow> (\<exists>mm. unmarshal_batch b = (None, mm) \<and> (\<exists>m \<in> set mm. usable m \<and> \<not> complete m)) \<and> p = nil_deref"
    using u by (cases e) (auto simp: spec_json_def spec_batch_json_def spec_batch_def)
  finally show "UpdateBatchHandler memory_db net_writer (json_request b) fresh_writer ms = Panic p \<longleftrightarrow>
      (\<exists>mm. unmarshal_batch b = (None, mm) \<and> (\<exists>m \<in> set mm. usable m \<and> \<not> complete m)) \<and> p = nil_deref" .
qed

theorem json_update_panics_iff_witness:
  "\<exists>b. marshal_Metrics (query GaugeType ''x'') = Inr b \<and>
    UpdateRootHandler memory_db net_writer (json_request b) fresh_writer Memory_Init = Panic nil_deref"
proof -
  obtain b where b: "marshal_Metrics (query GaugeType ''x'') = Inr b" using query_marshals by blast
  have "unmarshal_Metrics b = (None, query GaugeType ''x'')"
    by (rule query_text [OF _ type_utf8(1) b]) (simp add: utf8_name_def)
  moreover have "usable (query GaugeType ''x'')" "\<not> complete (query GaugeType ''x'')"
    by (simp_all add: usable_def complete_def query_def Metrics_zero_def)
  ultimately show ?thesis using b json_update_panics_iff [OF mem_inv_Init(1), of b nil_deref] by blast
qed

section \<open>Runs of requests\<close>

text \<open>Requests served one after the other, each with its own writer.\<close>

fun serve_updates :: "Request list \<Rightarrow> MemorySt \<Rightarrow> (nat option list \<times> MemorySt) outcome" where
  "serve_updates [] ms = Ret ([], ms)"
| "serve_updates (r # rs) ms =
     bind_outcome (UpdateHandler memory_db net_writer r fresh_writer ms) (\<lambda>(w, ms1).
       bind_outcome (serve_updates rs ms1) (\<lambda>(cs, ms2). Ret (net_code w # cs, ms2)))"

lemma FormatCounter_nonempty [simp]: "FormatCounter d \<noteq> []"
  by (simp add: FormatCounter_def FormatInt_def)

lemma serve_counter_updates:
  "mem_inv ms \<Longrightarrow> n \<noteq> [] \<Longrightarrow>
   serve_updates (map (\<lambda>d. path_request CounterType n (FormatCounter d)) ds) ms =
     Ret (replicate (length ds) (Some 200), put_counters (foldl (\<lambda>m d. add_counter n d m) (mem_counters ms) ds) ms)"
proof (induction ds arbitrary: ms)
  case Nil
  then show ?case by (simp add: put_counters_def mem_counters_def)
next
  case (Cons d ds)
  have parse: "ParseCounter (FormatCounter d) = Inr d" by (simp add: ParseCounter_def FormatCounter_def ParseInt_FormatInt)
  let ?ms1 = "put_counters (add_counter n d (mem_counters ms)) ms"
  have "UpdateHandler memory_db net_writer (path_request CounterType n (FormatCounter d)) fresh_writer ms =
      Ret (net_WriteHeader 200 fresh_writer, ?ms1)"
    using Cons.prems parse by (simp add: UpdateHandler_def updateMetrics_def update_counter_def memory_sets respond_def)
  moreover have "net_code (net_WriteHeader 200 fresh_writer) = Some 200"
    by (simp add: net_code_def net_WriteHeader_def)
  moreover have "put_counters x ?ms1 = put_counters x ms" for x by (simp add: put_counters_def)
  ultimately show ?case using Cons.IH [of ?ms1] Cons.prems by simp
qed

lemma foldl_add_counter:
  "ds \<noteq> [] \<Longrightarrow> foldl (\<lambda>m d. add_counter n d m) m ds = fmupd n (plus_opt (fmlookup m n) (sum_list ds)) m"
proof (induction ds arbitrary: m)
  case (Cons d ds)
  show ?case
  proof (cases "ds = []")
    case True
    then show ?thesis by (simp add: add_counter_def)
  next
    case False
    with Cons.IH [OF False, of "add_counter n d m"] show ?thesis
      by (intro fmap_ext) (auto simp: plus_opt_def algebra_simps split: option.splits)
  qed
qed simp

text \<open>
  C25. A run of path updates of one counter, whatever the signs and sizes of the deltas, is
  answered with 200 throughout and leaves the sum of the old value and all deltas modulo
  2^64 (\<open>int64\<close> wraps silently), so it does not depend on the order of the requests; gauges and other counters stay.
\<close>

theorem counter_updates_sum:
  assumes "mem_inv ms" and "n \<noteq> []" and "ds \<noteq> []"
  shows "\<exists>ms'. serve_updates (map (\<lambda>d. path_request CounterType n (FormatCounter d)) ds) ms =
      Ret (replicate (length ds) (Some 200), ms') \<and> mem_inv ms' \<and> mem_gauges ms' = mem_gauges ms \<and>
    mem_counters ms' = fmupd n ((case fmlookup (mem_counters ms) n of None \<Rightarrow> 0 | Some x \<Rightarrow> x) + sum_list ds) (mem_counters ms)"
  using serve_counter_updates [OF assms(1,2), of ds] foldl_add_counter [OF assms(3), of n "mem_counters ms"] assms(1)
  by (auto simp: plus_opt_def split: option.splits)

theorem counter_updates_sum_witness:
  "\<exists>ms'. serve_updates (map (\<lambda>d. path_request CounterType ''c'' (FormatCounter d)) [0x7FFFFFFFFFFFFFFF, 1]) Memory_Init =
      Ret (replicate 2 (Some 200), ms') \<and> mem_counters ms' = fmupd ''c'' 0x8000000000000000 fmempty"
  using counter_updates_sum [OF mem_inv_Init(1), of "''c''" "[0x7FFFFFFFFFFFFFFF, 1]"] by (auto simp: numeral_2_eq_2)

end
