(* ===== verification/Monserv_Facts.thy ===== *)
theory Monserv_Facts
  imports Monserv Middlewares_Facts Handlers_Facts
begin

text \<open>
  What the server's routes do: a request is first admitted (\<open>admit\<close>: decompression,
  signature, decryption, as a function of the request alone), then the abstract server of
  \<open>Handlers_Spec\<close> steps. The update routes refine this on the connection's writer behind
  the logging, signing and compressing writers; the consequences are the safety of the
  signature and the ways in which decryption fails open.
\<close>

section \<open>Admission\<close>

definition uncompressed :: "'z Gzip \<Rightarrow> Request \<Rightarrow> nat + Request" where
  "uncompressed gz req =
     (if Contains (hdr_Get ''Content-Encoding'' (rHeader req)) ''gzip''
      then (case NewGzipReader gz (rBody req) of Inl e \<Rightarrow> Inl 500 | Inr b \<Rightarrow> Inr (req\<lparr>rBody := b\<rparr>))
      else Inr req)"

definition checked :: "(bytes \<Rightarrow> bytes \<Rightarrow> bytes) \<Rightarrow> string \<Rightarrow> Request \<Rightarrow> nat + Request" where
  "checked hmac key req =
     (let h = hdr_Get ''HashSHA256'' (rHeader req)
      in if key = [] \<or> h = [] then Inr req
         else if b64_decode h = None then Inl 500
         else if b64_decode h = Some (hmac key (content (rBody req)))
              then Inr (req\<lparr>rBody := NopCloser (content (rBody req))\<rparr>)
              else Inl 400)"

definition decrypted :: "('pub, 'priv) Crypto \<Rightarrow> 'priv option \<Rightarrow> Request \<Rightarrow> (nat option \<times> Request) outcome" where
  "decrypted cr ck req =
     (case ck of
        None \<Rightarrow> Ret (None, req)
      | Some k \<Rightarrow>
          bind_outcome (DecryptMsg cr k (content (rBody req))) (\<lambda>r. Ret
            (case r of
               Inl e \<Rightarrow> (Some 500, req\<lparr>rBody := NopCloser []\<rparr>)
             | Inr b \<Rightarrow> (map_option (\<lambda>_. 500) (read_err (rBody req)), req\<lparr>rBody := NopCloser b\<rparr>))))"

definition admit :: "('z, 'pub, 'priv) Libs \<Rightarrow> string \<Rightarrow> 'priv option \<Rightarrow> Request \<Rightarrow> (nat + nat option \<times> Request) outcome" where
  "admit lib key ck req =
     (case uncompressed (lib_gz lib) req of
        Inl c \<Rightarrow> Ret (Inl c)
      | Inr req1 \<Rightarrow>
          (case checked (lib_hmac lib) key req1 of
             Inl c \<Rightarrow> Ret (Inl c)
           | Inr req2 \<Rightarrow> map_outcome Inr (decrypted (lib_crypto lib) ck req2)))"

text \<open>The route: the rejection's status, or the server's step after what was sent before it.\<close>

definition spec_route :: "('z, 'pub, 'priv) Libs \<Rightarrow> string \<Rightarrow> 'priv option
    \<Rightarrow> (Request \<Rightarrow> 'x \<Rightarrow> (nat \<times> 'x) outcome) \<Rightarrow> Request \<Rightarrow> 'x \<Rightarrow> (nat option \<times> 'x) outcome" where
  "spec_route lib key ck f req st =
     bind_outcome (admit lib key ck req) (\<lambda>r.
       case r of
         Inl c \<Rightarrow> Ret (Some c, st)
       | Inr (c0, req') \<Rightarrow> status c0 (f req' st))"

section \<open>Middlewares as transformers of what a handler realises\<close>

type_synonym 'x route_spec = "nat option \<Rightarrow> Request \<Rightarrow> 'x \<Rightarrow> (nat option \<times> 'x) outcome"

definition serves :: "('s \<Rightarrow> 'x) \<Rightarrow> ('s \<Rightarrow> bool) \<Rightarrow> ('z Conn, 's) Handler
    \<Rightarrow> (Request \<Rightarrow> 'x \<Rightarrow> (nat \<times> 'x) outcome) \<Rightarrow> bool" where
  "serves st good h f \<longleftrightarrow>
     (\<forall>rw ok w req s. resp_writer rw conn_code ok \<longrightarrow> ok w \<longrightarrow> good s \<longrightarrow>
        implements conn_code ok st good (conn_code w) (h rw req w s) (f req (st s)))"

definition realises :: "('s \<Rightarrow> 'x) \<Rightarrow> ('s \<Rightarrow> bool) \<Rightarrow> ('z Conn, 's) Handler \<Rightarrow> 'x route_spec \<Rightarrow> bool" where
  "realises st good h F \<longleftrightarrow>
     (\<forall>rw w req s. plain_writer rw \<longrightarrow> good s \<longrightarrow>
        view conn_code st (h rw req w s) = F (conn_code w) req (st s) \<and>
        (\<forall>w' s'. h rw req w s = Ret (w', s') \<longrightarrow> good s'))"

lemma realisesD:
  "realises st good h F \<Longrightarrow> plain_writer rw \<Longrightarrow> good s \<Longrightarrow> view conn_code st (h rw req w s) = F (conn_code w) req (st s)"
  "realises st good h F \<Longrightarrow> plain_writer rw \<Longrightarrow> good s \<Longrightarrow> h rw req w s = Ret (w', s') \<Longrightarrow> good s'"
  by (auto simp: realises_def)


context plain_writer begin

lemma plain_resp: "resp_writer rw conn_code (\<lambda>_. True)"
  by unfold_locales

lemma plain_http_Error: "conn_code (http_Error rw msg c w) = sent (conn_code w) c"
  by (simp add: sent_def)

end

lemma realises_Logger: "realises st good h F \<Longrightarrow> realises st good (CreateLogger h) F"
  unfolding realises_def CreateLogger_def using plain_writer.plain_log conn_code_slots(1,2) by metis

lemma realises_Signer: "realises st good h F \<Longrightarrow> realises st good (CreateSigner hmac key h) F"
  unfolding realises_def CreateSigner_def using plain_writer.plain_sign by blast

lemma realises_Uncompress:
  "realises st good h F \<Longrightarrow> realises st good (CreateUncompressReq gz h)
    (\<lambda>c0 req x. case uncompressed gz req of Inl c \<Rightarrow> Ret (sent c0 c, x) | Inr req' \<Rightarrow> F c0 req' x)"
  by (auto simp: realises_def CreateUncompressReq_def uncompressed_def plain_writer.plain_http_Error split: sum.splits)

lemma realises_SumChecker:
  assumes "key \<noteq> []"
  shows "realises st good h F \<Longrightarrow> realises st good (CreateSumChecker hmac key h)
    (\<lambda>c0 req x. case checked hmac key req of Inl c \<Rightarrow> Ret (sent c0 c, x) | Inr req' \<Rightarrow> F c0 req' x)"
  using assms
  by (auto simp: realises_def CreateSumChecker_def checked_def Let_def plain_writer.plain_http_Error split: option.splits)

lemma realises_Decrypter:
  fixes h :: "('z Conn, 's) Handler"
  assumes "realises st good h F"
  shows "realises st good (CreateMsgDecrypter cr k h)
    (\<lambda>c0 req x. bind_outcome (decrypted cr (Some k) req) (\<lambda>(c1, req').
       F (case c0 of None \<Rightarrow> c1 | Some c \<Rightarrow> Some c) req' x))"
  unfolding realises_def
proof (intro allI impI)
  fix rw :: "'z Conn RespWriter" and w and req :: Request and s
  assume rw: "plain_writer rw" and s: "good s"
  let ?b = "content (rBody req)"
  show "view conn_code st (CreateMsgDecrypter cr k h rw req w s) =
      bind_outcome (decrypted cr (Some k) req) (\<lambda>(c1, req'). F (case conn_code w of None \<Rightarrow> c1 | Some c \<Rightarrow> Some c) req' (st s)) \<and>
    (\<forall>w' s'. CreateMsgDecrypter cr k h rw req w s = Ret (w', s') \<longrightarrow> good s')"
  proof (cases "DecryptMsg cr k ?b")
    case (Ret r)
    then show ?thesis
      using realisesD [OF assms rw s] plain_writer.plain_http_Error [OF rw]
      by (cases r; cases "conn_code w"; cases "read_err (rBody req)")
        (auto simp: CreateMsgDecrypter_def decrypted_def Let_def sent_def)
  qed (simp_all add: CreateMsgDecrypter_def decrypted_def Let_def)
qed

text \<open>The innermost middleware turns the handler's contract into what the route realises.\<close>

lemma realises_Compress:
  fixes h :: "('z Conn, 's) Handler"
  assumes h: "serves st good h f"
  shows "realises st good (CreateCompress gz h) (\<lambda>c0 req x. status c0 (f req x))"
  unfolding realises_def
proof (intro allI impI)
  fix rw :: "'z Conn RespWriter" and w and req :: Request and s
  assume rw: "plain_writer rw" and s: "good s"
  show "view conn_code st (CreateCompress gz h rw req w s) = status (conn_code w) (f req (st s)) \<and>
    (\<forall>w' s'. CreateCompress gz h rw req w s = Ret (w', s') \<longrightarrow> good s')"
  proof (cases "wants_gzip req")
    case False
    from h plain_writer.plain_resp [OF rw] s
    have "implements conn_code (\<lambda>_. True) st good (conn_code w) (h rw req w s) (f req (st s))"
      unfolding serves_def by blast
    with False show ?thesis by (simp add: CreateCompress_def implements_def)
  next
    case True
    let ?w = "w\<lparr>c_wroteHeader := False, c_gz := gz_new gz, c_gz_err := None\<rparr>"
    let ?r = "h (gz_writer gz rw) req ?w s"
    have "gz_ok ?w" by (simp add: gz_ok_def)
    with h plain_writer.gz_resp_writer [OF rw, of gz] s
    have "implements conn_code gz_ok st good (conn_code ?w) ?r (f req (st s))"
      unfolding serves_def by blast
    then have imp: "view conn_code st ?r = status (conn_code w) (f req (st s))"
      and good: "\<And>w' s'. ?r = Ret (w', s') \<Longrightarrow> good s'" by (simp_all add: implements_def)
    show ?thesis
    proof (cases ?r)
      case (Ret ws)
      obtain w1 s1 where ws: "ws = (w1, s1)" by (cases ws)
      with Ret imp have "conn_code w1 \<noteq> None" by (cases "f req (st s)") (auto simp: sent_def)
      obtain err w2 where w2: "gw_Close gz rw w1 = (err, w2)" by (cases "gw_Close gz rw w1")
      with plain_writer.gw_Close_code [OF rw \<open>conn_code w1 \<noteq> None\<close>, of gz] have c2: "conn_code w2 = conn_code w1" by simp
      have "conn_code (http_Error rw m c w2) = conn_code w1" for m c
        using plain_writer.plain_http_Error [OF rw] c2 \<open>conn_code w1 \<noteq> None\<close> by (auto simp: sent_def)
      with True Ret ws w2 c2 imp good show ?thesis
        by (auto simp: CreateCompress_def split: option.splits)
    qed (use True imp in \<open>auto simp: CreateCompress_def\<close>)
  qed
qed

section \<open>The two chains\<close>

lemma bind_map_outcome: "bind_outcome (map_outcome g x) f = bind_outcome x (\<lambda>y. f (g y))"
  by (cases x) simp_all

lemma realises_umw:
  assumes "serves st good h f" and "srv_key srv = key" and "srv_cryptoKey srv = ck"
  shows "realises st good (foldr (\<lambda>m h. m h) (umw lib srv) h)
    (\<lambda>c0 req x. bind_outcome (admit lib key ck req) (\<lambda>r. case r of
       Inl c \<Rightarrow> Ret (sent c0 c, x)
     | Inr (c1, req') \<Rightarrow> status (case c0 of None \<Rightarrow> c1 | Some c \<Rightarrow> Some c) (f req' x)))"
proof -
  let ?inner = "case ck of None \<Rightarrow> CreateCompress (lib_gz lib) h
     | Some k \<Rightarrow> CreateMsgDecrypter (lib_crypto lib) k (CreateCompress (lib_gz lib) h)"
  let ?F = "\<lambda>c0 req x. bind_outcome (decrypted (lib_crypto lib) ck req) (\<lambda>(c1, req').
     status (case c0 of None \<Rightarrow> c1 | Some c \<Rightarrow> Some c) (f req' x))"
  have inner: "realises st good ?inner ?F"
  proof (cases ck)
    case None
    have "(\<lambda>c0 req x. status c0 (f req x)) = ?F"
      using None by (auto simp: fun_eq_iff decrypted_def split: option.splits)
    with None realises_Compress [OF assms(1), of "lib_gz lib"] show ?thesis by simp
  qed (use realises_Decrypter [OF realises_Compress [OF assms(1)]] in simp)
  let ?mid = "if key \<noteq> [] then CreateSumChecker (lib_hmac lib) key (CreateSigner (lib_hmac lib) key ?inner) else ?inner"
  let ?G = "\<lambda>c0 req x. case checked (lib_hmac lib) key req of Inl c \<Rightarrow> Ret (sent c0 c, x) | Inr req' \<Rightarrow> ?F c0 req' x"
  have mid: "realises st good ?mid ?G"
  proof (cases "key = []")
    case True
    then have "?F = ?G" by (simp add: fun_eq_iff checked_def Let_def)
    with True inner show ?thesis by simp
  qed (use realises_SumChecker [OF _ realises_Signer [OF inner]] in simp)
  have chain: "foldr (\<lambda>m h. m h) (umw lib srv) h = CreateLogger (CreateUncompressReq (lib_gz lib) ?mid)"
    by (auto simp: umw_def assms split: option.splits)
  show ?thesis
    unfolding chain
    using realises_Logger [OF realises_Uncompress [OF mid, of "lib_gz lib"]]
    by (rule back_subst [where P = "realises st good _"])
      (auto simp: fun_eq_iff admit_def bind_map_outcome split: sum.splits)
qed

lemma realises_mw:
  assumes "serves st good h f"
  shows "realises st good (foldr (\<lambda>m h. m h) (mw lib) h)
    (\<lambda>c0 req x. case uncompressed (lib_gz lib) req of Inl c \<Rightarrow> Ret (sent c0 c, x) | Inr req' \<Rightarrow> status c0 (f req' x))"
  using realises_Logger [OF realises_Uncompress [OF realises_Compress [OF assms, of "lib_gz lib"], of "lib_gz lib"]]
  by (simp add: mw_def)

section \<open>The handlers behind the chains\<close>

context reliable_repo begin

lemma api_on: "resp_writer rw code ok \<Longrightarrow> api db inv gauges counters rw code ok"
  by (intro api.intro reliable_repo_axioms)

lemma servesI:
  assumes "\<And>rw ok w req s. api db inv gauges counters rw conn_code ok \<Longrightarrow> inv s \<Longrightarrow> ok w \<Longrightarrow>
    implements conn_code ok (pair gauges counters) inv (conn_code w) (h rw req w s) (f req (pair gauges counters s))"
  shows "serves (pair gauges counters) inv h f"
  unfolding serves_def by (intro allI impI assms api_on)

lemma serves_Root: "page_writes tmpl \<Longrightarrow>
    serves (pair gauges counters) inv (CreateRootHandler tmpl db) (\<lambda>req st. Ret (spec_page tmpl st, st))"
  by (rule servesI) (rule api.implements_RootHandler)

lemma serves_Update: "serves (pair gauges counters) inv (UpdateHandler db) (\<lambda>req. spec_update (path_metrics req))"
  by (rule servesI) (rule api.implements_UpdateHandler)

lemma serves_UpdateRoot: "serves (pair gauges counters) inv (UpdateRootHandler db) (\<lambda>req. spec_json req spec_update_json)"
  by (rule servesI) (rule api.implements_UpdateRootHandler)

lemma serves_UpdateBatch: "serves (pair gauges counters) inv (UpdateBatchHandler db) (\<lambda>req. spec_json req spec_batch_json)"
  by (rule servesI) (rule api.implements_UpdateBatchHandler)

lemma serves_ValueRoot: "serves (pair gauges counters) inv (ValueRootHandler db) (\<lambda>req. spec_json req spec_value_json)"
  by (rule servesI) (rule api.implements_ValueRootHandler)

lemma serves_Value: "serves (pair gauges counters) inv (ValueHandler db)
    (\<lambda>req st. Ret (case spec_value (Metrics_zero\<lparr>MType := URLParam req ''type'', ID := URLParam req ''name''\<rparr>) st of
                     Inl c \<Rightarrow> c | Inr x \<Rightarrow> 200, st))"
  by (rule servesI) (rule api.implements_ValueHandler)

end

text \<open>The handler of each route, and the chain in front of it.\<close>

definition mounted_handler :: "page \<Rightarrow> 's MetricsRepo \<Rightarrow> nat \<Rightarrow> ('z Conn, 's) Handler" where
  "mounted_handler tmpl db i =
     (if i = 0 then CreateRootHandler tmpl db else if i = 3 then PingHandler db else if i = 1 then ValueRootHandler db
      else if i = 2 then ValueHandler db else if i = 4 then UpdateRootHandler db else if i = 5 then UpdateHandler db
      else UpdateBatchHandler db)"

definition mounted_route :: "('z, 'pub, 'priv) Libs \<Rightarrow> string \<Rightarrow> 'priv option \<Rightarrow> nat
    \<Rightarrow> (Request \<Rightarrow> 'x \<Rightarrow> (nat \<times> 'x) outcome) \<Rightarrow> Request \<Rightarrow> 'x \<Rightarrow> (nat option \<times> 'x) outcome" where
  "mounted_route lib key ck i f = (if i < 4 then spec_route lib [] None f else spec_route lib key ck f)"

lemma realises_mounted:
  fixes chi :: "('z, 's) Chi" and f :: "Request \<Rightarrow> 'x \<Rightarrow> (nat \<times> 'x) outcome"
  assumes "chi_laws chi" and "chi_Find chi (map fst (MountHandlers chi lib tmpl (NewInstance db key ck))) (Method req) path = Some (i, params)"
    and "i < 7" and "good s" and h: "serves st good (mounted_handler tmpl db i :: ('z Conn, 's) Handler) f"
  shows "view conn_code st (ServeHTTP chi lib tmpl (NewInstance db key ck) path req s) =
      mounted_route lib key ck i f (req\<lparr>URLParams := params\<rparr>) (st s)"
    "ServeHTTP chi lib tmpl (NewInstance db key ck) path req s = Ret (w, s') \<Longrightarrow> good s'"
proof -
  let ?srv = "NewInstance db key ck" and ?req = "req\<lparr>URLParams := params\<rparr>"
  have srv: "srv_key ?srv = key" "srv_cryptoKey ?srv = ck" by (simp_all add: NewInstance_def)
  let ?h = "mounted_handler tmpl db i"
  let ?chain = "if i < 4 then mw lib else umw lib ?srv"
  let ?F = "if i < 4
    then (\<lambda>c0 req x. case uncompressed (lib_gz lib) req of Inl c \<Rightarrow> Ret (sent c0 c, x) | Inr req' \<Rightarrow> status c0 (f req' x))
    else (\<lambda>c0 req x. bind_outcome (admit lib key ck req) (\<lambda>r. case r of
       Inl c \<Rightarrow> Ret (sent c0 c, x)
     | Inr (c1, req') \<Rightarrow> status (case c0 of None \<Rightarrow> c1 | Some c \<Rightarrow> Some c) (f req' x)))"
  have serve: "ServeHTTP chi lib tmpl ?srv path req s = chi_Use chi ?chain ?h conn_net ?req (new_conn (lib_gz lib)) s"
    using assms(2,3) by (auto simp: mounted_handler_def ServeHTTP_def MountHandlers_def Let_def NewInstance_def)
  have use: "chi_Use chi ?chain ?h = foldr (\<lambda>m h. m h) ?chain ?h"
    using assms(1) by (simp add: chi_laws_def)
  have real: "realises st good (chi_Use chi ?chain ?h) ?F"
  proof (cases "i < 4")
    case True
    then show ?thesis unfolding use unfolding if_P [OF True] by (intro realises_mw h)
  next
    case False
    then show ?thesis unfolding use unfolding if_not_P [OF False] by (intro realises_umw h srv)
  qed
  have fresh: "?F None ?req x = mounted_route lib key ck i f ?req x" for x
  proof (cases "i < 4")
    case True
    have "admit lib [] None ?req = Ret (map_sum id (Pair None) (uncompressed (lib_gz lib) ?req))"
      by (auto simp: admit_def checked_def decrypted_def split: sum.splits)
    with True show ?thesis by (auto simp: mounted_route_def spec_route_def split: sum.splits)
  next
    case False
    then show ?thesis
      by (cases "admit lib key ck ?req") (auto simp: mounted_route_def spec_route_def split: sum.splits)
  qed
  show "view conn_code st (ServeHTTP chi lib tmpl ?srv path req s) = mounted_route lib key ck i f ?req (st s)"
    unfolding serve realisesD(1) [OF real conn.plain_writer_axioms assms(4)] conn_code_slots(6) by (rule fresh)
  show "ServeHTTP chi lib tmpl ?srv path req s = Ret (w, s') \<Longrightarrow> good s'"
    unfolding serve by (rule realisesD(2) [OF real conn.plain_writer_axioms assms(4)])
qed

text \<open>What an update route does once the request is admitted.\<close>

definition spec_endpoint :: "page \<Rightarrow> nat \<Rightarrow> Request \<Rightarrow> metrics_state \<Rightarrow> (nat \<times> metrics_state) outcome" where
  "spec_endpoint tmpl i req st =
     (if i = 0 then Ret (spec_page tmpl st, st)
      else if i = 3 then Ret (500, st)
      else if i = 1 then spec_json req spec_value_json st
      else if i = 2 then Ret (case spec_value (Metrics_zero\<lparr>MType := URLParam req ''type'', ID := URLParam req ''name''\<rparr>) st of
                                Inl c \<Rightarrow> c | Inr x \<Rightarrow> 200, st)
      else if i = 4 then spec_json req spec_update_json st
      else if i = 5 then spec_update (path_metrics req) st
      else spec_json req spec_batch_json st)"

lemma mem_view: "pair mem_gauges mem_counters ms = (mem_gauges ms, mem_counters ms)"
  by (simp add: pair_def)

definition spec_server :: "('z, 'pub, 'priv) Libs \<Rightarrow> page \<Rightarrow> string \<Rightarrow> 'priv option \<Rightarrow> nat
    \<Rightarrow> Request \<Rightarrow> metrics_state \<Rightarrow> (nat option \<times> metrics_state) outcome" where
  "spec_server lib tmpl key ck i =
     (if i < 4 then spec_route lib [] None (spec_endpoint tmpl i) else spec_route lib key ck (spec_endpoint tmpl i))"

context offline_repo begin

lemma serves_Ping: "serves (pair gauges counters) inv (PingHandler db) (\<lambda>req st. Ret (500, st))"
proof (rule servesI)
  fix rw ok w req s
  assume a: "api db inv gauges counters rw conn_code ok" "inv s" "ok w"
  obtain e s' where "Ping db s = Ret (Some e, s')" using ping_fails [OF a(2)] by blast
  then show "implements conn_code ok (pair gauges counters) inv (conn_code w) (PingHandler db rw req w s) (Ret (500, pair gauges counters s))"
    by (rule api.implements_PingHandler [OF a])
qed

lemma endpoint:
  assumes "i < 7" and "i = 0 \<longrightarrow> page_writes tmpl"
  shows "serves (pair gauges counters) inv (mounted_handler tmpl db i) (spec_endpoint tmpl i)"
  using assms(1) serves_Root [of tmpl] assms(2) serves_Ping serves_UpdateRoot serves_Update serves_UpdateBatch serves_ValueRoot serves_Value
  by (auto simp: mounted_handler_def spec_endpoint_def [abs_def])

lemma routes_of:
  assumes "chi_laws chi" and "chi_Find chi (map fst (MountHandlers chi lib tmpl (NewInstance db key ck))) (Method req) path = Some (i, params)"
    and "i < 7" and "inv ms" and "i = 0 \<longrightarrow> page_writes tmpl"
  shows "view conn_code (pair gauges counters) (ServeHTTP chi lib tmpl (NewInstance db key ck) path req ms) =
      spec_server lib tmpl key ck i (req\<lparr>URLParams := params\<rparr>) (pair gauges counters ms)"
    "ServeHTTP chi lib tmpl (NewInstance db key ck) path req ms = Ret (w, ms') \<Longrightarrow> inv ms'"
  using realises_mounted [OF assms(1-4) endpoint [OF assms(3,5)]] by (simp_all add: spec_server_def mounted_route_def)

end

lemmas routes = mem.routes_of

section \<open>Properties of the server\<close>

text \<open>A concrete router and concrete libraries for the examples.\<close>

fun position :: "'a \<Rightarrow> 'a list \<Rightarrow> nat option" where
  "position x [] = None"
| "position x (y # ys) = (if x = y then Some 0 else map_option Suc (position x ys))"

lemma position_nth: "position x ys = Some i \<Longrightarrow> i < length ys \<and> ys ! i = x"
  by (induction ys arbitrary: i) (auto split: if_splits)

definition toy_chi :: "(string, string) fmap \<Rightarrow> ('z, 's) Chi" where
  "toy_chi params = \<lparr>
     chi_Use = (\<lambda>ms h. foldr (\<lambda>m h. m h) ms h),
     chi_Find = (\<lambda>rs meth path. map_option (\<lambda>i. (i, params)) (position (meth, if path \<noteq> [] \<and> last path = CHR ''/'' then path else path @ ''/'') rs)),
     chi_NotFound = (\<lambda>rw req w s. Ret (http_Error rw ''404 page not found'' 404 w, s))\<rparr>"

definition toy_gz :: "unit Gzip" where
  "toy_gz = \<lparr>gz_new = (), gz_Write = (\<lambda>p z. ([p], z)), gz_Close = (\<lambda>z. ([], z)), gz_Flush = (\<lambda>z. ([], z)),
     gz_NewReader = (\<lambda>(b, e). Inr (b, e, None))\<rparr>"

definition toy_libs :: "(unit, unit, unit) Libs" where
  "toy_libs = \<lparr>lib_gz = toy_gz, lib_hmac = (\<lambda>k b. k @ b), lib_crypto = toy_crypto\<rparr>"

lemma toy_chi_laws: "chi_laws (toy_chi params)"
  by (auto simp: chi_laws_def toy_chi_def dest!: position_nth)

text \<open>How the examples' requests are routed.\<close>

lemma toy_routes:
  "chi_Find (toy_chi params) (map fst (MountHandlers (toy_chi params) lib tmpl srv)) ''POST'' ''/update/'' = Some (4, params)"
  "chi_Find (toy_chi params) (map fst (MountHandlers (toy_chi params) lib tmpl srv)) ''POST'' ''/update/{type}/{name}/{value}/'' = Some (5, params)"
  "chi_Find (toy_chi params) (map fst (MountHandlers (toy_chi params) lib tmpl srv)) ''POST'' ''/updates/'' = Some (6, params)"
  "chi_Find (toy_chi params) (map fst (MountHandlers (toy_chi params) lib tmpl srv)) ''POST'' ''/updates'' = Some (6, params)"
  by (simp_all add: toy_chi_def MountHandlers_def Let_def)

lemma not_gzipped [simp]: "hdr_Get ''Content-Encoding'' (rHeader req) = [] \<Longrightarrow> uncompressed gz req = Inr req"
  by (simp add: uncompressed_def Contains_iff_sublist)

lemma spec_route_rejected: "admit lib key ck req = Ret (Inl c) \<Longrightarrow> spec_route lib key ck f req st = Ret (Some c, st)"
  by (simp add: spec_route_def)

lemma view_RetE:
  assumes "view code st r = Ret (c, x)"
  obtains w s where "r = Ret (w, s)" "code w = c" "st s = x"
proof (cases r)
  case (Ret ws)
  with assms that show ?thesis by (cases ws) auto
qed (use assms in simp_all)

lemma view_Panic: "view code st r = Panic p \<Longrightarrow> r = Panic p"
  by (cases r) (auto simp: view_def)

text \<open>A route that is found is one of the seven.\<close>

lemma found_route:
  assumes "chi_laws chi" and "chi_Find chi (map fst (MountHandlers chi lib tmpl srv)) meth path = Some (i, params)"
  shows "i < 7"
proof -
  have "i < length (map fst (MountHandlers chi lib tmpl srv))" using assms unfolding chi_laws_def by blast
  then show ?thesis by (simp add: MountHandlers_def Let_def)
qed

text \<open>
  C4. Every route of the server, behind the middlewares it is mounted with, refines the
  abstract server: the request is admitted or rejected by a function of the request alone
  (decompression, signature, decryption), a rejection leaves the store as it was, and an
  admitted request makes the abstract step of its endpoint, seen as the status on the
  connection and the gauges and counters in the store, whose locks are free afterwards.
\<close>

theorem routes_correct:
  assumes "chi_laws chi" and "chi_Find chi (map fst (MountHandlers chi lib tmpl (NewInstance memory_db key ck))) (Method req) path = Some (i, params)"
    and "i = 0 \<longrightarrow> page_writes tmpl" and "mem_inv ms"
  shows "view conn_code (pair mem_gauges mem_counters) (ServeHTTP chi lib tmpl (NewInstance memory_db key ck) path req ms) =
      spec_server lib tmpl key ck i (req\<lparr>URLParams := params\<rparr>) (mem_gauges ms, mem_counters ms) \<and>
    (\<forall>w ms'. ServeHTTP chi lib tmpl (NewInstance memory_db key ck) path req ms = Ret (w, ms') \<longrightarrow> mem_inv ms')"
  using routes [OF assms(1,2) found_route [OF assms(1,2)] assms(4,3)] unfolding mem_view by blast

theorem routes_correct_witness:
  "view conn_code (pair mem_gauges mem_counters)
     (ServeHTTP (toy_chi fmempty) toy_libs None (NewInstance memory_db ''key'' None) ''/update/'' (json_request ''[]'') Memory_Init) =
   spec_server toy_libs None ''key'' None 4 (json_request ''[]'') (fmempty, fmempty)"
proof -
  have "chi_Find (toy_chi fmempty) (map fst (MountHandlers (toy_chi fmempty) toy_libs None (NewInstance memory_db ''key'' None)))
      (Method (json_request ''[]'')) ''/update/'' = Some (4, fmempty)"
    by (simp add: toy_routes json_request_def)
  from routes_correct [OF toy_chi_laws this _ mem_inv_Init(1)] show ?thesis
    by (simp add: json_request_def)
qed

text \<open>A request the middlewares reject leaves the store alone.\<close>

lemma admit_rejects:
  assumes "chi_laws chi" and "chi_Find chi (map fst (MountHandlers chi lib tmpl (NewInstance memory_db key ck))) (Method req) path = Some (i, params)"
    and "i \<in> {4, 5, 6}" and "mem_inv ms" and "admit lib key ck (req\<lparr>URLParams := params\<rparr>) = Ret (Inl c)"
  shows "\<exists>w ms'. ServeHTTP chi lib tmpl (NewInstance memory_db key ck) path req ms = Ret (w, ms') \<and>
    conn_code w = Some c \<and> mem_gauges ms' = mem_gauges ms \<and> mem_counters ms' = mem_counters ms"
proof -
  have i: "i < 7" "\<not> i < 4" "i = 0 \<longrightarrow> page_writes tmpl" using assms(3) by auto
  have "view conn_code (pair mem_gauges mem_counters) (ServeHTTP chi lib tmpl (NewInstance memory_db key ck) path req ms) =
      Ret (Some c, (mem_gauges ms, mem_counters ms))"
    using routes(1) [OF assms(1,2) i(1) assms(4) i(3), unfolded spec_server_def if_not_P [OF i(2)]] assms(5)
    by (simp add: spec_route_rejected mem_view)
  then show ?thesis by (rule view_RetE) (auto simp: pair_def)
qed

text \<open>
  C14. With a key configured, an update whose \<open>HashSHA256\<close> header is not the encoded
  keyed hash of the (decompressed) body is answered with 400 or 500 and changes nothing,
  whatever its body; but an update without the header is served exactly as if no key were
  configured.
\<close>

theorem forged_update_rejected:
  assumes "chi_laws chi" and "chi_Find chi (map fst (MountHandlers chi lib tmpl (NewInstance memory_db key ck))) (Method req) path = Some (i, params)"
    and "i \<in> {4, 5, 6}" and "mem_inv ms" and "key \<noteq> []"
    and "uncompressed (lib_gz lib) req = Inr req1"
  shows "(hdr_Get ''HashSHA256'' (rHeader req) \<noteq> [] \<and>
      b64_decode (hdr_Get ''HashSHA256'' (rHeader req)) \<noteq> Some (lib_hmac lib key (content (rBody req1))) \<longrightarrow>
      (\<exists>w ms'. ServeHTTP chi lib tmpl (NewInstance memory_db key ck) path req ms = Ret (w, ms') \<and>
         conn_code w \<in> {Some 400, Some 500} \<and> mem_gauges ms' = mem_gauges ms \<and> mem_counters ms' = mem_counters ms)) \<and>
    (hdr_Get ''HashSHA256'' (rHeader req) = [] \<longrightarrow>
      view conn_code (pair mem_gauges mem_counters) (ServeHTTP chi lib tmpl (NewInstance memory_db key ck) path req ms) =
      spec_route lib [] ck (spec_endpoint tmpl i) (req\<lparr>URLParams := params\<rparr>) (mem_gauges ms, mem_counters ms))"
proof -
  let ?req = "req\<lparr>URLParams := params\<rparr>" and ?serve = "ServeHTTP chi lib tmpl (NewInstance memory_db key ck) path req ms"
  have same: "rHeader req1 = rHeader req"
    using assms(6) by (auto simp: uncompressed_def split: if_splits sum.splits)
  have unc: "uncompressed (lib_gz lib) ?req = Inr (req1\<lparr>URLParams := params\<rparr>)"
    using assms(6) by (auto simp: uncompressed_def split: if_splits sum.splits)
  have i: "i < 7" "\<not> i < 4" "i = 0 \<longrightarrow> page_writes tmpl" using assms(3) by auto
  note view = routes(1) [OF assms(1,2) i(1) assms(4) i(3), unfolded spec_server_def if_not_P [OF i(2)]]
  show ?thesis
  proof (intro conjI impI, elim conjE)
    assume "hdr_Get ''HashSHA256'' (rHeader req) \<noteq> []"
      "b64_decode (hdr_Get ''HashSHA256'' (rHeader req)) \<noteq> Some (lib_hmac lib key (content (rBody req1)))"
    then have "admit lib key ck ?req = Ret (Inl (if b64_decode (hdr_Get ''HashSHA256'' (rHeader req)) = None then 500 else 400))"
      using unc same assms(5) by (simp add: admit_def checked_def Let_def)
    then obtain c where "admit lib key ck ?req = Ret (Inl c)" "c \<in> {400, 500}" by (simp split: if_splits)
    from admit_rejects [OF assms(1-4) this(1)] this(2) show "\<exists>w ms'. ?serve = Ret (w, ms') \<and>
         conn_code w \<in> {Some 400, Some 500} \<and> mem_gauges ms' = mem_gauges ms \<and> mem_counters ms' = mem_counters ms"
      by auto
  next
    assume "hdr_Get ''HashSHA256'' (rHeader req) = []"
    then have "admit lib key ck ?req = admit lib [] ck ?req"
      using unc same by (simp add: admit_def checked_def)
    with view show "view conn_code (pair mem_gauges mem_counters) ?serve =
        spec_route lib [] ck (spec_endpoint tmpl i) ?req (mem_gauges ms, mem_counters ms)"
      by (simp add: spec_route_def mem_view)
  qed
qed

theorem forged_update_rejected_witness:
  "\<exists>w ms'. ServeHTTP (toy_chi fmempty) toy_libs None (NewInstance memory_db ''key'' None) ''/updates/''
       ((json_request ''[]'')\<lparr>rHeader := hdr_Set ''HashSHA256'' ''AAAA'' fmempty\<rparr>) Memory_Init = Ret (w, ms') \<and>
     conn_code w \<in> {Some 400, Some 500} \<and> mem_gauges ms' = fmempty \<and> mem_counters ms' = fmempty"
proof -
  let ?req = "(json_request ''[]'')\<lparr>rHeader := hdr_Set ''HashSHA256'' ''AAAA'' fmempty\<rparr>"
  have r: "chi_Find (toy_chi fmempty) (map fst (MountHandlers (toy_chi fmempty) toy_libs None (NewInstance memory_db ''key'' None)))
      (Method ?req) ''/updates/'' = Some (6, fmempty)"
    by (simp add: toy_routes json_request_def)
  have u: "uncompressed (lib_gz toy_libs) ?req = Inr ?req" by (simp add: hdr_Get_Set)
  have "b64_decode ''AAAA'' \<noteq> Some ''key[]''" by code_simp
  then show ?thesis
    using forged_update_rejected [OF toy_chi_laws r _ mem_inv_Init(1) _ u] by (simp add: hdr_Get_Set toy_libs_def)
qed

section \<open>Decryption fails open\<close>

text \<open>A request that reaches the decrypter.\<close>

definition to_decrypter :: "('z, 'pub, 'priv) Libs \<Rightarrow> string \<Rightarrow> Request \<Rightarrow> Request \<Rightarrow> bool" where
  "to_decrypter lib key req req2 \<longleftrightarrow>
     (\<exists>req1. uncompressed (lib_gz lib) req = Inr req1 \<and> checked (lib_hmac lib) key req1 = Inr req2)"

lemma to_decrypter_admit:
  "to_decrypter lib key req req2 \<Longrightarrow> admit lib key ck req = map_outcome Inr (decrypted (lib_crypto lib) ck req2)"
  by (auto simp: to_decrypter_def admit_def)

lemma admission_params:
  "uncompressed gz (req\<lparr>URLParams := p\<rparr>) = map_sum id (\<lambda>r. r\<lparr>URLParams := p\<rparr>) (uncompressed gz req)"
  "checked hmac key (req\<lparr>URLParams := p\<rparr>) = map_sum id (\<lambda>r. r\<lparr>URLParams := p\<rparr>) (checked hmac key req)"
  by (simp_all add: uncompressed_def checked_def Let_def split: sum.splits)

lemma to_decrypter_params:
  "to_decrypter lib key req req2 \<Longrightarrow> to_decrypter lib key (req\<lparr>URLParams := params\<rparr>) (req2\<lparr>URLParams := params\<rparr>)"
  by (auto simp: to_decrypter_def admission_params)

lemma plain_to_decrypter:
  "hdr_Get ''Content-Encoding'' (rHeader req) = [] \<Longrightarrow> hdr_Get ''HashSHA256'' (rHeader req) = [] \<Longrightarrow> to_decrypter lib key req req"
  by (simp add: to_decrypter_def checked_def)

text \<open>
  C34. With a private key configured, every update whose body (after decompression and the
  signature check) is shorter than 256 bytes panics in \<open>DecryptMsg\<close>, on each of the
  three update routes. So a path update, whose body is empty, can never be made.
\<close>

theorem short_body_panics:
  assumes "chi_laws chi" and "chi_Find chi (map fst (MountHandlers chi lib tmpl (NewInstance memory_db key (Some k)))) (Method req) path = Some (i, params)"
    and "i \<in> {4, 5, 6}" and "mem_inv ms"
    and "to_decrypter lib key req req2" and "length (content (rBody req2)) < 256"
  shows "ServeHTTP chi lib tmpl (NewInstance memory_db key (Some k)) path req ms = Panic slice_panic"
proof -
  let ?req = "req\<lparr>URLParams := params\<rparr>"
  have i: "i < 7" "\<not> i < 4" "i = 0 \<longrightarrow> page_writes tmpl" using assms(3) by auto
  have "admit lib key (Some k) ?req = Panic slice_panic"
    using to_decrypter_admit [OF to_decrypter_params [OF assms(5)]] assms(6)
    by (simp add: decrypted_def DecryptMsg_def encKeySize_def)
  then show ?thesis
    using routes(1) [OF assms(1,2) i(1) assms(4) i(3)] i(2)
    by (intro view_Panic [of conn_code "pair mem_gauges mem_counters"]) (simp add: spec_server_def spec_route_def)
qed

definition counter_params :: "(string, string) fmap" where
  "counter_params = fmupd ''type'' ''counter'' (fmupd ''name'' ''c'' (fmupd ''value'' ''7'' fmempty))"

theorem short_body_panics_witness:
  "ServeHTTP (toy_chi counter_params) toy_libs None (NewInstance memory_db [] (Some ()))
     ''/update/{type}/{name}/{value}/'' (path_request [] [] []) Memory_Init = Panic slice_panic"
proof -
  have "chi_Find (toy_chi counter_params) (map fst (MountHandlers (toy_chi counter_params) toy_libs None (NewInstance memory_db [] (Some ()))))
      (Method (path_request [] [] [])) ''/update/{type}/{name}/{value}/'' = Some (5, counter_params)"
    by (simp add: toy_routes path_request_def)
  moreover have "to_decrypter toy_libs [] (path_request [] [] []) (path_request [] [] [])"
    by (rule plain_to_decrypter) (simp_all add: path_request_def)
  moreover have "length (content (rBody (path_request [] [] []))) < 256" by (simp add: path_request_def NopCloser_def)
  ultimately show ?thesis
    by (intro short_body_panics [OF toy_chi_laws _ _ mem_inv_Init(1)]) auto
qed

text \<open>
  C35. A path update with a body that does not decrypt is answered with 500 but still made:
  the middleware writes the error and then calls the handler. A client that repeats the
  request because of the error adds the counter's delta once more each time.
\<close>

theorem undecryptable_update_made:
  assumes "chi_laws chi" and "chi_Find chi (map fst (MountHandlers chi lib tmpl (NewInstance memory_db key (Some k)))) (Method req) path = Some (5, params)"
    and "mem_inv ms" and "to_decrypter lib key req req2"
    and "DecryptMsg (lib_crypto lib) k (content (rBody req2)) = Ret (Inl e)"
    and "spec_update (path_metrics (req\<lparr>URLParams := params\<rparr>)) (mem_gauges ms, mem_counters ms) = Ret (200, (g, c))"
  shows "\<exists>w ms'. ServeHTTP chi lib tmpl (NewInstance memory_db key (Some k)) path req ms = Ret (w, ms') \<and>
    conn_code w = Some 500 \<and> mem_gauges ms' = g \<and> mem_counters ms' = c"
proof -
  let ?req = "req\<lparr>URLParams := params\<rparr>" and ?req2 = "req2\<lparr>URLParams := params\<rparr>"
  have "admit lib key (Some k) ?req = Ret (Inr (Some 500, ?req2\<lparr>rBody := NopCloser []\<rparr>))"
    using to_decrypter_admit [OF to_decrypter_params [OF assms(4)]] assms(5) by (simp add: decrypted_def)
  moreover have "path_metrics (?req2\<lparr>rBody := NopCloser []\<rparr>) = path_metrics ?req"
    by (simp add: path_metrics_def URLParam_def)
  ultimately have "view conn_code (pair mem_gauges mem_counters) (ServeHTTP chi lib tmpl (NewInstance memory_db key (Some k)) path req ms) =
      Ret (Some 500, (g, c))"
    using routes(1) [OF assms(1,2) _ assms(3)] assms(6)
    by (simp add: spec_server_def spec_route_def spec_endpoint_def mem_view)
  then show ?thesis by (rule view_RetE) (simp add: pair_def)
qed

theorem undecryptable_update_made_witness:
  "\<exists>w ms'. ServeHTTP (toy_chi counter_params) toy_libs None (NewInstance memory_db [] (Some ()))
       ''/update/{type}/{name}/{value}/'' ((path_request [] [] [])\<lparr>rBody := NopCloser (replicate 300 CHR ''x'')\<rparr>) Memory_Init = Ret (w, ms') \<and>
     conn_code w = Some 500 \<and> mem_gauges ms' = fmempty \<and> mem_counters ms' = fmupd ''c'' 7 fmempty"
proof (rule undecryptable_update_made [OF toy_chi_laws _ mem_inv_Init(1) plain_to_decrypter])
  let ?req = "(path_request [] [] [])\<lparr>rBody := NopCloser (replicate 300 CHR ''x'')\<rparr>"
  show "chi_Find (toy_chi counter_params) (map fst (MountHandlers (toy_chi counter_params) toy_libs None (NewInstance memory_db [] (Some ()))))
      (Method ?req) ''/update/{type}/{name}/{value}/'' = Some (5, counter_params)"
    by (simp add: toy_routes path_request_def)
  have "DecryptMsg toy_crypto () (replicate 300 CHR ''x'') = Ret (Inl (ErrMsg ''cipher: message authentication failed''))"
    by code_simp
  then show "DecryptMsg (lib_crypto toy_libs) () (content (rBody ?req)) = Ret (Inl (ErrMsg ''cipher: message authentication failed''))"
    by (simp add: toy_libs_def NopCloser_def)
  have "ParseCounter ''7'' = Inr 7" by code_simp
  then show "spec_update (path_metrics (?req\<lparr>URLParams := counter_params\<rparr>)) (mem_gauges Memory_Init, mem_counters Memory_Init) =
      Ret (200, (fmempty, fmupd ''c'' 7 fmempty))"
    by (simp add: path_metrics_def URLParam_def counter_params_def spec_update_def CounterType_def GaugeType_def add_counter_def)
qed (simp_all add: path_request_def)

end
