(* ===== verification/Server_Facts.thy ===== *)
theory Server_Facts
  imports Server_Main Repo_Facts Monserv_Facts
begin

text \<open>
  Sessions of requests on a store that keeps its contract, and the whole life of a server
  without a database: started, used, stopped and started again.
\<close>

section \<open>Sessions\<close>

definition route_table :: "(string \<times> string) list" where
  "route_table =
     [(''GET'', ''/''), (''POST'', ''/value/''), (''GET'', ''/value/{type}/{name}/''), (''GET'', ''/ping/''),
      (''POST'', ''/update/''), (''POST'', ''/update/{type}/{name}/{value}/''), (''POST'', ''/updates/'')]"

lemma mounted: "map fst (MountHandlers chi lib tmpl srv) = route_table"
  by (simp add: MountHandlers_def Let_def route_table_def)

text \<open>A request for one of the routes, and what its handler gets.\<close>

definition routed :: "('z, 's) Chi \<Rightarrow> string \<times> Request \<Rightarrow> nat \<times> Request \<Rightarrow> bool" where
  "routed chi pr ir \<longleftrightarrow>
     (\<exists>params. chi_Find chi route_table (Method (snd pr)) (fst pr) = Some (fst ir, params) \<and> snd ir = (snd pr)\<lparr>URLParams := params\<rparr>)"

text \<open>
  The abstract session: the server's step of each request in turn. A request whose handler
  panics has no status and no effect.
\<close>

definition answered :: "metrics_state \<Rightarrow> (nat option \<times> metrics_state) outcome \<Rightarrow> nat option \<times> metrics_state" where
  "answered st r = (case r of Ret x \<Rightarrow> x | _ \<Rightarrow> (None, st))"

fun session :: "('z, 'pub, 'priv) Libs \<Rightarrow> page \<Rightarrow> string \<Rightarrow> 'priv option \<Rightarrow> (nat \<times> Request) list
    \<Rightarrow> metrics_state \<Rightarrow> nat option list \<times> metrics_state" where
  "session lib tmpl key ck [] st = ([], st)"
| "session lib tmpl key ck ((i, req) # rs) st =
     (case answered st (spec_server lib tmpl key ck i req st) of
        (c, st') \<Rightarrow> (case session lib tmpl key ck rs st' of (cs, st'') \<Rightarrow> (c # cs, st'')))"

text \<open>No abstract step waits for ever.\<close>

lemma DecryptMsg_runs: "DecryptMsg cr k b \<noteq> Blocked"
  by (simp add: DecryptMsg_def Let_def split: sum.splits option.splits)

lemma admit_runs: "admit lib key ck req \<noteq> Blocked"
  using DecryptMsg_runs [of "lib_crypto lib"]
  by (auto simp: admit_def decrypted_def split: sum.splits option.splits)

lemma spec_update_runs: "spec_update m st \<noteq> Blocked"
  by (simp add: spec_update_def split: sum.splits option.splits)

lemma spec_endpoint_runs: "spec_endpoint tmpl i req st \<noteq> Blocked"
  using spec_update_runs
  by (simp add: spec_endpoint_def spec_json_def spec_value_json_def spec_update_json_def spec_batch_json_def spec_batch_def
      split: prod.split option.split)

lemma spec_server_runs: "spec_server lib tmpl key ck i req st \<noteq> Blocked"
  using admit_runs spec_endpoint_runs
  by (auto simp: spec_server_def spec_route_def status_def split: sum.splits)

context offline_repo begin

lemma serve_session:
  assumes "chi_laws chi" and "page_writes tmpl"
  shows "list_all2 (routed chi) reqs rs \<Longrightarrow> inv s \<Longrightarrow> session lib tmpl key ck rs (pair gauges counters s) = (codes, st') \<Longrightarrow>
    \<exists>s'. serve_all chi lib tmpl (NewInstance db key ck) reqs s = Ret (codes, s') \<and> inv s' \<and> pair gauges counters s' = st'"
proof (induction reqs arbitrary: rs s codes)
  case (Cons pr reqs)
  obtain path req where pr: "pr = (path, req)" by (cases pr)
  from Cons.prems(1) obtain ir rs' where rs: "rs = ir # rs'" "routed chi pr ir" "list_all2 (routed chi) reqs rs'"
    by (auto simp: list_all2_Cons1)
  obtain i req' where ir: "ir = (i, req')" by (cases ir)
  from rs(2) obtain params where f: "chi_Find chi route_table (Method req) path = Some (i, params)"
    and req': "req' = req\<lparr>URLParams := params\<rparr>" by (auto simp: routed_def pr ir)
  let ?serve = "ServeHTTP chi lib tmpl (NewInstance db key ck) path req s"
  obtain c st1 where ans: "answered (pair gauges counters s) (spec_server lib tmpl key ck i req' (pair gauges counters s)) = (c, st1)"
    by (rule prod.exhaust)
  obtain cs where rest: "session lib tmpl key ck rs' st1 = (cs, st')" and codes: "codes = c # cs"
    using Cons.prems(3) by (auto simp: rs(1) ir ans split: prod.splits)
  note route = f [folded mounted [of chi lib tmpl "NewInstance db key ck"]]
  note ok = found_route [OF assms(1) route] Cons.prems(2)
  have view: "view conn_code (pair gauges counters) ?serve = spec_server lib tmpl key ck i req' (pair gauges counters s)"
    using routes_of(1) [OF assms(1) route ok] assms(2) req' by simp
  have keep: "inv s1" if "?serve = Ret (w, s1)" for w s1
    by (rule routes_of(2) [OF assms(1) route ok _ that]) (use assms(2) in simp)
  obtain s1 where s1: "recovered s ?serve = Ret (c, s1)" "inv s1" "pair gauges counters s1 = st1"
  proof (cases ?serve)
    case (Ret ws)
    with view [symmetric] ans keep that show ?thesis by (cases ws) (auto simp: recovered_def answered_def)
  next
    case (Panic p)
    with view [symmetric] ans Cons.prems(2) that show ?thesis by (auto simp: recovered_def answered_def)
  qed (use view spec_server_runs in \<open>metis view_simps(5)\<close>)
  from Cons.IH [OF rs(3) s1(2), of cs] rest s1(3) obtain s' where
    "serve_all chi lib tmpl (NewInstance db key ck) reqs s1 = Ret (cs, s')" "inv s'" "pair gauges counters s' = st'" by auto
  with s1(1) codes pr show ?case by simp
qed simp

end

section \<open>A server's life\<close>

text \<open>Settings without a database, with the key \<open>ck\<close> in the file they name, if any.\<close>

definition in_memory_start :: "(string \<Rightarrow> (go_error + 'priv) outcome) \<Rightarrow> server_flags \<Rightarrow> 'priv option \<Rightarrow> bool" where
  "in_memory_start readKey c ck \<longleftrightarrow> sf_DBConnStr c = [] \<and>
     (case ck of
        None \<Rightarrow> sf_PrivateKeyPath c = []
      | Some k \<Rightarrow> sf_PrivateKeyPath c \<noteq> [] \<and> readKey (sf_PrivateKeyPath c) = Ret (Inr k))"

lemma server_start_in_memory:
  assumes "in_memory_start readKey c ck"
    and "Restore pg d \<lparr>cur_repo = Inr Memory_Init, cur_bkp = server_backup c, isInMemory = True\<rparr> = Ret (e, d', cur)"
  shows "server_start pg pgInit readKey c d = Ret (NewInstance (repo_db pg) (sf_Key c) ck, d', cur)"
  using assms by (auto simp: server_start_def in_memory_start_def Repo_Init_def split: option.splits)

lemma serve_all_in_memory:
  assumes "chi_laws chi" and "page_writes tmpl" and "list_all2 (routed chi) reqs rs" and "mem_inv ms"
    and "session lib tmpl key ck rs (mem_gauges ms, mem_counters ms) = (codes, st)"
  obtains ms' where "serve_all chi lib tmpl (NewInstance (repo_db pg) key ck) reqs (Inr ms) = Ret (codes, Inr ms')"
    and "mem_inv ms'" and "(mem_gauges ms', mem_counters ms') = st"
proof -
  have "\<exists>s'. serve_all chi lib tmpl (NewInstance (repo_db pg) key ck) reqs (Inr ms) = Ret (codes, s') \<and>
      case_sum (\<lambda>_. False) mem_inv s' \<and> pair (case_sum (\<lambda>_. fmempty) mem_gauges) (case_sum (\<lambda>_. fmempty) mem_counters) s' = st"
    using assms(4,5) by (intro in_memory.serve_session [OF assms(1-3)]) (simp_all add: pair_def)
  then obtain s' where "serve_all chi lib tmpl (NewInstance (repo_db pg) key ck) reqs (Inr ms) = Ret (codes, s')"
    "case_sum (\<lambda>_. False) mem_inv s'" "pair (case_sum (\<lambda>_. fmempty) mem_gauges) (case_sum (\<lambda>_. fmempty) mem_counters) s' = st" by blast
  with that show ?thesis by (cases s') (auto simp: pair_def)
qed

text \<open>A store in memory whose backup can be restored: its two parts in the file.\<close>

definition fits_backup :: "float64 gomap \<Rightarrow> int64 gomap \<Rightarrow> bytes \<Rightarrow> bytes \<Rightarrow> bool" where
  "fits_backup g k pt1 pt2 \<longleftrightarrow> gauge_part g = Inr pt1 \<and> counter_part k = Inr pt2 \<and>
     (\<forall>n \<in> fmdom' g. safe_name n) \<and> (\<forall>n \<in> fmdom' k. safe_name n) \<and>
     (3 \<le> length pt1 \<or> 3 \<le> length pt2) \<and> length (backup_data pt1 pt2) < 4096 \<and> length pt1 < 2047"

definition mem_current :: "server_flags \<Rightarrow> MemorySt \<Rightarrow> 'p Current" where
  "mem_current c m = \<lparr>cur_repo = Inr m, cur_bkp = server_backup c, isInMemory = True\<rparr>"

lemma fresh_start:
  assumes "in_memory_start readKey c ck" and "\<not> sf_Restore c"
  shows "server_start pg pgInit readKey c d = Ret (NewInstance (repo_db pg) (sf_Key c) ck, d, mem_current c Memory_Init)"
  using assms(2) unfolding mem_current_def
  by (intro server_start_in_memory [OF assms(1)]) (simp add: Restore_def ShouldRestore_def server_backup_def)

lemma stop_then_start:
  assumes "mem_inv m" and "in_memory_start readKey c2 ck2" and "sf_Restore c2" and "sf_Path c2 = sf_Path c1"
    and "healthy (sf_Path c1) d" and "fits_backup (mem_gauges m) (mem_counters m) pt1 pt2"
  defines "d' \<equiv> put_file (sf_Path c1) (backup_data pt1 pt2) d"
  obtains m1 m2 where "server_stop pg d (mem_current c1 m) = Ret (None, d', mem_current c1 m1)"
    and "mem_inv m1" and "mem_gauges m1 = mem_gauges m" and "mem_counters m1 = mem_counters m"
    and "server_start pg pgInit readKey c2 d' = Ret (NewInstance (repo_db pg) (sf_Key c2) ck2, d', mem_current c2 m2)"
    and "mem_inv m2" and "mem_gauges m2 = mem_gauges m" and "mem_counters m2 = mem_counters m"
proof -
  have bkp: "\<not> b_mu (server_backup c1)" "\<not> b_mu (server_backup c2)" "b_RestoreFlag (server_backup c2)"
    "b_Path (server_backup c2) = b_Path (server_backup c1)" "healthy (b_Path (server_backup c1)) d"
    using assms(3-5) by (simp_all add: server_backup_def)
  have path: "b_Path (server_backup c1) = sf_Path c1" by (simp add: server_backup_def)
  note fits = assms(6) [unfolded fits_backup_def]
  obtain m1 m2 where w: "Backup_Write (server_backup c1) (repo_db pg) True d (Inr m) = Ret (None, d', Inr m1)"
      "mem_inv m1" "mem_gauges m1 = mem_gauges m" "mem_counters m1 = mem_counters m"
    and r: "RestorePrev (server_backup c2) (repo_db pg) d' (Inr Memory_Init) = Ret (None, d', Inr m2)"
      "mem_inv m2" "mem_gauges m2 = mem_gauges m" "mem_counters m2 = mem_counters m"
    unfolding d'_def using fits by (elim conjE) (rule write_then_restore [OF assms(1) bkp, where pg = pg, unfolded path])
  have "server_stop pg d (mem_current c1 m) = Ret (None, d', mem_current c1 m1)"
    using w(1) by (simp add: server_stop_def ScheduleBackup_def repo_db_def dispatch_def Memory_Close_def memory_db_def mem_current_def)
  moreover have "server_start pg pgInit readKey c2 d' = Ret (NewInstance (repo_db pg) (sf_Key c2) ck2, d', mem_current c2 m2)"
    using r(1) assms(3) unfolding mem_current_def
    by (intro server_start_in_memory [OF assms(2)]) (simp add: Restore_def ShouldRestore_def server_backup_def)
  ultimately show ?thesis using that w(2-4) r(2-4) by blast
qed

lemma session_append:
  "session lib tmpl key ck (rs @ rs') st =
     (case session lib tmpl key ck rs st of
        (cs, st') \<Rightarrow> (case session lib tmpl key ck rs' st' of (cs', st'') \<Rightarrow> (cs @ cs', st'')))"
  by (induction rs arbitrary: st) (auto split: prod.splits)

text \<open>With the context the signal has cancelled, \<open>Shutdown\<close> waits for nothing.\<close>

lemma Shutdown_interrupted:
  "shutdown_requests interrupted busy = (if busy = [] then None else Some Canceled, [], busy)"
  by (simp add: shutdown_requests_def Shutdown_def WithTimeout_def interrupted_def cancel_def Background_def)

text \<open>With no request under way it is the run of the server.\<close>

lemma interrupted_at_rest:
  "server_interrupted chi lib tmpl pg pgInit readKey c reqs [] [] [] d =
     bind_outcome (server_run chi lib tmpl pg pgInit readKey c reqs d) (\<lambda>(codes, err, d', cur). Ret (codes, [], err, None, d', cur))"
proof (cases "server_start pg pgInit readKey c d")
  case (Ret st)
  obtain srv d1 cur where st: "st = (srv, d1, cur)" by (metis surj_pair)
  show ?thesis
  proof (cases "serve_all chi lib tmpl srv reqs (cur_repo cur)")
    case served: (Ret cs)
    obtain codes s where cs: "cs = (codes, s)" by (metis surj_pair)
    show ?thesis
      using Ret served st cs
      by (cases "server_stop pg d1 (cur\<lparr>cur_repo := s\<rparr>)")
        (auto simp: server_interrupted_def server_run_def server_shutdown_def Shutdown_interrupted)
  qed (use Ret st in \<open>simp_all add: server_interrupted_def server_run_def\<close>)
qed (simp_all add: server_interrupted_def server_run_def)

text \<open>
  C7. The shutdown loses updates. When the signal comes, requests are under way: some are
  answered before the backup reads the store (\<open>early\<close>), some after that and before
  \<open>main\<close> ends (\<open>mid\<close>), some take longer (\<open>rest\<close>). The context the signal
  cancels is the parent of the shutdown's timeout, so \<open>Shutdown\<close> returns at once with
  \<open>Canceled\<close> and every request of \<open>rest\<close> is cut off without a response, however
  short it is. Those of \<open>mid\<close> are answered as ever, with 200 where the update was made,
  but the file holds the store as it was before them, and the next server on the same file
  starts without their updates. (For a server without a
  database, started without the restore option, requests for its routes, a template that
  writes its page or fails, a store the file can hold, and a disk without faults at that path.)
\<close>

theorem late_updates_lost:
  assumes "chi_laws chi" and "page_writes tmpl"
    and "list_all2 (routed chi) reqs rs" and "list_all2 (routed chi) early rs'" and "list_all2 (routed chi) mid rs''"
    and "session lib tmpl (sf_Key c1) ck1 (rs @ rs') (fmempty, fmempty) = (codes, (g, k))"
    and "session lib tmpl (sf_Key c1) ck1 rs'' (g, k) = (codes', st')"
    and "in_memory_start readKey c1 ck1" and "\<not> sf_Restore c1" and "in_memory_start readKey c2 ck2" and "sf_Restore c2"
    and "sf_Path c2 = sf_Path c1" and "healthy (sf_Path c1) d" and "fits_backup g k pt1 pt2"
  shows "\<exists>d1 m1 m2.
    server_interrupted chi lib tmpl pg pgInit readKey c1 reqs early mid rest d =
      Ret (codes, codes' @ replicate (length rest) None, None, if rest = [] then None else Some Canceled, d1, mem_current c1 m1) \<and>
    (mem_gauges m1, mem_counters m1) = st' \<and>
    server_start pg pgInit readKey c2 d1 = Ret (NewInstance (repo_db pg) (sf_Key c2) ck2, d1, mem_current c2 m2) \<and>
    (mem_gauges m2, mem_counters m2) = (g, k)"
proof -
  let ?srv = "NewInstance (repo_db pg) (sf_Key c1) ck1"
  obtain cs st cs' where se: "session lib tmpl (sf_Key c1) ck1 rs (fmempty, fmempty) = (cs, st)"
    "session lib tmpl (sf_Key c1) ck1 rs' st = (cs', (g, k))" "codes = cs @ cs'"
    using assms(6) by (auto simp: session_append split: prod.splits)
  have "session lib tmpl (sf_Key c1) ck1 rs (mem_gauges Memory_Init, mem_counters Memory_Init) = (cs, st)" using se(1) by simp
  then obtain ma where ma: "serve_all chi lib tmpl ?srv reqs (Inr Memory_Init) = Ret (cs, Inr ma)"
      "mem_inv ma" "(mem_gauges ma, mem_counters ma) = st"
    by (rule serve_all_in_memory [OF assms(1-3) mem_inv_Init(1)])
  obtain mb where mb: "serve_all chi lib tmpl ?srv early (Inr ma) = Ret (cs', Inr mb)"
      "mem_inv mb" "(mem_gauges mb, mem_counters mb) = (g, k)"
    by (rule serve_all_in_memory [OF assms(1,2,4) ma(2) se(2) [folded ma(3)]])
  have fit: "fits_backup (mem_gauges mb) (mem_counters mb) pt1 pt2" using assms(14) mb(3) by simp
  obtain m1 m2 d1 where stop: "server_stop pg d (mem_current c1 mb) = Ret (None, d1, mem_current c1 m1)"
      "mem_inv m1" "mem_gauges m1 = g" "mem_counters m1 = k"
    and start: "server_start pg pgInit readKey c2 d1 = Ret (NewInstance (repo_db pg) (sf_Key c2) ck2, d1, mem_current c2 m2)"
      "mem_gauges m2 = g" "mem_counters m2 = k"
    using stop_then_start [OF mb(2) assms(10-13) fit, where pg = pg and pgInit = pgInit] mb(3) by (metis Pair_inject)
  have "session lib tmpl (sf_Key c1) ck1 rs'' (mem_gauges m1, mem_counters m1) = (codes', st')" using assms(7) stop(3,4) by simp
  then obtain mc where mc: "serve_all chi lib tmpl ?srv mid (Inr m1) = Ret (codes', Inr mc)" "(mem_gauges mc, mem_counters mc) = st'"
    by (rule serve_all_in_memory [OF assms(1,2,5) stop(2)])
  have "server_shutdown chi lib tmpl pg ?srv interrupted early mid rest d (mem_current c1 ma) =
      Ret (cs', codes' @ replicate (length rest) None, None, if rest = [] then None else Some Canceled, d1, mem_current c1 mc)"
    using mb(1) stop(1) mc(1) by (simp add: server_shutdown_def Shutdown_interrupted mem_current_def)
  then have "server_interrupted chi lib tmpl pg pgInit readKey c1 reqs early mid rest d =
      Ret (codes, codes' @ replicate (length rest) None, None, if rest = [] then None else Some Canceled, d1, mem_current c1 mc)"
    using fresh_start [OF assms(8,9), where pg = pg and pgInit = pgInit and d = d] ma(1) se(3)
    by (simp add: server_interrupted_def mem_current_def)
  with mc(2) start show ?thesis by blast
qed

text \<open>The example: each request adds 7 to a counter \<open>c\<close>.\<close>

definition seven_path :: string where
  "seven_path = ''/update/{type}/{name}/{value}/''"

definition add_seven :: Request where
  "add_seven = (path_request [] [] [])\<lparr>URLParams := counter_params\<rparr>"

lemma seven_routed: "routed (toy_chi counter_params) (seven_path, path_request [] [] []) (5, add_seven)"
  by (simp add: routed_def route_table_def toy_chi_def seven_path_def add_seven_def path_request_def)

lemma seven_step: "spec_server toy_libs None [] None 5 add_seven (g, k) = Ret (Some 200, (g, add_counter ''c'' 7 k))"
proof -
  have "ParseCounter ''7'' = Inr 7" by code_simp
  then have "spec_update (path_metrics add_seven) (g, k) = Ret (200, (g, add_counter ''c'' 7 k))"
    by (simp add: add_seven_def path_metrics_def URLParam_def counter_params_def spec_update_def CounterType_def GaugeType_def)
  moreover have "admit toy_libs [] None add_seven = Ret (Inr (None, add_seven))"
    by (simp add: admit_def checked_def decrypted_def add_seven_def path_request_def)
  ultimately show ?thesis by (simp add: spec_server_def spec_route_def spec_endpoint_def)
qed

abbreviation one_counter_json :: "string \<Rightarrow> string" where
  "one_counter_json v \<equiv> CHR ''{'' # CHR 0x22 # CHR ''c'' # CHR 0x22 # CHR '':'' # v @ ''}''"

lemma one_counter_part:
  assumes "FormatInt v = u"
  shows "counter_part (fmupd ''c'' v fmempty) = Inr (one_counter_json u)"
proof -
  have "json_quote ''c'' = [CHR 0x22, CHR ''c'', CHR 0x22]" by code_simp
  with assms show ?thesis by (simp add: counter_part_def marshal_counters_def marshal_map_def sorted_one json_int_def)
qed

lemma example_sessions:
  "session toy_libs None [] None [(5, add_seven), (5, add_seven)] (fmempty, fmempty) = ([Some 200, Some 200], (fmempty, fmupd ''c'' 14 fmempty))"
  "session toy_libs None [] None [(5, add_seven)] (fmempty, fmupd ''c'' 14 fmempty) = ([Some 200], (fmempty, fmupd ''c'' 21 fmempty))"
proof -
  have "add_counter ''c'' 7 (add_counter ''c'' 7 fmempty) = fmupd ''c'' 14 fmempty"
    "add_counter ''c'' 7 (fmupd ''c'' 14 fmempty) = fmupd ''c'' 21 fmempty"
    by (intro fmap_ext; simp)+
  then show "session toy_libs None [] None [(5, add_seven), (5, add_seven)] (fmempty, fmempty) = ([Some 200, Some 200], (fmempty, fmupd ''c'' 14 fmempty))"
    "session toy_libs None [] None [(5, add_seven)] (fmempty, fmupd ''c'' 14 fmempty) = ([Some 200], (fmempty, fmupd ''c'' 21 fmempty))"
    by (simp_all add: seven_step answered_def)
qed

lemma example_fits:
  "fits_backup fmempty (fmupd ''c'' 14 fmempty) ''{}'' (one_counter_json ''14'')"
  "fits_backup fmempty (fmupd ''c'' 21 fmempty) ''{}'' (one_counter_json ''21'')"
proof -
  have "safe_name ''c''" using one_gauge_names(2) [of 0] by (simp add: one_gauge_names(6))
  moreover have "FormatInt 14 = ''14''" "FormatInt 21 = ''21''" by code_simp+
  ultimately show "fits_backup fmempty (fmupd ''c'' 14 fmempty) ''{}'' (one_counter_json ''14'')"
    "fits_backup fmempty (fmupd ''c'' 21 fmempty) ''{}'' (one_counter_json ''21'')"
    by (simp_all add: fits_backup_def one_counter_part gauge_part_def backup_data_def)
qed

lemma example_starts:
  "in_memory_start readKey defSrvOpts None" "in_memory_start readKey (defSrvOpts\<lparr>sf_Restore := True\<rparr>) None" "\<not> sf_Restore defSrvOpts"
  "sf_Key defSrvOpts = []"
  by (simp_all add: in_memory_start_def defSrvOpts_def)

theorem late_updates_lost_witness:
  "\<exists>d1 m1 m2.
    server_interrupted (toy_chi counter_params) toy_libs None toy_pg (\<lambda>_. Inl ErrSyntax) (\<lambda>_. Panic []) defSrvOpts
      [(seven_path, path_request [] [] [])] [(seven_path, path_request [] [] [])]
      [(seven_path, path_request [] [] [])] [(1, seven_path, path_request [] [] [])] test_disk =
      Ret ([Some 200, Some 200], [Some 200] @ replicate (length [(1 :: nat, seven_path, path_request [] [] [])]) None, None, if [(1 :: nat, seven_path, path_request [] [] [])] = [] then None else Some Canceled, d1, mem_current defSrvOpts m1) \<and>
    (mem_gauges m1, mem_counters m1) = (fmempty, fmupd ''c'' 21 fmempty) \<and>
    server_start toy_pg (\<lambda>_. Inl ErrSyntax) (\<lambda>_. Panic []) (defSrvOpts\<lparr>sf_Restore := True\<rparr>) d1 =
      Ret (NewInstance (repo_db toy_pg) (sf_Key (defSrvOpts\<lparr>sf_Restore := True\<rparr>)) (None :: unit option), d1, mem_current (defSrvOpts\<lparr>sf_Restore := True\<rparr>) m2) \<and>
    (mem_gauges m2, mem_counters m2) = (fmempty, fmupd ''c'' 14 fmempty)"
  by (rule late_updates_lost [OF toy_chi_laws, where rs = "[(5, add_seven)]" and rs' = "[(5, add_seven)]" and rs'' = "[(5, add_seven)]"
        and ?ck1.0 = None and ?ck2.0 = None and g = fmempty and k = "fmupd ''c'' 14 fmempty"])
    (use example_sessions example_fits in \<open>auto simp: page_writes_def seven_routed example_starts test_env\<close>)

section \<open>Any number of restarts\<close>

text \<open>
  A life is the settings of the server with the key they name, and the requests with what
  their handlers get. The lives run one after the other on the same disk; the abstract store
  knows nothing of the restarts.
\<close>

type_synonym 'priv life = "server_flags \<times> 'priv option \<times> (string \<times> Request) list \<times> (nat \<times> Request) list"

fun server_lives :: "('z, 'p + MemorySt) Chi \<Rightarrow> ('z, 'pub, 'priv) Libs \<Rightarrow> page \<Rightarrow> 'p PgSQL \<Rightarrow> (string \<Rightarrow> go_error + 'p)
    \<Rightarrow> (string \<Rightarrow> (go_error + 'priv) outcome) \<Rightarrow> 'priv life list \<Rightarrow> Disk \<Rightarrow> (nat option list list \<times> Disk) outcome" where
  "server_lives chi lib tmpl pg pgInit readKey [] d = Ret ([], d)"
| "server_lives chi lib tmpl pg pgInit readKey ((c, ck, reqs, rs) # ls) d =
     bind_outcome (server_run chi lib tmpl pg pgInit readKey c reqs d) (\<lambda>(codes, err, d', cur).
       bind_outcome (server_lives chi lib tmpl pg pgInit readKey ls d') (\<lambda>(cs, d''). Ret (codes # cs, d'')))"

fun uninterrupted :: "('z, 'pub, 'priv) Libs \<Rightarrow> page \<Rightarrow> 'priv life list \<Rightarrow> metrics_state \<Rightarrow> nat option list list \<times> metrics_state" where
  "uninterrupted lib tmpl [] st = ([], st)"
| "uninterrupted lib tmpl ((c, ck, reqs, rs) # ls) st =
     (case session lib tmpl (sf_Key c) ck rs st of
        (codes, st') \<Rightarrow> (case uninterrupted lib tmpl ls st' of (cs, st'') \<Rightarrow> (codes # cs, st'')))"

text \<open>The store at the end of every life is empty or fits into the file.\<close>

definition keepable :: "float64 gomap \<Rightarrow> int64 gomap \<Rightarrow> bool" where
  "keepable g k \<longleftrightarrow> g = fmempty \<and> k = fmempty \<or> (\<exists>pt1 pt2. fits_backup g k pt1 pt2)"

fun lives_fit :: "('z, 'pub, 'priv) Libs \<Rightarrow> page \<Rightarrow> 'priv life list \<Rightarrow> metrics_state \<Rightarrow> bool" where
  "lives_fit lib tmpl [] st = True"
| "lives_fit lib tmpl ((c, ck, reqs, rs) # ls) st =
     (case session lib tmpl (sf_Key c) ck rs st of
        (codes, (g, k)) \<Rightarrow> keepable g k \<and> lives_fit lib tmpl ls (g, k))"

text \<open>A life without a database whose backup is at the path \<open>p\<close>.\<close>

definition life_ok :: "('z, 's) Chi \<Rightarrow> (string \<Rightarrow> (go_error + 'priv) outcome) \<Rightarrow> string \<Rightarrow> bool \<Rightarrow> 'priv life \<Rightarrow> bool" where
  "life_ok chi readKey p restores l \<longleftrightarrow>
     (case l of (c, ck, reqs, rs) \<Rightarrow>
        in_memory_start readKey c ck \<and> sf_Path c = p \<and> sf_Restore c = restores \<and> list_all2 (routed chi) reqs rs)"

text \<open>
  The file at \<open>p\<close> holds the store: what the next start finds. For an empty store it is
  empty, since \<open>Write\<close> truncates it and then has nothing to write.
\<close>

definition saved :: "string \<Rightarrow> float64 gomap \<Rightarrow> int64 gomap \<Rightarrow> Disk \<Rightarrow> bool" where
  "saved p g k d \<longleftrightarrow> healthy p d \<and>
     (g = fmempty \<and> k = fmempty \<and> d_files d p = Some [] \<or>
      (\<exists>pt1 pt2. fits_backup g k pt1 pt2 \<and> d_files d p = Some (backup_data pt1 pt2)))"

text \<open>An empty file: the restoration fails, leaves the empty store, and its error is not looked at.\<close>

lemma read_parts_empty: "read_parts [] = Ret ([], [])"
proof -
  let ?sc = "\<lparr>arrays = [[], replicate 4096 CHR 0x00], sc_start = 0, sc_end = 0, sc_rest = [], sc_err = True\<rparr>"
  have "scan_fuel (NewScanner []) = 2" "scan_fuel ?sc = 2" by (simp_all add: scan_fuel_def NewScanner_def)
  moreover have "Scan 2 backup_split (NewScanner []) = Ret (None, ?sc)"
    by (simp add: numeral_2_eq_2 NewScanner_def try_split_def shift_buf_def grow_buf_def cur_buf_def startBufSize_def
        maxTokenSize_def sc_data_def overwrite_def read_buf_def set_cur_def backup_split_def)
  moreover have "Scan 2 backup_split ?sc = Ret (None, ?sc)"
    by (simp add: numeral_2_eq_2 try_split_def sc_data_def cur_buf_def backup_split_def)
  ultimately show ?thesis by (simp add: read_parts_def)
qed

lemma empty_start:
  assumes "in_memory_start readKey c ck" and "sf_Restore c" and "healthy (sf_Path c) d" and "d_files d (sf_Path c) = Some []"
  shows "server_start pg pgInit readKey c d = Ret (NewInstance (repo_db pg) (sf_Key c) ck, d, mem_current c Memory_Init)"
proof -
  obtain e where "RestorePrev (server_backup c) (repo_db pg) d (Inr Memory_Init) = Ret (Some e, d, Inr Memory_Init)"
    using assms(2-4)
    by (simp add: RestorePrev_def ShouldRestore_def server_backup_def OpenFile_def healthy_def file_contents_def read_parts_empty
        restore_gauges_def restore_counters_def)
  then have "Restore pg d \<lparr>cur_repo = Inr Memory_Init, cur_bkp = server_backup c, isInMemory = True\<rparr> = Ret (Some e, d, mem_current c Memory_Init)"
    using assms(2) by (simp add: Restore_def ShouldRestore_def server_backup_def mem_current_def)
  then show ?thesis
    unfolding mem_current_def by (rule server_start_in_memory [OF assms(1)])
qed

lemma empty_stop:
  assumes "mem_inv m" and "mem_gauges m = fmempty" and "mem_counters m = fmempty" and "healthy (sf_Path c) d"
  obtains e m' where "server_stop pg d (mem_current c m) = Ret (Some e, put_file (sf_Path c) [] d, mem_current c m')"
proof -
  have b: "\<not> b_mu (server_backup c)" "healthy (b_Path (server_backup c)) d" "b_Path (server_backup c) = sf_Path c"
    using assms(4) by (simp_all add: server_backup_def)
  obtain e s' where "Backup_Write (server_backup c) (repo_db pg) True d (Inr m) = Ret (Some e, put_file (sf_Path c) [] d, s')"
    "case_sum (\<lambda>_. False) mem_inv s'"
    using in_memory.write_nothing [of "Inr m" "server_backup c" d, where pg = pg] b assms(1-3) by auto
  then obtain m' where "Backup_Write (server_backup c) (repo_db pg) True d (Inr m) = Ret (Some e, put_file (sf_Path c) [] d, Inr m')"
    by (cases s') simp_all
  then have "server_stop pg d (mem_current c m) = Ret (Some e, put_file (sf_Path c) [] d, mem_current c m')"
    by (simp add: server_stop_def ScheduleBackup_def repo_db_def dispatch_def Memory_Close_def memory_db_def mem_current_def)
  with that show ?thesis .
qed

lemma saved_start:
  assumes "saved (sf_Path c) g k d" and "in_memory_start readKey c ck" and "sf_Restore c"
  obtains m where "server_start pg pgInit readKey c d = Ret (NewInstance (repo_db pg) (sf_Key c) ck, d, mem_current c m)"
    and "mem_inv m" and "mem_gauges m = g" and "mem_counters m = k"
  using assms(1) unfolding saved_def
proof (elim conjE disjE exE)
  assume "healthy (sf_Path c) d" "d_files d (sf_Path c) = Some []" and e: "g = fmempty" "k = fmempty"
  then show ?thesis using empty_start [OF assms(2,3), where pg = pg and pgInit = pgInit] that [of Memory_Init] by simp
next
  fix pt1 pt2
  assume pts: "healthy (sf_Path c) d" "fits_backup g k pt1 pt2" "d_files d (sf_Path c) = Some (backup_data pt1 pt2)"
  let ?m0 = "put_counters k (put_gauges g Memory_Init)"
  have m0: "mem_inv ?m0" "fits_backup (mem_gauges ?m0) (mem_counters ?m0) pt1 pt2" using pts(2) by simp_all
  show ?thesis
    by (rule stop_then_start [OF m0(1) assms(2,3) refl pts(1) m0(2), where pg = pg and pgInit = pgInit, unfolded put_file_same [OF pts(3)]])
      (use that in simp)
qed

lemma saved_stop:
  assumes "mem_inv m" and "healthy (sf_Path c) d" and "keepable (mem_gauges m) (mem_counters m)"
  obtains e bs m' where "server_stop pg d (mem_current c m) = Ret (e, put_file (sf_Path c) bs d, mem_current c m')"
    and "saved (sf_Path c) (mem_gauges m) (mem_counters m) (put_file (sf_Path c) bs d)"
  using assms(3) unfolding keepable_def
proof (elim conjE disjE exE)
  assume "mem_gauges m = fmempty" "mem_counters m = fmempty"
  then show ?thesis
    using empty_stop [OF assms(1) _ _ assms(2), of pg] that assms(2) by (auto simp: saved_def)
next
  fix pt1 pt2
  assume fit: "fits_backup (mem_gauges m) (mem_counters m) pt1 pt2"
  let ?c2 = "c\<lparr>sf_DBConnStr := [], sf_PrivateKeyPath := [], sf_Restore := True\<rparr>"
  have c2: "in_memory_start (\<lambda>_. Panic []) ?c2 (None :: unit option)" "sf_Restore ?c2" "sf_Path ?c2 = sf_Path c"
    by (simp_all add: in_memory_start_def)
  have "saved (sf_Path c) (mem_gauges m) (mem_counters m) (put_file (sf_Path c) (backup_data pt1 pt2) d)"
    using assms(2) fit by (auto simp: saved_def)
  with that show ?thesis
    by (rule_tac stop_then_start [OF assms(1) c2 assms(2) fit, where pg = pg and pgInit = "\<lambda>_. Inl ErrSyntax"]) blast
qed

text \<open>One life, from a start that is given to the file of its backup.\<close>

lemma one_life:
  assumes "chi_laws chi" and "page_writes tmpl" and "list_all2 (routed chi) reqs rs"
    and "server_start pg pgInit readKey c d = Ret (NewInstance (repo_db pg) (sf_Key c) ck, d, mem_current c m)"
    and "mem_inv m" and "healthy (sf_Path c) d" and "session lib tmpl (sf_Key c) ck rs (mem_gauges m, mem_counters m) = (codes, (g, k))"
    and "keepable g k"
  obtains e bs cur where "server_run chi lib tmpl pg pgInit readKey c reqs d = Ret (codes, e, put_file (sf_Path c) bs d, cur)"
    and "saved (sf_Path c) g k (put_file (sf_Path c) bs d)"
proof -
  obtain m1 where m1: "serve_all chi lib tmpl (NewInstance (repo_db pg) (sf_Key c) ck) reqs (Inr m) = Ret (codes, Inr m1)"
      "mem_inv m1" "(mem_gauges m1, mem_counters m1) = (g, k)"
    by (rule serve_all_in_memory [OF assms(1-3,5,7)])
  have gk: "mem_gauges m1 = g" "mem_counters m1 = k" using m1(3) by simp_all
  obtain e bs m' where stop: "server_stop pg d (mem_current c m1) = Ret (e, put_file (sf_Path c) bs d, mem_current c m')"
      "saved (sf_Path c) g k (put_file (sf_Path c) bs d)"
    using saved_stop [OF m1(2) assms(6), of pg, unfolded gk, OF assms(8)] .
  have "server_run chi lib tmpl pg pgInit readKey c reqs d = Ret (codes, e, put_file (sf_Path c) bs d, mem_current c m')"
    using assms(4) m1(1) stop(1) by (simp add: server_run_def mem_current_def)
  with that stop(2) show ?thesis by blast
qed

lemma more_lives:
  assumes "chi_laws chi" and "page_writes tmpl"
  shows "\<forall>l \<in> set ls. life_ok chi readKey p True l \<Longrightarrow> lives_fit lib tmpl ls (g, k) \<Longrightarrow> saved p g k d \<Longrightarrow>
    \<exists>bs. server_lives chi lib tmpl pg pgInit readKey ls d = Ret (fst (uninterrupted lib tmpl ls (g, k)), put_file p bs d) \<and>
      (case snd (uninterrupted lib tmpl ls (g, k)) of (g', k') \<Rightarrow> saved p g' k' (put_file p bs d))"
proof (induction ls arbitrary: g k d)
  case Nil
  then obtain bs where "d_files d p = Some bs" by (auto simp: saved_def)
  from put_file_same [OF this] Nil show ?case by (intro exI [of _ bs]) simp
next
  case (Cons l ls)
  obtain c ck reqs rs where l: "l = (c, ck, reqs, rs)" by (cases l)
  have ok: "in_memory_start readKey c ck" "sf_Restore c" "list_all2 (routed chi) reqs rs" and p: "sf_Path c = p"
    using Cons.prems(1) by (auto simp: l life_ok_def)
  obtain codes g1 k1 where se: "session lib tmpl (sf_Key c) ck rs (g, k) = (codes, (g1, k1))" by (metis surj_pair)
  have fit: "keepable g1 k1" "lives_fit lib tmpl ls (g1, k1)" using Cons.prems(2) by (auto simp: l se)
  obtain m where m: "server_start pg pgInit readKey c d = Ret (NewInstance (repo_db pg) (sf_Key c) ck, d, mem_current c m)"
    "mem_inv m" "mem_gauges m = g" "mem_counters m = k" by (rule saved_start [OF Cons.prems(3) [folded p] ok(1,2)])
  have h: "healthy (sf_Path c) d" using Cons.prems(3) p by (simp add: saved_def)
  have se': "session lib tmpl (sf_Key c) ck rs (mem_gauges m, mem_counters m) = (codes, (g1, k1))" by (simp add: m(3,4) se)
  obtain e bs cur where run: "server_run chi lib tmpl pg pgInit readKey c reqs d = Ret (codes, e, put_file p bs d, cur)"
      "saved p g1 k1 (put_file p bs d)"
    using one_life [OF assms ok(3) m(1,2) h se' fit(1), unfolded p] .
  from Cons.IH [OF _ fit(2) run(2)] Cons.prems(1) obtain bs' where
    "server_lives chi lib tmpl pg pgInit readKey ls (put_file p bs d) = Ret (fst (uninterrupted lib tmpl ls (g1, k1)), put_file p bs' d)"
    "case snd (uninterrupted lib tmpl ls (g1, k1)) of (g', k') \<Rightarrow> saved p g' k' (put_file p bs' d)" by auto
  with run(1) se l show ?case by (auto split: prod.splits)
qed

text \<open>
  C1. A server without a database, stopped and started again any number of times with its
  backup at one path: its lives together answer every sequence of requests for its routes,
  those that make a handler panic included, as one abstract store does that is never
  interrupted, from the empty store; the file at that path is left for the next one, and no
  other file is touched. The first life starts without the restore option, the others with
  it; each may have other keys. It holds on a disk without faults at the path, with a template
  that writes its page or fails (\<open>page_writes\<close>), and when the store at the end of each
  life is empty or fits the file: its gauges are finite, its names are UTF-8 without
  \<open>,{\<close>, the file stays below the scanner's first buffer and the gauges below 2047 bytes.
\<close>

theorem updates_survive_restarts:
  assumes "chi_laws chi" and "page_writes tmpl" and "healthy p d"
    and "life_ok chi readKey p False l" and "\<forall>l' \<in> set ls. life_ok chi readKey p True l'"
    and "lives_fit lib tmpl (l # ls) (fmempty, fmempty)"
  shows "\<exists>bs. server_lives chi lib tmpl pg pgInit readKey (l # ls) d =
      Ret (fst (uninterrupted lib tmpl (l # ls) (fmempty, fmempty)), put_file p bs d) \<and>
    (case snd (uninterrupted lib tmpl (l # ls) (fmempty, fmempty)) of (g, k) \<Rightarrow> saved p g k (put_file p bs d))"
proof -
  obtain c ck reqs rs where l: "l = (c, ck, reqs, rs)" by (cases l)
  have ok: "in_memory_start readKey c ck" "\<not> sf_Restore c" "list_all2 (routed chi) reqs rs" and p: "sf_Path c = p"
    using assms(4) by (auto simp: l life_ok_def)
  obtain codes g1 k1 where se: "session lib tmpl (sf_Key c) ck rs (fmempty, fmempty) = (codes, (g1, k1))" by (metis surj_pair)
  have fit: "keepable g1 k1" "lives_fit lib tmpl ls (g1, k1)" using assms(6) by (auto simp: l se)
  have se': "session lib tmpl (sf_Key c) ck rs (mem_gauges Memory_Init, mem_counters Memory_Init) = (codes, (g1, k1))" by (simp add: se)
  obtain e bs cur where run: "server_run chi lib tmpl pg pgInit readKey c reqs d = Ret (codes, e, put_file p bs d, cur)"
      "saved p g1 k1 (put_file p bs d)"
    using one_life [OF assms(1,2) ok(3) fresh_start [OF ok(1,2)] mem_inv_Init(1) assms(3) [folded p] se' fit(1), unfolded p] .
  from more_lives [OF assms(1,2,5) fit(2) run(2), where pg = pg and pgInit = pgInit] obtain bs' where
    "server_lives chi lib tmpl pg pgInit readKey ls (put_file p bs d) = Ret (fst (uninterrupted lib tmpl ls (g1, k1)), put_file p bs' d)"
    "case snd (uninterrupted lib tmpl ls (g1, k1)) of (g', k') \<Rightarrow> saved p g' k' (put_file p bs' d)" by (elim exE conjE) auto
  with run(1) se l show ?thesis by (auto split: prod.splits)
qed

text \<open>Four lives: one without requests, two updates, one more after a restart, none after another.\<close>

abbreviation restoring :: server_flags where
  "restoring \<equiv> defSrvOpts\<lparr>sf_Restore := True\<rparr>"

definition four_lives :: "unit life list" where
  "four_lives =
    [(defSrvOpts, None, [], []),
     (restoring, None, [(seven_path, path_request [] [] []), (seven_path, path_request [] [] [])], [(5, add_seven), (5, add_seven)]),
     (restoring, None, [(seven_path, path_request [] [] [])], [(5, add_seven)]),
     (restoring, None, [], [])]"

lemma four_uninterrupted:
  "uninterrupted toy_libs None four_lives (fmempty, fmempty) =
    ([[], [Some 200, Some 200], [Some 200], []], (fmempty, fmupd ''c'' 21 fmempty))"
  using example_sessions by (simp add: four_lives_def example_starts)

lemma four_fit: "lives_fit toy_libs None four_lives (fmempty, fmempty)"
  using example_sessions example_fits by (auto simp: four_lives_def example_starts keepable_def)

theorem updates_survive_restarts_witness:
  "\<exists>bs. server_lives (toy_chi counter_params) toy_libs None toy_pg (\<lambda>_. Inl ErrSyntax) (\<lambda>_. Panic []) four_lives test_disk =
      Ret ([[], [Some 200, Some 200], [Some 200], []], put_file (sf_Path defSrvOpts) bs test_disk) \<and>
    saved (sf_Path defSrvOpts) fmempty (fmupd ''c'' 21 fmempty) (put_file (sf_Path defSrvOpts) bs test_disk)"
proof -
  obtain l ls where l: "four_lives = l # ls" by (simp add: four_lives_def)
  have ok: "life_ok (toy_chi counter_params) (\<lambda>_. Panic []) (sf_Path defSrvOpts) False l"
      "\<forall>l' \<in> set ls. life_ok (toy_chi counter_params) (\<lambda>_. Panic []) (sf_Path defSrvOpts) True l'"
    using l by (auto simp: four_lives_def life_ok_def seven_routed example_starts)
  show ?thesis
    using updates_survive_restarts [OF toy_chi_laws _ test_env(3) ok four_fit [unfolded l], of toy_pg "\<lambda>_. Inl ErrSyntax"]
    unfolding l [symmetric] four_uninterrupted by (simp add: page_writes_def)
qed

section \<open>Start and end of the program\<close>

text \<open>In production mode a log file that cannot be opened ends the program before anything else.\<close>

lemma prod_log_panics:
  assumes "server_config stat args env = Ret (Inr c)" and "sf_Mode c = prodMode" and "openFile logPath = Inl err"
  shows "server_main openFile chi lib tmpl pg pgInit readKey stat args env reqs d = Panic ''open server.log''"
  using assms by (simp add: server_main_def initLogger_def)

text \<open>Every end of the server, also the clean one, is logged with a reason.\<close>

lemma exit_has_reason:
  assumes "0 \<in> set order"
  shows "exit_reason lis bkpErr ctx busy order \<noteq> None"
proof -
  have "Some (case lis of Some e \<Rightarrow> e | None \<Rightarrow> ErrMsg ''http: Server closed'') \<in>
      set (map (\<lambda>i. [Some (case lis of Some e \<Rightarrow> e | None \<Rightarrow> ErrMsg ''http: Server closed''), bkpErr, fst (shutdown_requests ctx busy)] ! i) order)"
    using assms by force
  then show ?thesis unfolding exit_reason_def Let_def group_Wait_None by blast
qed

text \<open>Without the signal, when the listener has failed, requests that end within 30 seconds are waited for.\<close>

lemma failed_listener_waits:
  "\<forall>b \<in> set busy. fst b < 30 \<Longrightarrow> shutdown_requests Background busy = (None, map snd (sort_key fst busy), [])"
  by (simp add: shutdown_requests_def Shutdown_def WithTimeout_def Background_def shutdownTimeout_def filter_empty_conv not_le)

end
