(* ===== verification/Unreliable_Store.thy ===== *)
theory Unreliable_Store
  imports Monserv_Facts Repo_Facts
begin

text \<open>
  The server on a store that may fail. The handlers are first separated from the writer: what
  they answer and do to the store is a function of the store alone. On a store that keeps
  \<open>metrics_repo\<close> each of these answers is the abstract one, or 500 with the update made
  in full, in part or not at all; the middlewares carry that to the routes.
\<close>

section \<open>Answers without a writer\<close>

definition answer_update :: "'s MetricsRepo \<Rightarrow> Metrics \<Rightarrow> 's \<Rightarrow> (nat \<times> 's) outcome" where
  "answer_update db m s = map_outcome (apfst fst) (updateMetrics db m s)"

definition answer_batch :: "'s MetricsRepo \<Rightarrow> float64 gomap \<Rightarrow> int64 gomap \<Rightarrow> 's \<Rightarrow> (nat \<times> 's) outcome" where
  "answer_batch db gm cm s =
     (if map_len gm = 0 \<and> map_len cm = 0 then Ret (400, s)
      else bind_outcome (store_gauges db gm s) (\<lambda>(e1, s1).
        if e1 \<noteq> None then Ret (500, s1)
        else bind_outcome (store_counters db cm s1) (\<lambda>(e2, s2). Ret (if e2 = None then 200 else 500, s2))))"

definition answer_value :: "'s MetricsRepo \<Rightarrow> (vhData \<Rightarrow> nat) \<Rightarrow> Metrics \<Rightarrow> 's \<Rightarrow> (nat \<times> 's) outcome" where
  "answer_value db found m s =
     bind_outcome (getVhData db m s) (\<lambda>(r, s'). Ret (case r of Inl (c, e) \<Rightarrow> c | Inr v \<Rightarrow> found v, s'))"

definition answer_ping :: "'s MetricsRepo \<Rightarrow> 's \<Rightarrow> (nat \<times> 's) outcome" where
  "answer_ping db s = bind_outcome (Ping db s) (\<lambda>(e, s'). Ret (if e = None then 200 else 500, s'))"

definition answer_page :: "page \<Rightarrow> 's MetricsRepo \<Rightarrow> 's \<Rightarrow> (nat \<times> 's) outcome" where
  "answer_page tmpl db s =
     bind_outcome (GetGaugeAll db s) (\<lambda>(g, s1).
       case g of
         Inl e \<Rightarrow> Ret (500, s1)
       | Inr gs \<Rightarrow> bind_outcome (GetCounterAll db s1) (\<lambda>(c, s2).
           Ret (case c of Inl e \<Rightarrow> 500 | Inr cs \<Rightarrow> spec_page tmpl (gs, cs), s2)))"

definition json_status :: "vhData \<Rightarrow> nat" where
  "json_status v = (case marshal_Metrics (vh_metrics v) of Inl e \<Rightarrow> 500 | Inr js \<Rightarrow> 200)"

definition answer_endpoint :: "page \<Rightarrow> 's MetricsRepo \<Rightarrow> nat \<Rightarrow> Request \<Rightarrow> 's \<Rightarrow> (nat \<times> 's) outcome" where
  "answer_endpoint tmpl db i req =
     (if i = 0 then answer_page tmpl db
      else if i = 3 then answer_ping db
      else if i = 1 then spec_json req (\<lambda>b s. case unmarshal_Metrics b of
        (Some e, _) \<Rightarrow> Ret (400, s) | (None, m) \<Rightarrow> answer_value db json_status m s)
      else if i = 2 then answer_value db (\<lambda>_. 200) (Metrics_zero\<lparr>MType := URLParam req ''type'', ID := URLParam req ''name''\<rparr>)
      else if i = 4 then spec_json req (\<lambda>b s. case unmarshal_Metrics b of
        (Some e, _) \<Rightarrow> Ret (400, s) | (None, m) \<Rightarrow> answer_update db m s)
      else if i = 5 then answer_update db (path_metrics req)
      else spec_json req (\<lambda>b s. case unmarshal_batch b of
        (Some e, _) \<Rightarrow> Ret (400, s) | (None, mm) \<Rightarrow> bind_outcome (collect_batch mm fmempty fmempty) (\<lambda>(gm, cm). answer_batch db gm cm s)))"

context resp_writer begin

lemma answers_update:
  "ok w \<Longrightarrow> implements code ok id (\<lambda>_. True) (code w)
    (bind_outcome (updateMetrics db m s) (\<lambda>(res, s'). Ret (respond rw res w, s'))) (answer_update db m s)"
  by (cases "updateMetrics db m s") (auto simp: answer_update_def implements_def code_respond)

lemma answers_batch:
  "ok w \<Longrightarrow> implements code ok id (\<lambda>_. True) (code w) (store_batch db rw gm cm w s) (answer_batch db gm cm s)"
proof (cases "map_len gm = 0 \<and> map_len cm = 0")
  case True
  then show "ok w \<Longrightarrow> ?thesis" unfolding store_batch_def answer_batch_def by (simp add: implements_def code_api_Error)
next
  case False
  assume ok: "ok w"
  show ?thesis
  proof (cases "store_gauges db gm s")
    case (Ret r)
    obtain e1 s1 where r: "r = (e1, s1)" by (cases r)
    show ?thesis
      unfolding store_batch_def answer_batch_def if_not_P [OF False] Ret r
      using ok by (cases e1; cases "store_counters db cm s1") (auto simp: implements_def code_api_Error sent_def split: option.splits)
  qed (use ok in \<open>simp_all add: store_batch_def answer_batch_def implements_def code_api_Error\<close>)
qed

lemma answers_Value:
  "ok w \<Longrightarrow> implements code ok id (\<lambda>_. True) (code w) (ValueHandler db rw req w s)
    (answer_value db (\<lambda>_. 200) (Metrics_zero\<lparr>MType := URLParam req ''type'', ID := URLParam req ''name''\<rparr>) s)"
  by (cases "getVhData db (Metrics_zero\<lparr>MType := URLParam req ''type'', ID := URLParam req ''name''\<rparr>) s")
    (auto simp: ValueHandler_def Let_def answer_value_def implements_def code_api_Error code_write_body split: sum.splits)

lemma answers_Ping:
  "ok w \<Longrightarrow> implements code ok id (\<lambda>_. True) (code w) (PingHandler db rw req w s) (answer_ping db s)"
  by (cases "Ping db s") (auto simp: PingHandler_def answer_ping_def implements_def code_api_Error sent_def split: option.splits)

lemma json_answer:
  "ok w \<Longrightarrow> (\<And>b. implements code ok id (\<lambda>_. True) (code w) (h b w s) (f b s)) \<Longrightarrow>
   implements code ok id (\<lambda>_. True) (code w) (json_handler rw req h w s) (spec_json req f s)"
  using implements_json_handler [where good = "\<lambda>_. True" and st = id and s = s and f = f and h = h] by simp

lemma answers_unmarshaling: "ok w \<Longrightarrow> implements code ok id (\<lambda>_. True) (code w) (Ret (unmarshaling_failed rw e w, s)) (Ret (400, s))"
  by (simp add: implements_def unmarshaling_failed_def code_api_Error)

lemma answers_UpdateRoot:
  assumes "ok w"
  shows "implements code ok id (\<lambda>_. True) (code w) (UpdateRootHandler db rw req w s)
    (spec_json req (\<lambda>b s. case unmarshal_Metrics b of (Some e, _) \<Rightarrow> Ret (400, s) | (None, m) \<Rightarrow> answer_update db m s) s)"
  unfolding UpdateRootHandler_def
  by (rule json_answer [OF assms]) (auto intro: answers_unmarshaling answers_update assms split: prod.splits option.splits)

lemma answers_UpdateBatch:
  assumes "ok w"
  shows "implements code ok id (\<lambda>_. True) (code w) (UpdateBatchHandler db rw req w s)
    (spec_json req (\<lambda>b s. case unmarshal_batch b of (Some e, _) \<Rightarrow> Ret (400, s)
      | (None, mm) \<Rightarrow> bind_outcome (collect_batch mm fmempty fmempty) (\<lambda>(gm, cm). answer_batch db gm cm s)) s)"
proof -
  have run: "implements code ok id (\<lambda>_. True) (code w) (bind_outcome x (\<lambda>(gm, cm). store_batch db rw gm cm w s))
      (bind_outcome x (\<lambda>(gm, cm). answer_batch db gm cm s))" for x
  proof (cases x)
    case (Ret gc)
    then show ?thesis using answers_batch [OF assms] by (cases gc) simp
  qed (simp_all add: implements_def)
  show ?thesis
    unfolding UpdateBatchHandler_def
    by (rule json_answer [OF assms]) (auto intro: answers_unmarshaling run assms split: prod.splits option.splits)
qed

lemma answers_ValueRoot:
  assumes "ok w"
  shows "implements code ok id (\<lambda>_. True) (code w) (ValueRootHandler db rw req w s)
    (spec_json req (\<lambda>b s. case unmarshal_Metrics b of (Some e, _) \<Rightarrow> Ret (400, s) | (None, m) \<Rightarrow> answer_value db json_status m s) s)"
proof -
  have run: "implements code ok id (\<lambda>_. True) (code w)
      (bind_outcome x (\<lambda>(r, s'). Ret (case r of Inl (c, e) \<Rightarrow> api_Error rw e c w
         | Inr v \<Rightarrow> (case marshal_Metrics (vh_metrics v) of
              Inl e \<Rightarrow> api_Error rw (NewRespError ''marshaling failed'' (Some e)) 500 w
            | Inr js \<Rightarrow> write_body rw js (rw_PutHeader rw h w)), s')))
      (bind_outcome x (\<lambda>(r, s'). Ret (case r of Inl (c, e) \<Rightarrow> c | Inr v \<Rightarrow> json_status v, s')))" for x h
    using assms by (cases x) (auto simp: implements_def json_status_def code_api_Error code_write_body split: sum.splits)
  show ?thesis
    unfolding ValueRootHandler_def answer_value_def
    by (rule json_answer [OF assms]) (auto intro: answers_unmarshaling run assms split: prod.splits option.splits)
qed

lemma answers_Root:
  assumes "ok w" and "page_writes tmpl"
  shows "implements code ok id (\<lambda>_. True) (code w) (CreateRootHandler tmpl db rw req w s) (answer_page tmpl db s)"
proof (cases "GetGaugeAll db s")
  case (Ret r)
  obtain g s1 where r: "r = (g, s1)" by (cases r)
  show ?thesis
  proof (cases "\<exists>gs r' cs s2. g = Inr gs \<and> GetCounterAll db s1 = Ret (Inr cs, s2)")
    case True
    then obtain gs cs s2 where "g = Inr gs" "GetCounterAll db s1 = Ret (Inr cs, s2)" by blast
    with Ret r show ?thesis
      using code_page [OF assms] by (auto simp: CreateRootHandler_def answer_page_def implements_def)
  next
    case False
    with Ret r show ?thesis
      using assms(1) by (cases g; cases "GetCounterAll db s1")
        (auto simp: CreateRootHandler_def answer_page_def implements_def code_api_Error split: sum.splits)
  qed
qed (simp_all add: CreateRootHandler_def answer_page_def implements_def)

end
lemma serves_answer:
  assumes "i = 0 \<longrightarrow> page_writes tmpl"
  shows "serves id (\<lambda>_. True) (mounted_handler tmpl db i :: ('z Conn, 's) Handler) (answer_endpoint tmpl db i)"
proof -
  have "implements conn_code ok id (\<lambda>_. True) (conn_code w) (mounted_handler tmpl db i rw req w s) (answer_endpoint tmpl db i req s)"
    if rw: "resp_writer rw conn_code ok" and ok: "ok w" for rw :: "'z Conn RespWriter" and ok w req and s :: 's
  proof -
    note a = resp_writer.answers_Root [OF rw ok] resp_writer.answers_Ping [OF rw ok] resp_writer.answers_ValueRoot [OF rw ok]
      resp_writer.answers_Value [OF rw ok] resp_writer.answers_UpdateRoot [OF rw ok] resp_writer.answers_UpdateBatch [OF rw ok]
      resp_writer.answers_update [OF rw ok]
    show ?thesis
      using assms a by (auto simp: mounted_handler_def answer_endpoint_def UpdateHandler_def path_metrics_def Let_def)
  qed
  then show ?thesis by (simp add: serves_def)
qed

section \<open>A store that may fail\<close>

text \<open>
  What may come of an abstract step: the step itself, or the failure \<open>bad\<close> and the old
  state, the new one, or the one with its gauges only.
\<close>

definition may_answer :: "'c \<Rightarrow> metrics_state \<Rightarrow> ('c \<times> metrics_state) outcome \<Rightarrow> ('c \<times> metrics_state) outcome \<Rightarrow> bool" where
  "may_answer bad st spec r \<longleftrightarrow> r = spec \<or>
     (\<exists>c st' x. spec = Ret (c, st') \<and> r = Ret (bad, x) \<and> x \<in> {st, (fst st', snd st), st'})"

text \<open>The abstract steps when there is a database to ping.\<close>

definition online_endpoint :: "page \<Rightarrow> nat \<Rightarrow> Request \<Rightarrow> metrics_state \<Rightarrow> (nat \<times> metrics_state) outcome" where
  "online_endpoint tmpl i req st = (if i = 3 then Ret (200, st) else spec_endpoint tmpl i req st)"

definition store_answers :: "('s \<Rightarrow> metrics_state) \<Rightarrow> ('s \<Rightarrow> bool) \<Rightarrow> 's \<Rightarrow> (nat \<times> 's) outcome \<Rightarrow> (nat \<times> metrics_state) outcome \<Rightarrow> bool" where
  "store_answers st good s r spec \<longleftrightarrow>
     may_answer 500 (st s) spec (map_outcome (apsnd st) r) \<and> (\<forall>c s'. r = Ret (c, s') \<longrightarrow> good s')"

lemma store_answers_intros:
  "good s \<Longrightarrow> store_answers st good s (Ret (c, s)) (Ret (c, st s))"
  "good s' \<Longrightarrow> st s' = x \<Longrightarrow> store_answers st good s (Ret (c, s')) (Ret (c, x))"
  "good s' \<Longrightarrow> st s' \<in> {st s, (fst x, snd (st s)), x} \<Longrightarrow> store_answers st good s (Ret (500, s')) (Ret (c, x))"
  "store_answers st good s (Panic p) (Panic p)"
  by (simp_all add: store_answers_def may_answer_def)

lemma store_answers_json:
  "good s \<Longrightarrow> (\<And>b. store_answers st good s (h b s) (f b (st s))) \<Longrightarrow>
   store_answers st good s (spec_json req h s) (spec_json req f (st s))"
  by (simp add: spec_json_def store_answers_intros)

context metrics_repo begin

lemma answers_updated:
  assumes "inv s"
  shows "store_answers (pair gauges counters) inv s (answer_update db m s) (spec_update m (pair gauges counters s))"
proof -
  have gauge: "store_answers (pair gauges counters) inv s
      (map_outcome (apfst fst) (bind_outcome (SetGauge db n v s) (\<lambda>(err, s'). Ret (case err of
         Some e \<Rightarrow> ((500, Some (f e)), s') | None \<Rightarrow> ((200, None), s')))))
      (Ret (200, fmupd n v (gauges s), counters s))" for n v and f :: "go_error \<Rightarrow> RespError"
  proof -
    obtain e s' where "SetGauge db n v s = Ret (e, s')" "inv s'" "counters s' = counters s"
      "gauges s' \<in> {gauges s, fmupd n v (gauges s)}" "e = None \<longrightarrow> gauges s' = fmupd n v (gauges s)"
      using set_gauge [OF assms, of n v] by blast
    then show ?thesis by (cases e) (auto simp: pair_def intro!: store_answers_intros)
  qed
  have counter: "store_answers (pair gauges counters) inv s
      (map_outcome (apfst fst) (bind_outcome (SetCounter db n v s) (\<lambda>(err, s'). Ret (case err of
         Some e \<Rightarrow> ((500, Some (f e)), s') | None \<Rightarrow> ((200, None), s')))))
      (Ret (200, gauges s, add_counter n v (counters s)))" for n v and f :: "go_error \<Rightarrow> RespError"
  proof -
    obtain e s' where "SetCounter db n v s = Ret (e, s')" "inv s'" "gauges s' = gauges s"
      "counters s' \<in> {counters s, add_counter n v (counters s)}" "e = None \<longrightarrow> counters s' = add_counter n v (counters s)"
      using set_counter [OF assms, of n v] by blast
    then show ?thesis by (cases e) (auto simp: pair_def intro!: store_answers_intros)
  qed
  show ?thesis
    using gauge counter assms store_answers_intros(1) [of inv s "pair gauges counters"]
    by (auto simp: answer_update_def updateMetrics_def update_gauge_def update_counter_def spec_update_def pair_def store_answers_intros
        split: sum.splits option.splits)
qed

lemma answers_stored:
  assumes "inv s"
  shows "store_answers (pair gauges counters) inv s (answer_batch db gm cm s)
    (if gm = fmempty \<and> cm = fmempty then Ret (400, pair gauges counters s)
     else Ret (200, (fmadd (gauges s) gm, add_counters cm (counters s))))"
proof -
  let ?x = "(fmadd (gauges s) gm, add_counters cm (counters s))"
  have "\<exists>e1 s1. store_gauges db gm s = Ret (e1, s1) \<and> inv s1 \<and> counters s1 = counters s \<and>
    gauges s1 \<in> {gauges s, fmadd (gauges s) gm} \<and> (e1 = None \<longrightarrow> gauges s1 = fmadd (gauges s) gm)"
    using set_gauge_all [OF assms, of gm] assms by (cases "gm = fmempty") (simp_all add: store_gauges_def)
  then obtain e1 s1 where s1: "store_gauges db gm s = Ret (e1, s1)" "inv s1" "counters s1 = counters s"
    "gauges s1 \<in> {gauges s, fmadd (gauges s) gm}" "e1 = None \<longrightarrow> gauges s1 = fmadd (gauges s) gm" by blast
  have "\<exists>e2 s2. store_counters db cm s1 = Ret (e2, s2) \<and> inv s2 \<and> gauges s2 = gauges s1 \<and>
    counters s2 \<in> {counters s, add_counters cm (counters s)} \<and> (e2 = None \<longrightarrow> counters s2 = add_counters cm (counters s))"
    using set_counter_all [OF s1(2), of cm] s1(2,3) by (cases "cm = fmempty") (simp_all add: store_counters_def)
  then obtain e2 s2 where s2: "store_counters db cm s1 = Ret (e2, s2)" "inv s2" "gauges s2 = gauges s1"
    "counters s2 \<in> {counters s, add_counters cm (counters s)}" "e2 = None \<longrightarrow> counters s2 = add_counters cm (counters s)" by blast
  show ?thesis
  proof (cases "gm = fmempty \<and> cm = fmempty")
    case False
    have run: "answer_batch db gm cm s = (if e1 \<noteq> None then Ret (500, s1) else Ret (if e2 = None then 200 else 500, s2))"
      using False s1(1) s2(1) by (auto simp: answer_batch_def)
    have "store_answers (pair gauges counters) inv s (Ret (500, s1)) (Ret (200, ?x))"
      using s1 by (intro store_answers_intros(3)) (auto simp: pair_def)
    moreover have "store_answers (pair gauges counters) inv s (Ret (500, s2)) (Ret (200, ?x))" if "e1 = None"
      using that s1 s2 by (intro store_answers_intros(3)) (auto simp: pair_def)
    moreover have "store_answers (pair gauges counters) inv s (Ret (200, s2)) (Ret (200, ?x))" if "e1 = None" "e2 = None"
      using that s1 s2 by (intro store_answers_intros(2)) (auto simp: pair_def)
    ultimately show ?thesis unfolding run if_not_P [OF False] by auto
  qed (use assms in \<open>simp add: answer_batch_def store_answers_intros\<close>)
qed

lemma answers_batch_json:
  assumes "inv s"
  shows "store_answers (pair gauges counters) inv s
    (case unmarshal_batch b of (Some e, _) \<Rightarrow> Ret (400, s)
     | (None, mm) \<Rightarrow> bind_outcome (collect_batch mm fmempty fmempty) (\<lambda>(gm, cm). answer_batch db gm cm s))
    (spec_batch_json b (pair gauges counters s))"
proof (cases "unmarshal_batch b")
  case (Pair err mm)
  show ?thesis
  proof (cases err)
    case None
    note b = Pair None
    show ?thesis
    proof (cases "\<exists>m \<in> set mm. usable m \<and> \<not> complete m")
      case True
      with b show ?thesis
        by (simp add: spec_batch_json_def spec_batch_def collect_batch_panics store_answers_intros)
    next
      case False
      with b have "\<forall>m \<in> set mm. (usable m \<longrightarrow> complete m) \<and> SValue m = []"
        using unmarshal_batch_SValue by blast
      from collect_batch_refines [OF this, of fmempty fmempty "gauges s" "counters s"]
      obtain gm cm where gc: "collect_batch mm fmempty fmempty = Ret (gm, cm)"
        "(fmadd (gauges s) gm, add_counters cm (counters s)) = foldl apply_record (gauges s, counters s) (filter usable mm)"
        "gm = fmempty \<and> cm = fmempty \<longleftrightarrow> filter usable mm = []"
        by auto
      have "spec_batch_json b (pair gauges counters s) = (if gm = fmempty \<and> cm = fmempty then Ret (400, pair gauges counters s)
          else Ret (200, (fmadd (gauges s) gm, add_counters cm (counters s))))"
        using b False unfolding gc(3) gc(2) spec_batch_json_def by (auto simp: spec_batch_def pair_def)
      with b gc(1) answers_stored [OF assms, of gm cm] show ?thesis by simp
    qed
  qed (use Pair assms in \<open>simp add: spec_batch_json_def store_answers_intros\<close>)
qed

text \<open>Queries never change the store.\<close>

lemma answers_queried:
  assumes "inv s"
  shows "store_answers (pair gauges counters) inv s (answer_value db found m s)
    (Ret (case spec_value m (pair gauges counters s) of Inl c \<Rightarrow> c | Inr x \<Rightarrow> found \<lparr>vh_metrics = x, vh_code = 200\<rparr>, pair gauges counters s))"
proof -
  obtain r s1 where g: "GetGauge db (ID m) s = Ret (r, s1)" "inv s1" "gauges s1 = gauges s" "counters s1 = counters s"
    "\<forall>v. r = Inr v \<longrightarrow> v = fmlookup (gauges s) (ID m)" using get_gauge [OF assms, of "ID m"] by blast
  obtain r2 s2 where c: "GetCounter db (ID m) s = Ret (r2, s2)" "inv s2" "gauges s2 = gauges s" "counters s2 = counters s"
    "\<forall>v. r2 = Inr v \<longrightarrow> v = fmlookup (counters s) (ID m)" using get_counter [OF assms, of "ID m"] by blast
  show ?thesis
    using g c assms
    by (cases r; cases r2)
      (auto simp: answer_value_def getVhData_def spec_value_def pair_def intro!: store_answers_intros split: option.splits)
qed

lemma answers_value_json:
  assumes "inv s"
  shows "store_answers (pair gauges counters) inv s
    (case unmarshal_Metrics b of (Some e, _) \<Rightarrow> Ret (400, s) | (None, m) \<Rightarrow> answer_value db json_status m s)
    (spec_value_json b (pair gauges counters s))"
proof (cases "unmarshal_Metrics b")
  case (Pair err m)
  have "(case spec_value m st of Inl c \<Rightarrow> c | Inr x \<Rightarrow> json_status \<lparr>vh_metrics = x, vh_code = 200\<rparr>) =
      (case spec_value m st of Inl c \<Rightarrow> c | Inr x \<Rightarrow> (case marshal_Metrics x of Inl e \<Rightarrow> 500 | Inr js \<Rightarrow> 200))" for st
    by (simp add: json_status_def split: sum.split)
  then show ?thesis
    using Pair answers_queried [OF assms, of json_status m] assms by (cases err) (simp_all add: spec_value_json_def store_answers_intros)
qed

lemma answers_pinged:
  "inv s \<Longrightarrow> store_answers (pair gauges counters) inv s (answer_ping db s) (Ret (200, pair gauges counters s))"
  using ping [of s] by (auto simp: answer_ping_def pair_def intro!: store_answers_intros)

lemma answers_shown:
  assumes "inv s"
  shows "store_answers (pair gauges counters) inv s (answer_page tmpl db s) (Ret (spec_page tmpl (pair gauges counters s), pair gauges counters s))"
proof -
  obtain g s1 where g: "GetGaugeAll db s = Ret (g, s1)" "inv s1" "gauges s1 = gauges s" "counters s1 = counters s"
    "\<forall>m. g = Inr m \<longrightarrow> m = gauges s" using get_gauge_all [OF assms] by blast
  obtain c s2 where c: "GetCounterAll db s1 = Ret (c, s2)" "inv s2" "gauges s2 = gauges s" "counters s2 = counters s"
    "\<forall>m. c = Inr m \<longrightarrow> m = counters s" using get_counter_all [OF g(2)] g(3,4) by metis
  show ?thesis using g c by (cases g; cases c) (auto simp: answer_page_def pair_def intro!: store_answers_intros)
qed

lemma answers_endpoint:
  assumes "inv s"
  shows "store_answers (pair gauges counters) inv s (answer_endpoint tmpl db i req s) (online_endpoint tmpl i req (pair gauges counters s))"
proof -
  note json = store_answers_json [where good = inv and st = "pair gauges counters", OF assms]
  have updated: "store_answers (pair gauges counters) inv s
    (case unmarshal_Metrics b of (Some e, _) \<Rightarrow> Ret (400, s) | (None, m) \<Rightarrow> answer_update db m s)
    (spec_update_json b (pair gauges counters s))" for b
    using answers_updated [OF assms] assms
    by (auto simp: spec_update_json_def store_answers_intros split: prod.splits option.splits)
  have queried: "store_answers (pair gauges counters) inv s (answer_value db (\<lambda>_. 200) m s)
    (Ret (case spec_value m (pair gauges counters s) of Inl c \<Rightarrow> c | Inr x \<Rightarrow> 200, pair gauges counters s))" for m
    using answers_queried [OF assms, of "\<lambda>_. 200"] .
  have "store_answers (pair gauges counters) inv s
      (spec_json req (\<lambda>b s. case unmarshal_Metrics b of (Some e, _) \<Rightarrow> Ret (400, s) | (None, m) \<Rightarrow> answer_update db m s) s)
      (spec_json req spec_update_json (pair gauges counters s))" by (rule json) (rule updated)
  moreover have "store_answers (pair gauges counters) inv s
      (spec_json req (\<lambda>b s. case unmarshal_batch b of (Some e, _) \<Rightarrow> Ret (400, s)
        | (None, mm) \<Rightarrow> bind_outcome (collect_batch mm fmempty fmempty) (\<lambda>(gm, cm). answer_batch db gm cm s)) s)
      (spec_json req spec_batch_json (pair gauges counters s))" by (rule json) (rule answers_batch_json [OF assms])
  moreover have "store_answers (pair gauges counters) inv s
      (spec_json req (\<lambda>b s. case unmarshal_Metrics b of (Some e, _) \<Rightarrow> Ret (400, s) | (None, m) \<Rightarrow> answer_value db json_status m s) s)
      (spec_json req spec_value_json (pair gauges counters s))" by (rule json) (rule answers_value_json [OF assms])
  ultimately show ?thesis
    using answers_shown [OF assms, of tmpl] answers_pinged [OF assms] queried answers_updated [OF assms, of "path_metrics req"]
    by (simp add: answer_endpoint_def online_endpoint_def spec_endpoint_def)
qed

end

text \<open>
  The two transactions of a batch are not one: with a counter at its largest value the update
  is answered with 500 and its gauges are stored.
\<close>

lemma batch_half_made:
  "case answer_batch (pgsql_db toy_pg) (fmupd ''x'' 1 fmempty) (fmupd ''c'' 1 fmempty)
      \<lparr>td_tables = (fmempty, fmupd ''c'' 0x7FFFFFFFFFFFFFFF fmempty), td_cur = NoTx, td_fail = 0\<rparr> of
     Ret (c, p) \<Rightarrow> c = 500 \<and> fmlookup (fst (td_tables p)) ''x'' = Some 1 \<and> fmlookup (snd (td_tables p)) ''c'' = Some 0x7FFFFFFFFFFFFFFF
   | _ \<Rightarrow> False"
  by code_simp

section \<open>The routes\<close>

text \<open>Admission only ever sends 500 before the handler runs, so the failure's status is the response's.\<close>

lemma map_outcome_eq_Ret: "map_outcome h x = Ret y \<longleftrightarrow> (\<exists>a. x = Ret a \<and> y = h a)"
  by (cases x) auto

lemma admit_sent: "admit lib key ck req = Ret (Inr (c0, req')) \<Longrightarrow> c0 = None \<or> c0 = Some 500"
proof -
  have dec: "c0 = None \<or> c0 = Some 500" if "decrypted cr k r = Ret (c0, r')" for cr :: "('pub, 'priv) Crypto" and k r r'
  proof (cases k)
    case (Some pk)
    with that show ?thesis
      by (cases "DecryptMsg cr pk (content (rBody r))") (auto simp: decrypted_def split: sum.splits)
  qed (use that in \<open>simp add: decrypted_def\<close>)
  assume "admit lib key ck req = Ret (Inr (c0, req'))"
  then obtain r where "decrypted (lib_crypto lib) ck r = Ret (c0, req')"
    by (auto simp: admit_def map_outcome_eq_Ret split: sum.splits)
  then show ?thesis by (rule dec)
qed

lemma may_answer_status:
  assumes "may_answer 500 st spec r" and "c0 = None \<or> c0 = Some 500"
  shows "may_answer (Some 500) st (status c0 spec) (status c0 r)"
  using assms by (auto simp: may_answer_def)

lemma map_outcome_status: "map_outcome (apsnd st) (status c0 r) = status c0 (map_outcome (apsnd st) r)"
  by (cases r) (auto simp: status_def apsnd_def apfst_def split: prod.splits)

lemma spec_route_answers:
  assumes "\<And>req. store_answers st good s (h req s) (f req (st s))"
  shows "may_answer (Some 500) (st s) (spec_route lib key ck f req (st s)) (map_outcome (apsnd st) (spec_route lib key ck h req s))"
proof (cases "admit lib key ck req")
  case (Ret r)
  show ?thesis
  proof (cases r)
    case (Inr cr)
    obtain c0 req' where cr: "cr = (c0, req')" by (cases cr)
    have "may_answer (Some 500) (st s) (status c0 (f req' (st s))) (status c0 (map_outcome (apsnd st) (h req' s)))"
      using assms [of req'] admit_sent [of lib key ck req c0 req'] Ret Inr cr by (intro may_answer_status) (simp_all add: store_answers_def)
    with Ret Inr cr show ?thesis by (simp add: spec_route_def map_outcome_status)
  qed (simp add: Ret spec_route_def may_answer_def)
qed (simp_all add: spec_route_def may_answer_def)

lemma spec_route_keeps:
  assumes "\<And>req c s'. h req s = Ret (c, s') \<Longrightarrow> good s'" and "good s" and "spec_route lib key ck h req s = Ret (c, s')"
  shows "good s'"
proof -
  have "good s''" if "status c0 (h req s) = Ret (c, s'')" for c0 req s''
    using that assms(1) by (auto simp: status_def map_outcome_eq_Ret)
  moreover obtain a where "admit lib key ck req = Ret a" using assms(3) by (auto simp: spec_route_def)
  ultimately show ?thesis using assms(2,3) by (cases a) (auto simp: spec_route_def)
qed

context metrics_repo begin

lemma routes_on:
  assumes "chi_laws chi" and "chi_Find chi (map fst (MountHandlers chi lib tmpl (NewInstance db key ck))) (Method req) path = Some (i, params)"
    and "i < 7" and "inv s" and "i = 0 \<longrightarrow> page_writes tmpl"
  shows "may_answer (Some 500) (pair gauges counters s)
      (mounted_route lib key ck i (online_endpoint tmpl i) (req\<lparr>URLParams := params\<rparr>) (pair gauges counters s))
      (view conn_code (pair gauges counters) (ServeHTTP chi lib tmpl (NewInstance db key ck) path req s))"
    and "ServeHTTP chi lib tmpl (NewInstance db key ck) path req s = Ret (w, s') \<Longrightarrow> inv s'"
proof -
  let ?r = "ServeHTTP chi lib tmpl (NewInstance db key ck) path req s" and ?req = "req\<lparr>URLParams := params\<rparr>"
  have run: "view conn_code id ?r = mounted_route lib key ck i (answer_endpoint tmpl db i) ?req s"
    using realises_mounted(1) [OF assms(1-3) TrueI serves_answer [OF assms(5)]] by simp
  have "view conn_code (pair gauges counters) ?r = map_outcome (apsnd (pair gauges counters)) (view conn_code id ?r)"
    by (cases ?r) (auto simp: view_def)
  with run spec_route_answers [of "pair gauges counters" inv s "answer_endpoint tmpl db i" "online_endpoint tmpl i" lib, OF answers_endpoint [OF assms(4)]]
  show "may_answer (Some 500) (pair gauges counters s)
      (mounted_route lib key ck i (online_endpoint tmpl i) ?req (pair gauges counters s)) (view conn_code (pair gauges counters) ?r)"
    by (simp add: mounted_route_def)
  assume r: "?r = Ret (w, s')"
  have "inv s'" if "spec_route lib k c (answer_endpoint tmpl db i) ?req s = Ret (x, s')" for k c x
    by (rule spec_route_keeps [where good = inv, OF _ assms(4) that]) (use answers_endpoint [OF assms(4)] in \<open>auto simp: store_answers_def\<close>)
  with run [symmetric] r show "inv s'" by (simp add: mounted_route_def split: if_splits)
qed

end

end
