(* ===== verification/Unreliable_Server.thy ===== *)
theory Unreliable_Server
  imports Unreliable_Store Server_Facts
begin

text \<open>
  The server on a store that may fail: its routes, and sessions of requests. An update that is
  answered with 200 is in the store; one answered with 500 may be.
\<close>

section \<open>The server's store\<close>

text \<open>The store behind the interface value, PostgreSQL or memory.\<close>

definition repo_good :: "('p \<Rightarrow> txst) \<Rightarrow> 'p + MemorySt \<Rightarrow> bool" where
  "repo_good cur s = (case s of Inl p \<Rightarrow> cur p = NoTx | Inr ms \<Rightarrow> mem_inv ms)"

definition repo_tables :: "('p \<Rightarrow> tables) \<Rightarrow> 'p + MemorySt \<Rightarrow> metrics_state" where
  "repo_tables tables s = (case s of Inl p \<Rightarrow> tables p | Inr ms \<Rightarrow> (mem_gauges ms, mem_counters ms))"

lemma repo_db_repo:
  assumes "pg_laws pg tables cur"
  shows "metrics_repo (repo_db pg) (repo_good cur) (\<lambda>s. fst (repo_tables tables s)) (\<lambda>s. snd (repo_tables tables s))"
proof -
  have "repo_good cur = case_sum (\<lambda>p. cur p = NoTx) mem_inv"
    "(\<lambda>s. fst (repo_tables tables s)) = case_sum (\<lambda>p. fst (tables p)) mem_gauges"
    "(\<lambda>s. snd (repo_tables tables s)) = case_sum (\<lambda>p. snd (tables p)) mem_counters"
    by (auto simp: fun_eq_iff repo_good_def repo_tables_def split: sum.split)
  then show ?thesis
    unfolding repo_db_def using dispatch_repo [OF pg_repo [OF assms] mem.metrics_repo_axioms] by simp
qed

lemma pair_tables: "pair (\<lambda>s. fst (repo_tables tables s)) (\<lambda>s. snd (repo_tables tables s)) = repo_tables tables"
  by (simp add: pair_def [abs_def])

text \<open>
  C5. The server on any database that keeps its documented laws, or in memory: every
  request for one of its routes is answered as the abstract server answers it, or, when the
  database fails, with 500 and the update made in full, not at all, or, of a batch, for its
  gauges only. So 200 is never sent for an update that was not made, nothing but the update
  asked for is ever made, and no transaction is left open.
\<close>

theorem failing_store_routes:
  assumes "pg_laws pg tables cur" and "chi_laws chi" and "repo_good cur s"
    and "chi_Find chi (map fst (MountHandlers chi lib tmpl (NewInstance (repo_db pg) key ck))) (Method req) path = Some (i, params)"
    and "i < 7" and "i = 0 \<longrightarrow> page_writes tmpl"
  shows "may_answer (Some 500) (repo_tables tables s)
      (mounted_route lib key ck i (online_endpoint tmpl i) (req\<lparr>URLParams := params\<rparr>) (repo_tables tables s))
      (view conn_code (repo_tables tables) (ServeHTTP chi lib tmpl (NewInstance (repo_db pg) key ck) path req s)) \<and>
    (\<forall>w s'. ServeHTTP chi lib tmpl (NewInstance (repo_db pg) key ck) path req s = Ret (w, s') \<longrightarrow> repo_good cur s')"
  using metrics_repo.routes_on [OF repo_db_repo [OF assms(1)] assms(2,4,5,3,6), unfolded pair_tables] by simp

text \<open>The commit fails twice with a serialization failure before it is made.\<close>

definition flaky :: "nat \<Rightarrow> Toy_db + MemorySt" where
  "flaky n = Inl \<lparr>td_tables = (fmempty, fmempty), td_cur = NoTx, td_fail = n\<rparr>"

lemma flaky_simps [simp]: "repo_good td_cur (flaky n)" "repo_tables td_tables (flaky n) = (fmempty, fmempty)"
  by (simp_all add: flaky_def repo_good_def repo_tables_def)

lemma seven_adds: "mounted_route toy_libs [] None 5 (online_endpoint None 5) add_seven st = Ret (Some 200, (fst st, add_counter ''c'' 7 (snd st)))"
  using seven_step [of "fst st" "snd st"] by (simp add: mounted_route_def online_endpoint_def [abs_def] spec_server_def)

theorem failing_store_routes_witness:
  "view conn_code (repo_tables td_tables)
      (ServeHTTP (toy_chi counter_params) toy_libs None (NewInstance (repo_db toy_pg) [] None) seven_path (path_request [] [] []) (flaky 2))
    \<in> {Ret (Some 200, (fmempty, add_counter ''c'' 7 fmempty)), Ret (Some 500, (fmempty, fmempty)), Ret (Some 500, (fmempty, add_counter ''c'' 7 fmempty))}"
proof -
  let ?chi = "toy_chi counter_params :: (unit, Toy_db + MemorySt) Chi"
  have "routed ?chi (seven_path, path_request [] [] []) (5, add_seven)" by (rule seven_routed)
  then obtain params where
    "chi_Find ?chi (map fst (MountHandlers ?chi toy_libs None (NewInstance (repo_db toy_pg) [] None)))
      (Method (path_request [] [] [])) seven_path = Some (5, params)" and "add_seven = (path_request [] [] [])\<lparr>URLParams := params\<rparr>"
    by (auto simp: routed_def mounted)
  note f = this
  from failing_store_routes [OF toy_pg_laws toy_chi_laws flaky_simps(1) f(1)]
  show ?thesis unfolding f(2) [symmetric] by (auto simp: may_answer_def seven_adds)
qed

section \<open>Sessions\<close>

text \<open>What a run of requests may answer, and the state it may leave.\<close>

inductive may_session :: "('z, 'pub, 'priv) Libs \<Rightarrow> page \<Rightarrow> string \<Rightarrow> 'priv option \<Rightarrow> (nat \<times> Request) list
    \<Rightarrow> metrics_state \<Rightarrow> nat option list \<Rightarrow> metrics_state \<Rightarrow> bool"
  for lib tmpl key ck where
  finished: "may_session lib tmpl key ck [] st [] st"
| answer: "may_answer (Some 500) st (mounted_route lib key ck i (online_endpoint tmpl i) req st) r \<Longrightarrow> answered st r = (c, st1) \<Longrightarrow>
    may_session lib tmpl key ck rs st1 cs st' \<Longrightarrow> may_session lib tmpl key ck ((i, req) # rs) st (c # cs) st'"

inductive_cases may_session_ConsE: "may_session lib tmpl key ck (ir # rs) st cs st'"
inductive_cases may_session_NilE: "may_session lib tmpl key ck [] st cs st'"

lemma mounted_route_runs: "mounted_route lib key ck i (online_endpoint tmpl i) req st \<noteq> Blocked"
  using admit_runs spec_endpoint_runs
  by (auto simp: mounted_route_def online_endpoint_def spec_route_def status_def split: sum.splits)

context metrics_repo begin

lemma serve_may_session:
  assumes "chi_laws chi" and "page_writes tmpl"
  shows "list_all2 (routed chi) reqs rs \<Longrightarrow> inv s \<Longrightarrow>
    \<exists>codes s'. serve_all chi lib tmpl (NewInstance db key ck) reqs s = Ret (codes, s') \<and> inv s' \<and>
      may_session lib tmpl key ck rs (pair gauges counters s) codes (pair gauges counters s')"
proof (induction reqs arbitrary: rs s)
  case Nil
  then show ?case by (auto intro: finished)
next
  case (Cons pr reqs)
  obtain path req where pr: "pr = (path, req)" by (cases pr)
  from Cons.prems(1) obtain ir rs' where rs: "rs = ir # rs'" "routed chi pr ir" "list_all2 (routed chi) reqs rs'"
    by (auto simp: list_all2_Cons1)
  obtain i req' where ir: "ir = (i, req')" by (cases ir)
  from rs(2) obtain params where f: "chi_Find chi route_table (Method req) path = Some (i, params)"
    and req': "req' = req\<lparr>URLParams := params\<rparr>" by (auto simp: routed_def pr ir)
  let ?serve = "ServeHTTP chi lib tmpl (NewInstance db key ck) path req s"
  note route = f [folded mounted [of chi lib tmpl "NewInstance db key ck"]]
  note ok = found_route [OF assms(1) route] Cons.prems(2)
  have may: "may_answer (Some 500) (pair gauges counters s)
      (mounted_route lib key ck i (online_endpoint tmpl i) req' (pair gauges counters s)) (view conn_code (pair gauges counters) ?serve)"
    using routes_on(1) [OF assms(1) route ok] assms(2) req' by simp
  have keep: "inv s1" if "?serve = Ret (w, s1)" for w s1
    by (rule routes_on(2) [OF assms(1) route ok _ that]) (use assms(2) in simp)
  obtain c s1 where s1: "recovered s ?serve = Ret (c, s1)" "inv s1"
    "answered (pair gauges counters s) (view conn_code (pair gauges counters) ?serve) = (c, pair gauges counters s1)"
  proof (cases ?serve)
    case (Ret ws)
    with keep that show ?thesis by (cases ws) (auto simp: recovered_def answered_def)
  next
    case (Panic p)
    with Cons.prems(2) that show ?thesis by (auto simp: recovered_def answered_def)
  next
    case Blocked
    with may have "mounted_route lib key ck i (online_endpoint tmpl i) req' (pair gauges counters s) = Blocked" by (auto simp: may_answer_def)
    with mounted_route_runs show ?thesis by blast
  qed
  from Cons.IH [OF rs(3) s1(2)] obtain codes s' where
    "serve_all chi lib tmpl (NewInstance db key ck) reqs s1 = Ret (codes, s')" "inv s'"
    "may_session lib tmpl key ck rs' (pair gauges counters s1) codes (pair gauges counters s')" by blast
  with s1 pr rs(1) ir answer [OF may s1(3)] show ?case by auto
qed

end

section \<open>Counting on a store that may fail\<close>

text \<open>A request that adds \<open>d\<close> to the counter \<open>n\<close>, whatever the store holds: by its path or as JSON.\<close>

definition adds :: "('z, 'pub, 'priv) Libs \<Rightarrow> page \<Rightarrow> string \<Rightarrow> 'priv option \<Rightarrow> string \<Rightarrow> nat \<times> Request \<Rightarrow> int64 \<Rightarrow> bool" where
  "adds lib tmpl key ck n ir d \<longleftrightarrow>
     (\<forall>st. mounted_route lib key ck (fst ir) (online_endpoint tmpl (fst ir)) (snd ir) st = Ret (Some 200, (fst st, add_counter n d (snd st))))"

text \<open>The updates that were made, one after the other.\<close>

definition made_state :: "string \<Rightarrow> int64 list \<Rightarrow> bool list \<Rightarrow> metrics_state \<Rightarrow> metrics_state" where
  "made_state n ds made st = (fst st, foldl (\<lambda>k d. add_counter n d k) (snd st) (map fst (filter snd (zip ds made))))"

lemma made_state_simps [simp]:
  "made_state n [] [] st = st"
  "made_state n (d # ds) (b # made) st = made_state n ds made (if b then (fst st, add_counter n d (snd st)) else st)"
  by (simp_all add: made_state_def)

text \<open>What a status tells of an update: 200 that it was made, 500 nothing.\<close>

definition tells :: "nat option \<Rightarrow> bool \<Rightarrow> bool" where
  "tells c b \<longleftrightarrow> c = Some 200 \<and> b \<or> c = Some 500"

lemma may_session_counted:
  "may_session lib tmpl key ck rs st cs st' \<Longrightarrow> list_all2 (adds lib tmpl key ck n) rs ds \<Longrightarrow>
   \<exists>made. list_all2 tells cs made \<and> length made = length ds \<and> st' = made_state n ds made st"
proof (induction rs arbitrary: st cs ds)
  case Nil
  then show ?case by (auto elim: may_session_NilE)
next
  case (Cons ir rs)
  obtain d ds' where ds: "ds = d # ds'" "adds lib tmpl key ck n ir d" "list_all2 (adds lib tmpl key ck n) rs ds'"
    using Cons.prems(2) by (auto simp: list_all2_Cons1)
  obtain i req where ir: "ir = (i, req)" by (cases ir)
  have spec: "mounted_route lib key ck i (online_endpoint tmpl i) req st = Ret (Some 200, (fst st, add_counter n d (snd st)))"
    using ds(2) unfolding adds_def ir fst_conv snd_conv by (rule spec)
  from Cons.prems(1) [unfolded ir] obtain c cs' st1 r where step: "cs = c # cs'" "answered st r = (c, st1)" "may_session lib tmpl key ck rs st1 cs' st'"
    and may: "may_answer (Some 500) st (Ret (Some 200, (fst st, add_counter n d (snd st)))) r"
    by (rule may_session_ConsE) (use spec in simp_all)
  obtain b where b: "tells c b" "st1 = (if b then (fst st, add_counter n d (snd st)) else st)"
    using may step(2) that [of True] that [of False] by (auto simp: may_answer_def answered_def tells_def)
  from Cons.IH [OF step(3) ds(3)] obtain made where
    "list_all2 tells cs' made" "length made = length ds'" "st' = made_state n ds' made st1" by blast
  with b step(1) ds(1) show ?case by (intro exI [of _ "b # made"]) auto
qed

text \<open>
  C6. No confirmed update is lost and none is made twice, whatever the database does: after
  any sequence of requests that add to a counter the store holds what it held before with the
  updates added that were answered with 200, and with some, each at most once, of those that
  were answered with 500. There are no other answers, and the gauges are as before.
\<close>

theorem confirmed_updates_counted:
  assumes "pg_laws pg tables cur" and "chi_laws chi" and "page_writes tmpl" and "repo_good cur s"
    and "list_all2 (routed chi) reqs rs" and "list_all2 (adds lib tmpl key ck n) rs ds"
  shows "\<exists>codes s' made. serve_all chi lib tmpl (NewInstance (repo_db pg) key ck) reqs s = Ret (codes, s') \<and> repo_good cur s' \<and>
    list_all2 tells codes made \<and> length made = length ds \<and> repo_tables tables s' = made_state n ds made (repo_tables tables s)"
  using metrics_repo.serve_may_session [OF repo_db_repo [OF assms(1)] assms(2,3,5,4), unfolded pair_tables]
    may_session_counted [OF _ assms(6)] by blast

text \<open>The first update is given up after four attempts to commit, the second is made at its second.\<close>

lemma flaky_session:
  "case serve_all (toy_chi counter_params) toy_libs None (NewInstance (repo_db toy_pg) [] None)
      [(seven_path, path_request [] [] []), (seven_path, path_request [] [] [])] (flaky 5) of
     Ret (codes, Inl p) \<Rightarrow> codes = [Some 500, Some 200] \<and> fmlookup (snd (td_tables p)) ''c'' = Some 7
   | _ \<Rightarrow> False"
  by code_simp

theorem confirmed_updates_counted_witness:
  "\<exists>s' made. serve_all (toy_chi counter_params) toy_libs None (NewInstance (repo_db toy_pg) [] None)
      [(seven_path, path_request [] [] []), (seven_path, path_request [] [] [])] (flaky 5) = Ret ([Some 500, Some 200], s') \<and>
    repo_good td_cur s' \<and> list_all2 tells [Some 500, Some 200] made \<and> length made = 2 \<and>
    repo_tables td_tables s' = made_state ''c'' [7, 7] made (fmempty, fmempty)"
proof -
  have "adds toy_libs None [] None ''c'' (5, add_seven) 7" by (simp add: adds_def seven_adds)
  with confirmed_updates_counted [OF toy_pg_laws toy_chi_laws [of counter_params] _ flaky_simps(1) [of 5], where rs = "[(5, add_seven), (5, add_seven)]" and ds = "[7, 7]" and n = "''c''"
      and tmpl = None and lib = toy_libs and key = "[]" and ck = None and reqs = "[(seven_path, path_request [] [] []), (seven_path, path_request [] [] [])]"]
  obtain codes s' made where run: "serve_all (toy_chi counter_params) toy_libs None (NewInstance (repo_db toy_pg) [] None)
      [(seven_path, path_request [] [] []), (seven_path, path_request [] [] [])] (flaky 5) = Ret (codes, s')"
    "repo_good td_cur s'" "list_all2 tells codes made" "length made = 2"
    "repo_tables td_tables s' = made_state ''c'' [7, 7] made (fmempty, fmempty)"
    by (auto simp: seven_routed page_writes_def numeral_2_eq_2 simp del: serve_all.simps)
  moreover from flaky_session [unfolded run(1)] have "codes = [Some 500, Some 200]" by (simp split: sum.splits)
  ultimately show ?thesis by blast
qed

end
