(* ===== verification/Handler_Tests.thy ===== *)
theory Handler_Tests
  imports Handlers_Facts
begin

text \<open>
  The examples and tests the repository keeps for its handlers
  (\<open>internal/monserv/handlers/handlers_example_test.go\<close>, \<open>handlers_test.go\<close>), run on
  the model. The requests the router answers itself (404 and 405 of chi) are left out, and so
  is the content type net/http guesses from a body.
\<close>

section \<open>Requests of the tests\<close>

definition NewRequest :: "string \<Rightarrow> bytes \<Rightarrow> Request" where
  "NewRequest meth body = \<lparr>Method = meth, URLParams = fmempty, rHeader = fmempty, rBody = NopCloser body\<rparr>"

text \<open>\<open>mocks.go\<close>; the URI of the request is an argument.\<close>

definition WrapWithChiCtx :: "string \<Rightarrow> Request \<Rightarrow> (string, string) fmap \<Rightarrow> Request" where
  "WrapWithChiCtx uri req params =
     req\<lparr>rHeader := (if uri = ''/update'' \<or> uri = ''/value'' then hdr_Add ''Content-Type'' ''application/json'' (rHeader req) else rHeader req),
         URLParams := params\<rparr>"

text \<open>The requests of the other theories are those of the tests.\<close>

lemma wrapped_requests:
  "WrapWithChiCtx uri (NewRequest ''POST'' []) (fmupd ''type'' t (fmupd ''name'' n (fmupd ''value'' v fmempty))) =
     (if uri = ''/update'' \<or> uri = ''/value'' then (path_request t n v)\<lparr>rHeader := hdr_Set ''Content-Type'' ''application/json'' fmempty\<rparr> else path_request t n v)"
  "uri = ''/update'' \<or> uri = ''/value'' \<Longrightarrow> WrapWithChiCtx uri (NewRequest ''POST'' b) fmempty = json_request b"
  by (simp_all add: WrapWithChiCtx_def NewRequest_def path_request_def json_request_def hdr_Add_def hdr_Set_def)

section \<open>Running a handler\<close>

record Recorded =
  rec_code :: "nat option"
  rec_type :: string
  rec_body :: bytes
  rec_gauges :: "float64 gomap"
  rec_counters :: "int64 gomap"

definition record_handler :: "(NetWriter, MemorySt) Handler \<Rightarrow> Request \<Rightarrow> float64 gomap \<Rightarrow> int64 gomap \<Rightarrow> Recorded option" where
  "record_handler h req g c =
     (case h net_writer req fresh_writer (put_counters c (put_gauges g Memory_Init)) of
        Ret (w, ms) \<Rightarrow> Some \<lparr>rec_code = net_code w,
          rec_type = (case n_sent w of None \<Rightarrow> [] | Some (_, h) \<Rightarrow> hdr_Get ''Content-Type'' h),
          rec_body = n_body w, rec_gauges = mem_gauges ms, rec_counters = mem_counters ms\<rparr>
      | _ \<Rightarrow> None)"

definition passes :: "nat \<Rightarrow> string \<Rightarrow> (Recorded \<Rightarrow> bool) \<Rightarrow> Recorded option \<Rightarrow> bool" where
  "passes code ct want r = (case r of None \<Rightarrow> False | Some x \<Rightarrow> rec_code x = Some code \<and> rec_type x = ct \<and> want x)"

abbreviation any_body :: "Recorded \<Rightarrow> bool" where
  "any_body \<equiv> \<lambda>_. True"

abbreviation poll_count :: "int64 \<Rightarrow> Recorded \<Rightarrow> bool" where
  "poll_count v \<equiv> \<lambda>x. fmlookup (rec_counters x) ''PollCount'' = Some v"

text \<open>The JSON texts of the tests, with a backquote for the quote.\<close>

definition json_text :: "string \<Rightarrow> bytes" where
  "json_text s = map (\<lambda>ch. if ch = CHR 0x60 then CHR 0x22 else ch) s"

abbreviation update_path :: "string \<Rightarrow> string \<Rightarrow> string \<Rightarrow> int64 gomap \<Rightarrow> Recorded option" where
  "update_path t n v c \<equiv> record_handler (UpdateHandler memory_db) (path_request t n v) fmempty c"

abbreviation update_json :: "string \<Rightarrow> int64 gomap \<Rightarrow> Recorded option" where
  "update_json s c \<equiv> record_handler (UpdateRootHandler memory_db) (json_request (json_text s)) fmempty c"

abbreviation value_path :: "string \<Rightarrow> string \<Rightarrow> float64 gomap \<Rightarrow> int64 gomap \<Rightarrow> Recorded option" where
  "value_path t n g c \<equiv> record_handler (ValueHandler memory_db) (path_request t n []) g c"

abbreviation value_json :: "string \<Rightarrow> float64 gomap \<Rightarrow> int64 gomap \<Rightarrow> Recorded option" where
  "value_json s g c \<equiv> record_handler (ValueRootHandler memory_db) (json_request (json_text s)) g c"

abbreviation PollCount :: string where
  "PollCount \<equiv> ''PollCount''"

section \<open>Tests\<close>

lemma test_UpdateHandler:
  "passes 200 [] (poll_count 1) (update_path ''counter'' PollCount ''1'' fmempty)"
  "passes 200 [] (poll_count 77) (update_path ''counter'' PollCount ''21'' (fmupd PollCount 56 fmempty))"
  "passes 404 ''text/plain; charset=utf-8'' any_body (update_path ''counter'' [] ''1'' fmempty)"
  "passes 400 ''text/plain; charset=utf-8'' any_body (update_path ''counter'' PollCount ''value'' fmempty)"
  "passes 400 ''text/plain; charset=utf-8'' any_body (update_path ''type'' PollCount ''value'' fmempty)"
  by code_simp+

lemma test_UpdateRootHandler:
  "passes 200 [] (poll_count 99) (update_json ''{`id`:`PollCount`,`type`:`counter`,`delta`:99}'' fmempty)"
  "passes 200 [] (poll_count 151) (update_json ''{`id`:`PollCount`,`type`:`counter`,`delta`:50}'' (fmupd PollCount 101 fmempty))"
  "passes 404 ''text/plain; charset=utf-8'' any_body (update_json ''{`id`:``,`type`:`counter`,`delta`:50}'' fmempty)"
  by code_simp+

lemma test_UpdateRootHandler_rejects:
  "passes 400 ''text/plain; charset=utf-8'' any_body (update_json ''{`id`:`PollCount`,`type`:`counter`,`value`:`one`}'' fmempty)"
  "passes 400 ''text/plain; charset=utf-8'' any_body (update_json ''{`id`:`PollCount`,`type`:`sometype`,`value`:1}'' fmempty)"
  by code_simp+

lemma test_ValueHandler:
  "passes 200 [] (\<lambda>x. rec_body x = ''2'') (value_path ''counter'' PollCount fmempty (fmupd PollCount 2 fmempty))"
  "passes 400 ''text/plain; charset=utf-8'' any_body (value_path ''gaug'' ''TotalAlloc'' fmempty fmempty)"
  "passes 404 ''text/plain; charset=utf-8'' any_body (value_path ''gauge'' ''TotalAlloc'' fmempty fmempty)"
  "passes 404 ''text/plain; charset=utf-8'' any_body (value_path ''gauge'' [] fmempty fmempty)"
  by code_simp+

lemma test_ValueRootHandler:
  "passes 200 ''application/json; charset=utf-8'' (\<lambda>x. rec_body x = json_text ''{`id`:`PollCount`,`type`:`counter`,`delta`:64}'') (value_json ''{`id`:`PollCount`,`type`:`counter`}'' fmempty (fmupd PollCount 64 fmempty))"
  "passes 404 ''text/plain; charset=utf-8'' any_body (value_json ''{`id`:``,`type`:`counter`}'' fmempty fmempty)"
  "passes 404 ''text/plain; charset=utf-8'' any_body (value_json ''{`id`:`PollCoutn`,`type`:`counter`}'' fmempty fmempty)"
  "passes 400 ''text/plain; charset=utf-8'' any_body (value_json ''{`id`:`PollCount`,`type`:`sometype`}'' fmempty fmempty)"
  by code_simp+

text \<open>The root page: a template that writes, and one that did not parse.\<close>

lemma test_CreateRootHandler:
  "passes 200 ''text/html; charset=utf-8'' any_body
    (record_handler (CreateRootHandler (Some (\<lambda>g c. ([''<p>PollCount</p>''], None))) memory_db) (NewRequest ''GET'' []) fmempty (fmupd PollCount 1 fmempty))"
  "passes 500 ''text/plain; charset=utf-8'' any_body (record_handler (CreateRootHandler None memory_db) (NewRequest ''GET'' []) (fmupd ''Alloc'' 0x409018013A92A305 fmempty) fmempty)"
  by code_simp+

end
