(* ===== verification/Config_Facts.thy ===== *)
theory Config_Facts
  imports Config
begin

text \<open>
  Which of its sources a setting comes from, for both programs, and the agent's address
  pattern against the regular expression of the source.
\<close>

section \<open>The address pattern\<close>

text \<open>What the parts of \<open>.+(\w+|\w+\.\w+):{1}\d+\<close> match.\<close>

definition re_class :: "(char \<Rightarrow> bool) \<Rightarrow> bytes set" where
  "re_class P = {s. s \<noteq> [] \<and> list_all P s}"

definition re_cat :: "bytes set \<Rightarrow> bytes set \<Rightarrow> bytes set" where
  "re_cat A B = {a @ b | a b. a \<in> A \<and> b \<in> B}"

definition addr_regex :: "bytes set" where
  "addr_regex =
     re_cat (re_class (\<lambda>c. c \<noteq> CHR 0x0A))
       (re_cat (re_class word_char \<union> re_cat (re_class word_char) (re_cat {''.''} (re_class word_char)))
         (re_cat {'':''} (re_class is_digit)))"

lemma re_catI: "a \<in> A \<Longrightarrow> b \<in> B \<Longrightarrow> a @ b \<in> re_cat A B"
  by (auto simp: re_cat_def)

lemma re_catE:
  assumes "s \<in> re_cat A B"
  obtains a b where "s = a @ b" "a \<in> A" "b \<in> B"
  using assms by (auto simp: re_cat_def)

lemma word_not_newline: "word_char c \<Longrightarrow> c \<noteq> CHR 0x0A"
proof -
  have "\<not> word_char CHR 0x0A" by code_simp
  then show "word_char c \<Longrightarrow> c \<noteq> CHR 0x0A" by auto
qed

lemma word_class: "y \<in> re_class word_char \<Longrightarrow> y \<noteq> [] \<and> word_char (last y) \<and> CHR 0x0A \<notin> set y"
  using word_not_newline last_in_set by (auto simp: re_class_def list_all_iff)

lemma host_class:
  assumes "y \<in> re_class word_char \<union> re_cat (re_class word_char) (re_cat {''.''} (re_class word_char))"
  shows "y \<noteq> [] \<and> word_char (last y) \<and> CHR 0x0A \<notin> set y"
proof -
  have "y \<in> re_class word_char \<or> (\<exists>u v. y = u @ ''.'' @ v \<and> u \<in> re_class word_char \<and> v \<in> re_class word_char)"
    using assms by (elim UnE re_catE) auto
  then show ?thesis
  proof (elim disjE exE conjE)
    fix u v
    assume "y = u @ ''.'' @ v" "u \<in> re_class word_char" "v \<in> re_class word_char"
    with word_class [of u] word_class [of v] show ?thesis by simp
  qed (rule word_class)
qed

lemma addr_matched_append: "addr_matched s \<Longrightarrow> addr_matched (p @ s)"
proof (induction p)
  case (Cons x p)
  then have m: "addr_matched (p @ s)" by simp
  then obtain w c d t where "p @ s = w # c # d # t" by (cases "p @ s" rule: addr_matched.cases) auto
  with m show ?case by simp
qed simp

lemma addr_matched_iff:
  "addr_matched s \<longleftrightarrow> (\<exists>pre a w d post. s = pre @ [a, w, CHR '':'', d] @ post \<and> a \<noteq> CHR 0x0A \<and> word_char w \<and> is_digit d)"
proof
  show "addr_matched s \<Longrightarrow> \<exists>pre a w d post. s = pre @ [a, w, CHR '':'', d] @ post \<and> a \<noteq> CHR 0x0A \<and> word_char w \<and> is_digit d"
  proof (induction s rule: addr_matched.induct)
    case (1 a w c d s)
    then consider "a \<noteq> CHR 0x0A \<and> word_char w \<and> c = CHR '':'' \<and> is_digit d" | "addr_matched (w # c # d # s)" by auto
    then show ?case
    proof cases
      case 1
      then show ?thesis by (intro exI [of _ "[]"]) auto
    next
      case 2
      with "1.IH" obtain pre a' w' d' post where
        "w # c # d # s = pre @ [a', w', CHR '':'', d'] @ post" "a' \<noteq> CHR 0x0A" "word_char w'" "is_digit d'" by blast
      then show ?thesis by (intro exI [of _ "a # pre"]) auto
    qed
  qed simp_all
next
  assume "\<exists>pre a w d post. s = pre @ [a, w, CHR '':'', d] @ post \<and> a \<noteq> CHR 0x0A \<and> word_char w \<and> is_digit d"
  then obtain pre a w d post where "s = pre @ [a, w, CHR '':'', d] @ post" "a \<noteq> CHR 0x0A" "word_char w" "is_digit d" by blast
  then show "addr_matched s" using addr_matched_append [of "[a, w, CHR '':'', d] @ post" pre] by simp
qed

text \<open>A match of the expression anywhere in the text, as \<open>regexp.MatchString\<close> looks for it.\<close>

lemma addr_matched_regex: "addr_matched s \<longleftrightarrow> (\<exists>pre m post. s = pre @ m @ post \<and> m \<in> addr_regex)"
proof
  assume "addr_matched s"
  then obtain pre a w d post where s: "s = pre @ ([a] @ [w] @ '':'' @ [d]) @ post" "a \<noteq> CHR 0x0A" "word_char w" "is_digit d"
    by (auto simp: addr_matched_iff)
  then have "[a] @ [w] @ '':'' @ [d] \<in> addr_regex"
    unfolding addr_regex_def by (intro re_catI UnI1) (simp_all add: re_class_def)
  with s(1) show "\<exists>pre m post. s = pre @ m @ post \<and> m \<in> addr_regex" by blast
next
  assume "\<exists>pre m post. s = pre @ m @ post \<and> m \<in> addr_regex"
  then obtain pre m post where s: "s = pre @ m @ post" and "m \<in> addr_regex" by blast
  then obtain x y z where m: "m = x @ y @ '':'' @ z" and x: "x \<in> re_class (\<lambda>c. c \<noteq> CHR 0x0A)"
    and "y \<in> re_class word_char \<union> re_cat (re_class word_char) (re_cat {''.''} (re_class word_char))" and z: "z \<in> re_class is_digit"
    unfolding addr_regex_def by (elim re_catE singletonE) blast
  note y = host_class [OF this(3)]
  obtain y' w where yw: "y = y' @ [w]" using y by (cases y rule: rev_cases) auto
  obtain x' a where xa: "x @ y' = x' @ [a]" using x by (cases "x @ y'" rule: rev_cases) (auto simp: re_class_def)
  obtain d z' where zd: "z = d # z'" using z by (cases z) (auto simp: re_class_def)
  have "a \<in> set (x @ y')" by (simp add: xa)
  then have a: "a \<noteq> CHR 0x0A" using x y yw by (auto simp: re_class_def list_all_iff)
  have "s = pre @ (x @ y') @ [w, CHR '':'', d] @ z' @ post" by (simp add: s m yw zd)
  then have "s = (pre @ x') @ [a, w, CHR '':'', d] @ z' @ post" by (simp add: xa)
  moreover have "word_char w" "is_digit d" using y yw z zd by (simp_all add: re_class_def)
  ultimately show "addr_matched s" unfolding addr_matched_iff using a by blast
qed

section \<open>Where a setting comes from\<close>

definition last_value :: "setting list \<Rightarrow> string \<Rightarrow> string option" where
  "last_value ts n = map_of (rev (map (\<lambda>t. (set_name t, set_value t)) ts)) n"

text \<open>The environment, else the last flag, else the configuration file or the built-in value.\<close>

definition chosen :: "(string \<Rightarrow> 'a option) \<Rightarrow> (string \<Rightarrow> 'a) \<Rightarrow> string option \<Rightarrow> setting list \<Rightarrow> string \<Rightarrow> 'a \<Rightarrow> 'a" where
  "chosen fromEnv fromFlag e ts n d =
     (case Option.bind e fromEnv of
        Some v \<Rightarrow> v
      | None \<Rightarrow> (case last_value ts n of Some v \<Rightarrow> fromFlag v | None \<Rightarrow> d))"

definition str_env :: "string \<Rightarrow> string option" where
  "str_env v = (if v = [] then None else Some v)"

definition uint_env :: "string \<Rightarrow> 64 word option" where
  "uint_env v = (if v = [] then None else case Atoi v of Inl e \<Rightarrow> None | Inr i \<Rightarrow> Some i)"

definition bool_env :: "string \<Rightarrow> bool option" where
  "bool_env v = (case ParseBool v of Inl e \<Rightarrow> None | Inr b \<Rightarrow> Some b)"

definition uint_flag :: "string \<Rightarrow> 64 word" where
  "uint_flag v = (case ParseUint0 v of Inl e \<Rightarrow> 0 | Inr n \<Rightarrow> of_nat n)"

definition bool_flag :: "string \<Rightarrow> bool" where
  "bool_flag v = (case ParseBool v of Inl e \<Rightarrow> False | Inr b \<Rightarrow> b)"

lemma SetEnv_chosen:
  "SetEnvStr env e (case last_value ts n of Some v \<Rightarrow> f v | None \<Rightarrow> d) = chosen str_env f (env e) ts n d"
  "SetEnvUint env e (case last_value ts n of Some v \<Rightarrow> g v | None \<Rightarrow> u) = chosen uint_env g (env e) ts n u"
  "SetEnvBool env e (case last_value ts n of Some v \<Rightarrow> h v | None \<Rightarrow> b) = chosen bool_env h (env e) ts n b"
  by (auto simp: SetEnvStr_def SetEnvUint_def SetEnvBool_def Getenv_def chosen_def str_env_def uint_env_def bool_env_def Let_def
      split: option.splits sum.splits)

lemma server_formal_at:
  "server_formal ''a'' = Some (StringFlag (\<lambda>v c. c\<lparr>sf_Addr := v\<rparr>))"
  "server_formal ''d'' = Some (StringFlag (\<lambda>v c. c\<lparr>sf_DBConnStr := v\<rparr>))"
  "server_formal ''m'' = Some (StringFlag (\<lambda>v c. c\<lparr>sf_Mode := v\<rparr>))"
  "server_formal ''k'' = Some (StringFlag (\<lambda>v c. c\<lparr>sf_Key := v\<rparr>))"
  "server_formal ''crypto-key'' = Some (StringFlag (\<lambda>v c. c\<lparr>sf_PrivateKeyPath := v\<rparr>))"
  "server_formal ''f'' = Some (StringFlag (\<lambda>v c. c\<lparr>sf_Path := v\<rparr>))"
  "server_formal ''i'' = Some (UintFlag (\<lambda>v c. c\<lparr>sf_StoreInterval := v\<rparr>))"
  "server_formal ''r'' = Some (BoolFlag (\<lambda>v c. c\<lparr>sf_Restore := v\<rparr>))"
  by (simp_all add: server_formal_def)

lemma server_formal_names:
  "server_formal n = Some fl \<Longrightarrow> n \<in> {''a'', ''d'', ''m'', ''k'', ''crypto-key'', ''f'', ''i'', ''r''}"
proof -
  assume "server_formal n = Some fl"
  then have "n \<in> dom server_formal" by blast
  also have "dom server_formal = {''a'', ''d'', ''m'', ''k'', ''crypto-key'', ''f'', ''i'', ''r''}"
    unfolding server_formal_def dom_map_of_conv_image_fst by simp
  finally show ?thesis .
qed

lemma flag_set_the:
  "flag_set (UintFlag f) v c \<noteq> None \<Longrightarrow> the (flag_set (UintFlag f) v c) = f (uint_flag v) c"
  "flag_set (BoolFlag g) v c \<noteq> None \<Longrightarrow> the (flag_set (BoolFlag g) v c) = g (bool_flag v) c"
  by (auto simp: uint_flag_def bool_flag_def split: sum.splits)

lemma server_setting:
  assumes "setting_ok server_formal t"
  shows "set_name t \<in> {''a'', ''d'', ''m'', ''k'', ''crypto-key'', ''f'', ''i'', ''r''} \<and>
    flag_set (the (server_formal (set_name t))) (set_value t) c \<noteq> None"
proof -
  have "server_formal (set_name t) \<noteq> None" "flag_set (the (server_formal (set_name t))) (set_value t) c \<noteq> None"
    using assms by (auto simp: setting_ok_def split: option.splits)
  then show ?thesis using server_formal_names by blast
qed

lemma put_server:
  assumes "setting_ok server_formal t"
  shows "sf_Addr (put_setting server_formal c t) = (if set_name t = ''a'' then id (set_value t) else sf_Addr c)"
    and "sf_DBConnStr (put_setting server_formal c t) = (if set_name t = ''d'' then id (set_value t) else sf_DBConnStr c)"
    and "sf_Mode (put_setting server_formal c t) = (if set_name t = ''m'' then id (set_value t) else sf_Mode c)"
    and "sf_Path (put_setting server_formal c t) = (if set_name t = ''f'' then id (set_value t) else sf_Path c)"
    and "sf_Key (put_setting server_formal c t) = (if set_name t = ''k'' then id (set_value t) else sf_Key c)"
    and "sf_PrivateKeyPath (put_setting server_formal c t) = (if set_name t = ''crypto-key'' then id (set_value t) else sf_PrivateKeyPath c)"
    and "sf_StoreInterval (put_setting server_formal c t) = (if set_name t = ''i'' then uint_flag (set_value t) else sf_StoreInterval c)"
    and "sf_Restore (put_setting server_formal c t) = (if set_name t = ''r'' then bool_flag (set_value t) else sf_Restore c)"
  using server_setting [OF assms, of c]
  by (elim conjE insertE emptyE; simp add: server_formal_at put_setting_def flag_set_the del: flag_set.simps(2,3) not_None_eq)+

text \<open>
  C18. With a well-formed command line the server runs on exactly these settings: for each one
  the environment variable if it is set (and, for a number or a bool, can be read), else the
  last flag that names it, else the configuration file, else the built-in value; independently
  of the order of the flags of different names and of the others' values.
\<close>

theorem server_config_precedence:
  assumes "list_all (setting_ok server_formal) ts" and "read_config server_field stat defSrvOpts = Ret config"
  shows "server_config stat (concat (map setting_args ts)) env = Ret (Inr
    \<lparr>sf_Addr = chosen str_env id (env ''ADDRESS'') ts ''a'' (sf_Addr config),
     sf_DBConnStr = chosen str_env id (env ''DATABASE_DSN'') ts ''d'' (sf_DBConnStr config),
     sf_Mode = chosen str_env id (env ''MODE'') ts ''m'' (sf_Mode config),
     sf_Path = chosen str_env id (env ''FILE_STORAGE_PATH'') ts ''f'' (sf_Path config),
     sf_Key = chosen str_env id (env ''KEY'') ts ''k'' (sf_Key config),
     sf_PrivateKeyPath = chosen str_env id (env ''CRYPTO_KEY'') ts ''crypto-key'' (sf_PrivateKeyPath config),
     sf_StoreInterval = chosen uint_env uint_flag (env ''STORE_INTERVAL'') ts ''i'' (sf_StoreInterval config),
     sf_Restore = chosen bool_env bool_flag (env ''RESTORE'') ts ''r'' (sf_Restore config)\<rparr>)"
proof -
  have ok: "setting_ok server_formal t" if "t \<in> set ts" for t using assms(1) that by (simp add: list_all_iff)
  note last = last_setting [where formal = server_formal and ts = ts, folded last_value_def]
  let ?c = "foldl (put_setting server_formal) config ts"
  have final: "sf_Addr ?c = (case last_value ts ''a'' of Some v \<Rightarrow> id v | None \<Rightarrow> sf_Addr config)"
    "sf_DBConnStr ?c = (case last_value ts ''d'' of Some v \<Rightarrow> id v | None \<Rightarrow> sf_DBConnStr config)"
    "sf_Mode ?c = (case last_value ts ''m'' of Some v \<Rightarrow> id v | None \<Rightarrow> sf_Mode config)"
    "sf_Path ?c = (case last_value ts ''f'' of Some v \<Rightarrow> id v | None \<Rightarrow> sf_Path config)"
    "sf_Key ?c = (case last_value ts ''k'' of Some v \<Rightarrow> id v | None \<Rightarrow> sf_Key config)"
    "sf_PrivateKeyPath ?c = (case last_value ts ''crypto-key'' of Some v \<Rightarrow> id v | None \<Rightarrow> sf_PrivateKeyPath config)"
    "sf_StoreInterval ?c = (case last_value ts ''i'' of Some v \<Rightarrow> uint_flag v | None \<Rightarrow> sf_StoreInterval config)"
    "sf_Restore ?c = (case last_value ts ''r'' of Some v \<Rightarrow> bool_flag v | None \<Rightarrow> sf_Restore config)"
    by (rule last; use put_server [OF ok] in blast)+
  show ?thesis
    using assms(2) by (simp add: server_config_def parse_settings [OF assms(1)] server_setEnv_def final SetEnv_chosen)
qed

theorem server_config_precedence_witness:
  "server_config (ConfigFile (''{'' @ json_quote ''Mode'' @ '':'' @ json_quote ''prod'' @ '','' @ json_quote ''store_interval'' @ '':7}''))
     [''-a'', ''x:1'', ''--r=true'', ''-a=y:2''] [''KEY'' \<mapsto> ''secret'', ''STORE_INTERVAL'' \<mapsto> ''-1''] = Ret (Inr
    \<lparr>sf_Addr = ''y:2'', sf_DBConnStr = [], sf_Mode = ''prod'', sf_Path = ''./backup.json'', sf_Key = ''secret'', sf_PrivateKeyPath = [],
     sf_StoreInterval = 18446744073709551615, sf_Restore = True\<rparr>)"
proof -
  let ?ts = "[\<lparr>set_double = False, set_name = ''a'', set_value = ''x:1'', set_joined = False\<rparr>,
    \<lparr>set_double = True, set_name = ''r'', set_value = ''true'', set_joined = True\<rparr>,
    \<lparr>set_double = False, set_name = ''a'', set_value = ''y:2'', set_joined = True\<rparr>]"
  have "ParseBool ''true'' = Inr True" "Atoi ''-1'' = Inr (- 1)" by code_simp+
  moreover have "list_all (setting_ok server_formal) ?ts"
    by (simp add: setting_ok_def flag_name_def server_formal_at ParseBool_def)
  moreover have "read_config server_field (ConfigFile (''{'' @ json_quote ''Mode'' @ '':'' @ json_quote ''prod'' @ '','' @ json_quote ''store_interval'' @ '':7}''))
      defSrvOpts = Ret (defSrvOpts\<lparr>sf_Mode := ''prod'', sf_StoreInterval := 7\<rparr>)"
    by code_simp
  ultimately show ?thesis
    using server_config_precedence [of ?ts _ _ "[''KEY'' \<mapsto> ''secret'', ''STORE_INTERVAL'' \<mapsto> ''-1'']"]
    by (simp add: setting_args_def chosen_def last_value_def str_env_def uint_env_def bool_env_def bool_flag_def defSrvOpts_def)
qed

text \<open>
  The agent's address never comes from its configuration file: without \<open>-a\<close> and
  \<open>ADDRESS\<close> it is the built-in one. The file's address only replaces a bad value of \<open>-a\<close>.
\<close>

lemma agent_ignores_file_address:
  "agent_config stat [] (\<lambda>_. None) = Ret (Inr c) \<Longrightarrow> af_Addr c = ''http://localhost:8080''"
  by (cases "read_config agent_field stat defOpts")
    (auto simp: agent_config_def agent_setEnv_def defOpts_def)

text \<open>A configuration file whose \<open>Stat\<close> fails otherwise than by its absence ends both programs.\<close>

lemma stat_failure_panics:
  "\<exists>p. server_config StatFailed args env = Panic p \<and> agent_config StatFailed args env = Panic p"
  by (simp add: server_config_def agent_config_def read_config_def)

end
