(* ===== verification/Go_Float_Arith.thy ===== *)
theory Go_Float_Arith
  imports Go_Float_Facts
begin

text \<open>
  The \<open>float64\<close> operations of the language the program uses: conversion of an unsigned
  integer, multiplication and addition, each the exact result rounded to nearest even.
  \<open>finite_round\<close> bounds the results that stay finite.
\<close>

section \<open>Operations\<close>

definition f64_round :: "bool \<Rightarrow> nat \<times> nat \<Rightarrow> float64" where
  "f64_round neg q = f64_make neg (min mag_inf (round_mag q))"

definition f64_of_uint :: "nat \<Rightarrow> float64" where
  "f64_of_uint n = f64_round False (n, 1)"

definition f64_mul :: "float64 \<Rightarrow> float64 \<Rightarrow> float64" where
  "f64_mul a b =
     (if is_nan a \<or> is_nan b then f64_nan
      else let neg = (f64_neg a \<noteq> f64_neg b)
           in if is_inf a \<or> is_inf b
              then (if f64_mag a = 0 \<or> f64_mag b = 0 then f64_nan else f64_make neg mag_inf)
              else case (mag_value (f64_mag a), mag_value (f64_mag b)) of
                     ((n1, d1), (n2, d2)) \<Rightarrow> f64_round neg (n1 * n2, d1 * d2))"

definition signed_num :: "float64 \<Rightarrow> int" where
  "signed_num a = (if f64_neg a then - int (fst (mag_value (f64_mag a))) else int (fst (mag_value (f64_mag a))))"

definition f64_add :: "float64 \<Rightarrow> float64 \<Rightarrow> float64" where
  "f64_add a b =
     (if is_nan a \<or> is_nan b then f64_nan
      else if is_inf a then (if is_inf b \<and> f64_neg a \<noteq> f64_neg b then f64_nan else a)
      else if is_inf b then b
      else let d1 = snd (mag_value (f64_mag a)); d2 = snd (mag_value (f64_mag b));
               x = signed_num a * int d2 + signed_num b * int d1
           in if x = 0 then (if f64_neg a \<and> f64_neg b then f64_make True 0 else 0)
              else f64_round (x < 0) (nat \<bar>x\<bar>, d1 * d2))"

section \<open>Bounds\<close>

lemma f64_make_sel:
  assumes "b < 2 ^ 63"
  shows "f64_mag (f64_make neg b) = b" "f64_neg (f64_make neg b) = neg"
proof -
  have "unat (f64_make neg b) = (if neg then 2 ^ 63 + b else b)"
    using assms by (simp add: f64_make_def unsigned_of_nat take_bit_nat_eq_self)
  then show "f64_mag (f64_make neg b) = b" "f64_neg (f64_make neg b) = neg"
    using assms by (simp_all add: f64_mag_def f64_neg_def mod_add_self1)
qed

lemma mag_inf_less: "mag_inf < 2 ^ 63"
  by (simp add: mag_inf_def)

lemma round_half_even_le: "0 < snd q \<Longrightarrow> val q < real m \<Longrightarrow> round_half_even q \<le> m"
proof -
  assume q: "0 < snd q" "val q < real m"
  have "0 \<le> val q" by (simp add: val_def)
  then have "nat \<lfloor>val q\<rfloor> < m" using q(2) by linarith
  then show ?thesis using q(1) by (simp add: round_half_even_val Let_def)
qed

lemma finite_round:
  assumes "0 < snd q" and "val q < 2 powi k" and "0 \<le> k" and "k \<le> 900"
  shows "round_mag q < nat (k + 1024) * 2 ^ 52" and "round_mag q < mag_inf"
proof -
  show r: "round_mag q < nat (k + 1024) * 2 ^ 52"
  proof (cases "fst q = 0")
    case True
    then show ?thesis using assms(3) by (simp add: round_mag_def)
  next
    case False
    then have q: "0 < fst q" by simp
    define ex where "ex = max (- 1074) (floor_log 2 q - 52)"
    have "2 powi floor_log 2 q < (2::real) powi k"
      using floor_log_spec(1) [of 2 q] q assms(1,2) by simp
    then have "floor_log 2 q < k" by (metis linorder_not_le power_int_increasing one_le_numeral not_le)
    then have ex: "ex \<le> k - 53" "- 1074 \<le> ex" using assms(3) by (auto simp: ex_def)
    have "val q < 2 powi (floor_log 2 q + 1)" using floor_log_spec(2) [of 2 q] q assms(1) by simp
    also have "\<dots> \<le> 2 powi (ex + 53)" by (rule power_int_increasing) (simp_all add: ex_def)
    also have "\<dots> = 2 powi ex * 2 ^ 53" by (simp add: power_int_add)
    finally have "val (descale 2 ex q) < 2 ^ 53"
      using assms(1) by (simp add: val_descale divide_less_eq mult.commute)
    then have "round_half_even (descale 2 ex q) \<le> 2 ^ 53"
      using round_half_even_le [of "descale 2 ex q" "2 ^ 53"] assms(1) by simp
    moreover have "nat (ex + 1074) \<le> nat (k + 1021)" using ex by simp
    ultimately have "round_mag q \<le> nat (k + 1021) * 2 ^ 52 + 2 ^ 53"
      using False by (simp add: round_mag_def Let_def ex_def [symmetric] add_mono)
    also have "\<dots> < nat (k + 1024) * 2 ^ 52"
    proof -
      have "nat (k + 1024) = nat (k + 1021) + 3" using assms(3) by simp
      then show ?thesis by (simp add: algebra_simps)
    qed
    finally show ?thesis .
  qed
  have "nat (k + 1024) \<le> 1924" using assms(3,4) by simp
  then have "nat (k + 1024) * 2 ^ 52 \<le> 1924 * 2 ^ 52" by (rule mult_le_mono1)
  with r show "round_mag q < mag_inf" by (simp add: mag_inf_def)
qed

lemma finite_f64_round:
  assumes "0 < snd q" and "val q < 2 powi k" and "0 \<le> k" and "k \<le> 900"
  shows "is_finite (f64_round neg q)" "f64_mag (f64_round neg q) = round_mag q" "f64_neg (f64_round neg q) = neg"
proof -
  have r: "round_mag q < mag_inf" by (rule finite_round(2) [OF assms])
  then have "round_mag q < 2 ^ 63" using mag_inf_less by simp
  from f64_make_sel [OF this] r show "is_finite (f64_round neg q)" "f64_mag (f64_round neg q) = round_mag q"
    "f64_neg (f64_round neg q) = neg"
    by (simp_all add: f64_round_def is_finite_def)
qed

lemma finite_f64_of_uint: "n < 2 ^ 64 \<Longrightarrow> is_finite (f64_of_uint n)"
proof -
  assume "n < 2 ^ 64"
  then have "real n < real (2 ^ 64)" by (simp only: of_nat_less_iff)
  then have "val (n, 1) < 2 powi 64" by (simp add: val_def)
  then show ?thesis unfolding f64_of_uint_def by (rule finite_f64_round(1) [rotated]) simp_all
qed

text \<open>The value of a bit pattern below a binade.\<close>

lemma val_mag_below:
  assumes "m < nat e * 2 ^ 52" and "2 \<le> e"
  shows "val (mag_value m) < 2 powi (e - 1023)"
proof -
  have "m div 2 ^ 52 < nat e" using assms(1) by (simp add: less_mult_imp_div_less)
  then have "int (m div 2 ^ 52) < e" by (simp add: zless_nat_eq_int_zless)
  then have ex: "mag_exp m \<le> e - 1 - 1075" using assms(2) by (simp add: mag_exp_def max_def)
  have "m mod 2 ^ 52 < (2 :: nat) ^ 52" by simp
  then have "mag_mant m < 2 ^ 53" by (simp add: mag_mant_def)
  then have "real (mag_mant m) < real (2 ^ 53)" by (simp only: of_nat_less_iff)
  then have "val (mag_value m) < 2 ^ 53 * 2 powi mag_exp m" by (simp add: val_mag_value)
  also have "\<dots> \<le> 2 ^ 53 * 2 powi (e - 1 - 1075)" using ex by (simp add: power_int_increasing)
  also have "\<dots> = 2 powi (e - 1023)"
    using power_int_add [of "2::real" 53 "e - 1076"] by simp
  finally show ?thesis .
qed

text \<open>Products and sums of small values are finite.\<close>

lemma finite_f64_mul:
  assumes "is_finite a" and "is_finite b"
    and "val (mag_value (f64_mag a)) < 2 powi i" and "val (mag_value (f64_mag b)) < 2 powi j" and "0 \<le> i" "0 \<le> j" "i + j \<le> 900"
  shows "is_finite (f64_mul a b)" "f64_neg (f64_mul a b) = (f64_neg a \<noteq> f64_neg b)"
    "val (mag_value (f64_mag (f64_mul a b))) < 2 powi (i + j + 1)"
proof -
  obtain n1 d1 n2 d2 where q: "mag_value (f64_mag a) = (n1, d1)" "mag_value (f64_mag b) = (n2, d2)" by fastforce
  have d: "0 < d1" "0 < d2" using snd_mag_value [of "f64_mag a"] snd_mag_value [of "f64_mag b"] q by simp_all
  have "val (n1 * n2, d1 * d2) = val (n1, d1) * val (n2, d2)" by (simp add: val_def)
  also have "\<dots> < 2 powi i * 2 powi j"
    using assms(3,4) q by (intro mult_strict_mono) (simp_all add: val_def)
  also have "\<dots> = 2 powi (i + j)" by (simp add: power_int_add)
  finally have v: "val (n1 * n2, d1 * d2) < 2 powi (i + j)" .
  have mul: "f64_mul a b = f64_round (f64_neg a \<noteq> f64_neg b) (n1 * n2, d1 * d2)"
    using assms(1,2) q by (simp add: f64_mul_def is_finite_def is_nan_def is_inf_def Let_def)
  have bounds: "0 < snd (n1 * n2, d1 * d2)" "0 \<le> i + j" "i + j \<le> 900" using d assms by simp_all
  note f = finite_f64_round [OF bounds(1) v bounds(2,3), folded mul]
  show "is_finite (f64_mul a b)" "f64_neg (f64_mul a b) = (f64_neg a \<noteq> f64_neg b)"
    using f [of "f64_neg a \<noteq> f64_neg b"] mul by simp_all
  have "f64_mag (f64_mul a b) < nat (i + j + 1024) * 2 ^ 52"
    using f(2) [of "f64_neg a \<noteq> f64_neg b"] finite_round(1) [OF bounds(1) v bounds(2,3)] mul by simp
  from val_mag_below [OF this] bounds(2) show "val (mag_value (f64_mag (f64_mul a b))) < 2 powi (i + j + 1)"
    by (simp add: algebra_simps)
qed

lemma finite_f64_add:
  assumes "is_finite a" and "is_finite b"
    and "val (mag_value (f64_mag a)) < 2 powi k" and "val (mag_value (f64_mag b)) < 2 powi k" and "0 \<le> k" "k \<le> 800"
  shows "is_finite (f64_add a b)"
proof -
  obtain n1 d1 n2 d2 where q: "mag_value (f64_mag a) = (n1, d1)" "mag_value (f64_mag b) = (n2, d2)" by fastforce
  have d: "0 < d1" "0 < d2" using snd_mag_value [of "f64_mag a"] snd_mag_value [of "f64_mag b"] q by simp_all
  let ?x = "signed_num a * int d2 + signed_num b * int d1"
  have nums: "\<bar>signed_num a\<bar> = int n1" "\<bar>signed_num b\<bar> = int n2" using q by (simp_all add: signed_num_def)
  have "\<bar>?x\<bar> \<le> \<bar>signed_num a * int d2\<bar> + \<bar>signed_num b * int d1\<bar>" by (rule abs_triangle_ineq)
  also have "\<dots> = int (n1 * d2 + n2 * d1)" by (simp add: abs_mult nums)
  finally have x: "nat \<bar>?x\<bar> \<le> n1 * d2 + n2 * d1" by (simp only: nat_le_iff)
  have "val (nat \<bar>?x\<bar>, d1 * d2) \<le> real (n1 * d2 + n2 * d1) / real (d1 * d2)"
    unfolding val_def fst_conv snd_conv using x by (intro divide_right_mono) (simp_all only: of_nat_le_iff of_nat_0_le_iff)
  also have "\<dots> = val (n1, d1) + val (n2, d2)" using d by (simp add: val_def field_simps)
  also have "\<dots> < 2 powi k + 2 powi k" using assms(3,4) q by simp
  also have "\<dots> = 2 powi (k + 1)" by (simp add: power_int_add)
  finally have v: "val (nat \<bar>?x\<bar>, d1 * d2) < 2 powi (k + 1)" .
  have f: "is_finite (f64_round (?x < 0) (nat \<bar>?x\<bar>, d1 * d2))"
    by (rule finite_f64_round(1) [OF _ v]) (use d assms in simp_all)
  have zero: "is_finite 0" "is_finite (f64_make True 0)"
    using f64_make_sel [of 0 True] by (simp_all add: is_finite_def f64_mag_def mag_inf_def)
  have "f64_add a b = (if ?x = 0 then (if f64_neg a \<and> f64_neg b then f64_make True 0 else 0) else f64_round (?x < 0) (nat \<bar>?x\<bar>, d1 * d2))"
    using assms(1,2) q by (simp add: f64_add_def is_finite_def is_nan_def is_inf_def Let_def)
  then show ?thesis using f zero by simp
qed

end
