(* ===== verification/Collector.thy ===== *)
theory Collector
  imports Safe Go_Float_Arith
begin

text \<open>
  \<open>internal/collector/collector.go\<close>: the agent's own guarded maps and the three readers
  that fill them from the system. What the system reports (memory, cores, runtime counters,
  the random number) is an argument. A closure that panics releases the lock (the deferred
  \<open>Unlock\<close>) and takes the process down; a closure's error is dropped by \<open>managed\<close>.
\<close>

section \<open>The guarded map\<close>

record 'v Mtcs =
  mt_mu :: RWMutex
  mt_Data :: "'v gomap"

record 'v MtcsTx =
  mt_repo :: "'v Mtcs"
  mt_writable :: bool

definition Mtcs_Lock :: "'v MtcsTx \<Rightarrow> 'v MtcsTx outcome" where
  "Mtcs_Lock tx = bind_outcome (if mt_writable tx then mu_Lock (mt_mu (mt_repo tx)) else mu_RLock (mt_mu (mt_repo tx)))
     (\<lambda>m. Ret (tx\<lparr>mt_repo := (mt_repo tx)\<lparr>mt_mu := m\<rparr>\<rparr>))"

definition Mtcs_Unlock :: "'v MtcsTx \<Rightarrow> 'v MtcsTx outcome" where
  "Mtcs_Unlock tx = bind_outcome (if mt_writable tx then mu_Unlock (mt_mu (mt_repo tx)) else mu_RUnlock (mt_mu (mt_repo tx)))
     (\<lambda>m. Ret (tx\<lparr>mt_repo := (mt_repo tx)\<lparr>mt_mu := m\<rparr>\<rparr>))"

definition Mtcs_Get :: "string \<Rightarrow> 'v MtcsTx \<Rightarrow> 'v option" where
  "Mtcs_Get name tx = fmlookup (mt_Data (mt_repo tx)) name"

definition Mtcs_GetAll :: "'v MtcsTx \<Rightarrow> 'v gomap" where
  "Mtcs_GetAll tx = mt_Data (mt_repo tx)"

definition Mtcs_Set :: "string \<Rightarrow> 'v \<Rightarrow> 'v MtcsTx \<Rightarrow> 'v MtcsTx" where
  "Mtcs_Set name v tx = tx\<lparr>mt_repo := (mt_repo tx)\<lparr>mt_Data := fmupd name v (mt_Data (mt_repo tx))\<rparr>\<rparr>"

definition Mtcs_Begin :: "bool \<Rightarrow> 'v Mtcs \<Rightarrow> 'v MtcsTx outcome" where
  "Mtcs_Begin w r = Mtcs_Lock \<lparr>mt_repo = r, mt_writable = w\<rparr>"

text \<open>The closure gives its error, what it assigns to captured variables, and the transaction.\<close>

definition Mtcs_managed :: "bool \<Rightarrow> ('v MtcsTx \<Rightarrow> ((go_error option \<times> 'a) \<times> 'v MtcsTx) outcome) \<Rightarrow> 'v Mtcs
    \<Rightarrow> ((go_error option \<times> 'a) \<times> 'v Mtcs) outcome" where
  "Mtcs_managed w fn r =
     bind_outcome (Mtcs_Begin w r) (\<lambda>tx.
       bind_outcome (fn tx) (\<lambda>((err, a), tx').
         bind_outcome (Mtcs_Unlock tx') (\<lambda>tx''. Ret ((None, a), mt_repo tx''))))"

definition Mtcs_Read :: "('v MtcsTx \<Rightarrow> 'a) \<Rightarrow> 'v Mtcs \<Rightarrow> ((go_error option \<times> 'a) \<times> 'v Mtcs) outcome" where
  "Mtcs_Read fn = Mtcs_managed False (\<lambda>tx. Ret ((None, fn tx), tx))"

definition Mtcs_Update :: "('v MtcsTx \<Rightarrow> (go_error option \<times> 'v MtcsTx) outcome) \<Rightarrow> 'v Mtcs \<Rightarrow> (go_error option \<times> 'v Mtcs) outcome" where
  "Mtcs_Update fn r =
     bind_outcome (Mtcs_managed True (\<lambda>tx. bind_outcome (fn tx) (\<lambda>(e, tx'). Ret ((e, ()), tx'))) r)
       (\<lambda>((e, _), r'). Ret (e, r'))"

section \<open>The collector\<close>

record Repository =
  Repo_Gauge :: "float64 Mtcs"
  Repo_Counter :: "int64 Mtcs"

record Collector =
  cl_Repo :: Repository
  cl_cpuCores :: int
  cl_pollInterval :: "64 word"

text \<open>\<open>cpu.Counts\<close> may fail; its count is used all the same.\<close>

definition New :: "int \<Rightarrow> 64 word \<Rightarrow> Collector" where
  "New count pollInterval =
     \<lparr>cl_Repo = \<lparr>Repo_Gauge = \<lparr>mt_mu = RWMutex_zero, mt_Data = fmempty\<rparr>,
                 Repo_Counter = \<lparr>mt_mu = RWMutex_zero, mt_Data = fmempty\<rparr>\<rparr>,
      cl_cpuCores = count, cl_pollInterval = pollInterval\<rparr>"

definition set_all :: "(string \<times> 'v) list \<Rightarrow> 'v MtcsTx \<Rightarrow> 'v MtcsTx" where
  "set_all kvs tx = foldl (\<lambda>tx (k, v). Mtcs_Set k v tx) tx kvs"

definition update_gauge_map :: "(float64 MtcsTx \<Rightarrow> (go_error option \<times> float64 MtcsTx) outcome) \<Rightarrow> Collector \<Rightarrow> Collector outcome" where
  "update_gauge_map fn c =
     bind_outcome (Mtcs_Update fn (Repo_Gauge (cl_Repo c))) (\<lambda>(_, g).
       Ret (c\<lparr>cl_Repo := (cl_Repo c)\<lparr>Repo_Gauge := g\<rparr>\<rparr>))"

text \<open>
  \<open>v\<close> is the memory reading (total and free bytes; \<open>nil\<close> when the call failed),
  \<open>coresUt\<close> the utilizations. The loop indexes them with the number of cores counted at the
  start.
\<close>

fun core_loop :: "float64 list \<Rightarrow> nat \<Rightarrow> nat \<Rightarrow> float64 MtcsTx \<Rightarrow> float64 MtcsTx outcome" where
  "core_loop coresUt i 0 tx = Ret tx"
| "core_loop coresUt i (Suc n) tx =
     (if i < length coresUt
      then core_loop coresUt (Suc i) n (Mtcs_Set (''CPUutilization'' @ show_nat (i + 1)) (coresUt ! i) tx)
      else Panic ''runtime error: index out of range'')"

definition GopsStats :: "(64 word \<times> 64 word) option \<Rightarrow> float64 list \<Rightarrow> Collector \<Rightarrow> Collector outcome" where
  "GopsStats v coresUt c =
     update_gauge_map (\<lambda>tx.
       case v of
         None \<Rightarrow> Panic ''runtime error: invalid memory address or nil pointer dereference''
       | Some (all_bytes, free_bytes) \<Rightarrow>
           bind_outcome (core_loop coresUt 0 (nat (cl_cpuCores c))
             (Mtcs_Set ''FreeMemory'' (f64_of_uint (unat free_bytes)) (Mtcs_Set ''TotalMemory'' (f64_of_uint (unat all_bytes)) tx)))
             (\<lambda>tx'. Ret (None, tx'))) c"

record MemStats =
  ms_TotalAlloc :: "64 word"
  ms_Sys :: "64 word"
  ms_Lookups :: "64 word"
  ms_Mallocs :: "64 word"
  ms_Frees :: "64 word"
  ms_Alloc :: "64 word"
  ms_BuckHashSys :: "64 word"
  ms_HeapAlloc :: "64 word"
  ms_HeapIdle :: "64 word"
  ms_HeapInuse :: "64 word"
  ms_HeapObjects :: "64 word"
  ms_HeapReleased :: "64 word"
  ms_HeapSys :: "64 word"
  ms_StackInuse :: "64 word"
  ms_StackSys :: "64 word"
  ms_MSpanInuse :: "64 word"
  ms_MSpanSys :: "64 word"
  ms_MCacheInuse :: "64 word"
  ms_MCacheSys :: "64 word"
  ms_GCCPUFraction :: float64
  ms_GCSys :: "64 word"
  ms_LastGC :: "64 word"
  ms_NextGC :: "64 word"
  ms_NumForcedGC :: "32 word"
  ms_NumGC :: "32 word"
  ms_PauseTotalNs :: "64 word"
  ms_OtherSys :: "64 word"

text \<open>\<open>(rand.Float64()*100)+1\<close>.\<close>

definition RandomValue :: "float64 \<Rightarrow> float64" where
  "RandomValue r = f64_add (f64_mul r 0x4059000000000000) 0x3FF0000000000000"

definition runtime_values :: "MemStats \<Rightarrow> float64 \<Rightarrow> (string \<times> float64) list" where
  "runtime_values m r =
     [(''TotalAlloc'', f64_of_uint (unat (ms_TotalAlloc m))),
      (''Sys'', f64_of_uint (unat (ms_Sys m))),
      (''Lookups'', f64_of_uint (unat (ms_Lookups m))),
      (''Mallocs'', f64_of_uint (unat (ms_Mallocs m))),
      (''Frees'', f64_of_uint (unat (ms_Frees m))),
      (''Alloc'', f64_of_uint (unat (ms_Alloc m))),
      (''BuckHashSys'', f64_of_uint (unat (ms_BuckHashSys m))),
      (''HeapAlloc'', f64_of_uint (unat (ms_HeapAlloc m))),
      (''HeapIdle'', f64_of_uint (unat (ms_HeapIdle m))),
      (''HeapInuse'', f64_of_uint (unat (ms_HeapInuse m))),
      (''HeapObjects'', f64_of_uint (unat (ms_HeapObjects m))),
      (''HeapReleased'', f64_of_uint (unat (ms_HeapReleased m))),
      (''HeapSys'', f64_of_uint (unat (ms_HeapSys m))),
      (''StackInuse'', f64_of_uint (unat (ms_StackInuse m))),
      (''StackSys'', f64_of_uint (unat (ms_StackSys m))),
      (''MSpanInuse'', f64_of_uint (unat (ms_MSpanInuse m))),
      (''MSpanSys'', f64_of_uint (unat (ms_MSpanSys m))),
      (''MCacheInuse'', f64_of_uint (unat (ms_MCacheInuse m))),
      (''MCacheSys'', f64_of_uint (unat (ms_MCacheSys m))),
      (''GCCPUFraction'', ms_GCCPUFraction m),
      (''GCSys'', f64_of_uint (unat (ms_GCSys m))),
      (''LastGC'', f64_of_uint (unat (ms_LastGC m))),
      (''NextGC'', f64_of_uint (unat (ms_NextGC m))),
      (''NumForcedGC'', f64_of_uint (unat (ms_NumForcedGC m))),
      (''NumGC'', f64_of_uint (unat (ms_NumGC m))),
      (''PauseTotalNs'', f64_of_uint (unat (ms_PauseTotalNs m))),
      (''OtherSys'', f64_of_uint (unat (ms_OtherSys m))),
      (''RandomValue'', RandomValue r)]"

definition RuntimeStats :: "MemStats \<Rightarrow> float64 \<Rightarrow> Collector \<Rightarrow> Collector outcome" where
  "RuntimeStats m r c = update_gauge_map (\<lambda>tx. Ret (None, set_all (runtime_values m r) tx)) c"

definition UpdateCounters :: "Collector \<Rightarrow> Collector outcome" where
  "UpdateCounters c =
     bind_outcome (Mtcs_Update (\<lambda>tx. Ret (None, Mtcs_Set ''PollCount'' 1 tx)) (Repo_Counter (cl_Repo c))) (\<lambda>(_, k).
       Ret (c\<lparr>cl_Repo := (cl_Repo c)\<lparr>Repo_Counter := k\<rparr>\<rparr>))"

text \<open>
  One poll. The three readers run as goroutines, each holding its map's lock throughout, so
  the runtime picks an order in which they take effect.
\<close>

record Reading =
  rd_mem :: "(64 word \<times> 64 word) option"
  rd_cores :: "float64 list"
  rd_stats :: MemStats
  rd_rand :: float64

datatype reader = Gops | Runtime | Counters

definition run_reader :: "Reading \<Rightarrow> reader \<Rightarrow> Collector \<Rightarrow> Collector outcome" where
  "run_reader rd k c =
     (case k of
        Gops \<Rightarrow> GopsStats (rd_mem rd) (rd_cores rd) c
      | Runtime \<Rightarrow> RuntimeStats (rd_stats rd) (rd_rand rd) c
      | Counters \<Rightarrow> UpdateCounters c)"

fun Stats :: "reader list \<Rightarrow> Reading \<Rightarrow> Collector \<Rightarrow> Collector outcome" where
  "Stats [] rd c = Ret c"
| "Stats (k # ks) rd c = bind_outcome (run_reader rd k c) (Stats ks rd)"

text \<open>
  The loop of \<open>Monitor\<close>: a tick starts a poll, the end of the context ends the loop with an
  error; with no event left it waits. The polls of different ticks are taken one after the
  other.
\<close>

datatype monitor_event = PollTick "reader list" Reading | Stop

fun Monitor :: "monitor_event list \<Rightarrow> Collector \<Rightarrow> (go_error \<times> Collector) outcome" where
  "Monitor [] c = Blocked"
| "Monitor (Stop # evs) c = Ret (ErrMsg ''collector graceful shutdown'', c)"
| "Monitor (PollTick order rd # evs) c = bind_outcome (Stats order rd c) (Monitor evs)"

end
