(* ===== verification/Monclient.thy ===== *)
theory Monclient
  imports Mondata Go_Http Go_Base64 Ciphers Middlewares Collector
begin

text \<open>
  \<open>internal/monclient/monclient.go\<close>: the agent's reports. The request builders and
  \<open>Post\<close> are functions; the HTTP client resty, the compressor, the keyed hash, the
  ciphers and the random source are parameters. \<open>panic\<close> and \<open>log.Fatal\<close> end the
  process: both are \<open>Panic\<close>. The worker pool is in \<open>Worker_Pool\<close>, the sharing of the
  hash between workers in \<open>Shared_Hash\<close>.
\<close>

definition updatePath :: string where
  "updatePath = ''/update''"

definition updateBatchPath :: string where
  "updateBatchPath = ''/updates''"

text \<open>The keyed hash: its key and what was written since the last \<open>Reset\<close>.\<close>

record 'pub MonClient =
  mc_addr :: string
  mc_reportInterval :: "64 word"
  mc_h :: "(bytes \<times> bytes) option"
  mc_cryptoKey :: "'pub option"

definition retryCount :: nat where
  "retryCount = 3"

definition NewClient :: "string \<Rightarrow> string \<Rightarrow> 'pub option \<Rightarrow> 64 word \<Rightarrow> 'pub MonClient" where
  "NewClient addr key cryptoKey interval =
     \<lparr>mc_addr = addr, mc_reportInterval = interval, mc_h = (if key \<noteq> [] then Some (key, []) else None), mc_cryptoKey = cryptoKey\<rparr>"

text \<open>The delay in seconds before a retry, or the end of the retries.\<close>

definition retry_after :: "nat \<Rightarrow> go_error + nat" where
  "retry_after attempt =
     (if attempt > retryCount then Inl (ErrMsg ''max retries reached'') else Inr (1 + (attempt - 1) * 2))"

section \<open>Bodies\<close>

definition buildReqBody :: "string \<Rightarrow> string \<Rightarrow> float64 option \<Rightarrow> int64 option \<Rightarrow> bytes outcome" where
  "buildReqBody name mtype g c =
     (let data0 = Metrics_zero\<lparr>ID := name, MType := mtype\<rparr>;
          data = (if mtype = GaugeType then data0\<lparr>Value := g\<rparr> else data0\<lparr>Delta := c\<rparr>)
      in case marshal_Metrics data of
           Inl e \<Rightarrow> Panic ''json: unsupported value''
         | Inr j \<Rightarrow> Ret j)"

definition batch_records :: "(string \<times> float64) list \<Rightarrow> (string \<times> int64) list \<Rightarrow> Metrics list" where
  "batch_records gkvs ckvs =
     map (\<lambda>(k, v). Metrics_zero\<lparr>ID := k, MType := ''gauge'', Value := Some v\<rparr>) gkvs @
     map (\<lambda>(k, d). Metrics_zero\<lparr>ID := k, MType := ''counter'', Delta := Some d\<rparr>) ckvs"

text \<open>\<open>gkvs\<close> and \<open>ckvs\<close> are the entries of the two maps in the order \<open>range\<close> picks.\<close>

definition buildReqBatchBody :: "(string \<times> float64) list \<Rightarrow> (string \<times> int64) list \<Rightarrow> bytes outcome" where
  "buildReqBatchBody gkvs ckvs =
     (if gkvs = [] \<and> ckvs = [] then Ret []
      else case marshal_batch (batch_records gkvs ckvs) of
             Inl e \<Rightarrow> Panic ''log.Fatal: json: unsupported value''
           | Inr j \<Rightarrow> Ret j)"

section \<open>Post\<close>

text \<open>\<open>gzip.NewWriter\<close>, one \<open>Write\<close> and \<open>Close\<close> into a buffer.\<close>

definition gzip_bytes :: "'z Gzip \<Rightarrow> bytes \<Rightarrow> bytes" where
  "gzip_bytes gz p =
     (case gz_Write gz p (gz_new gz) of (out, z) \<Rightarrow>
        (case gz_Close gz z of (out', _) \<Rightarrow> concat out @ concat out'))"

text \<open>
  The request: the signature is the hash of everything written to the shared hash since the
  last \<open>Reset\<close>.
\<close>

definition post_headers :: "string option \<Rightarrow> header" where
  "post_headers sign =
     hdr_Set ''Content-Type'' ''application/json; charset=utf-8''
       (hdr_Set ''Content-Encoding'' ''gzip''
         (hdr_Set ''Accept-Encoding'' ''gzip''
           (case sign of None \<Rightarrow> fmempty | Some s \<Rightarrow> hdr_Set ''HashSHA256'' s fmempty)))"

definition post_request :: "'z Gzip \<Rightarrow> (bytes \<Rightarrow> bytes \<Rightarrow> bytes) \<Rightarrow> ('pub, 'priv) Crypto \<Rightarrow> Entropy \<Rightarrow> 'pub MonClient
    \<Rightarrow> bytes \<Rightarrow> string \<Rightarrow> ((string \<times> Request) \<times> 'pub MonClient) outcome" where
  "post_request gz hmac cr rnd m p path =
     bind_outcome
       (case mc_cryptoKey m of
          None \<Rightarrow> Ret p
        | Some k \<Rightarrow> (case EncryptMsg cr rnd k p of Inl e \<Rightarrow> Panic ''log.Fatal'' | Inr encMsg \<Rightarrow> Ret encMsg))
       (\<lambda>p1.
          let buf = gzip_bytes gz p1;
              (sign, h1) = (case mc_h m of
                  None \<Rightarrow> (None, None)
                | Some (key, acc) \<Rightarrow> (Some (b64_encode (hmac key (acc @ p1))), Some (key, [])))
          in Ret ((mc_addr m @ path,
                   \<lparr>Method = ''POST'', URLParams = fmempty, rHeader = post_headers sign, rBody = NopCloser buf\<rparr>),
                  m\<lparr>mc_h := h1\<rparr>))"

text \<open>\<open>send\<close> is resty's \<open>Post\<close> with its retries; any error it returns is fatal.\<close>

definition Post :: "'z Gzip \<Rightarrow> (bytes \<Rightarrow> bytes \<Rightarrow> bytes) \<Rightarrow> ('pub, 'priv) Crypto
    \<Rightarrow> (string \<Rightarrow> Request \<Rightarrow> 'n \<Rightarrow> go_error option \<times> 'n) \<Rightarrow> Entropy \<Rightarrow> 'pub MonClient
    \<Rightarrow> bytes \<Rightarrow> string \<Rightarrow> 'n \<Rightarrow> ('pub MonClient \<times> 'n) outcome" where
  "Post gz hmac cr send rnd m p path net =
     bind_outcome (post_request gz hmac cr rnd m p path) (\<lambda>((url, req), m').
       case send url req net of
         (Some e, net') \<Rightarrow> Panic ''log.Fatal''
       | (None, net') \<Rightarrow> Ret (m', net'))"

section \<open>Reports\<close>

text \<open>A report as its entries in the order they will be ranged over.\<close>

record Report =
  rep_gm :: "float64 gomap"
  rep_cm :: "int64 gomap"
  rep_id :: int64

text \<open>
  \<open>readStats\<close> hands out the collector's live maps; this is what they hold at the reading,
  gauges first.
\<close>

definition readStats :: "int64 \<Rightarrow> Collector \<Rightarrow> (Report \<times> Collector) outcome" where
  "readStats jobId cl =
     bind_outcome (Mtcs_Read Mtcs_GetAll (Repo_Gauge (cl_Repo cl))) (\<lambda>((_, gm), g).
     bind_outcome (Mtcs_Read Mtcs_GetAll (Repo_Counter (cl_Repo cl))) (\<lambda>((_, cm), c).
       Ret (\<lparr>rep_gm = gm, rep_cm = cm, rep_id = jobId\<rparr>, cl\<lparr>cl_Repo := \<lparr>Repo_Gauge = g, Repo_Counter = c\<rparr>\<rparr>)))"

text \<open>
  One worker on the reports it receives until the channel is closed. \<open>gord\<close> and
  \<open>cord\<close> are the orders the runtime ranges over the maps in, \<open>rnds\<close> the random bytes
  of each post.
\<close>

fun PollWorker :: "'z Gzip \<Rightarrow> (bytes \<Rightarrow> bytes \<Rightarrow> bytes) \<Rightarrow> ('pub, 'priv) Crypto
    \<Rightarrow> (string \<Rightarrow> Request \<Rightarrow> 'n \<Rightarrow> go_error option \<times> 'n)
    \<Rightarrow> (float64 gomap \<Rightarrow> (string \<times> float64) list) \<Rightarrow> (int64 gomap \<Rightarrow> (string \<times> int64) list)
    \<Rightarrow> Report list \<Rightarrow> (nat \<Rightarrow> Entropy) \<Rightarrow> 'pub MonClient \<Rightarrow> 'n \<Rightarrow> ('pub MonClient \<times> 'n) outcome" where
  "PollWorker gz hmac cr send gord cord [] rnds m net = Ret (m, net)"
| "PollWorker gz hmac cr send gord cord (r # reps) rnds m net =
     bind_outcome (buildReqBatchBody (gord (rep_gm r)) (cord (rep_cm r))) (\<lambda>b.
       bind_outcome
         (if 0 < length b then Post gz hmac cr send (rnds 0) m b updateBatchPath net else Ret (m, net))
         (\<lambda>(m', net'). PollWorker gz hmac cr send gord cord reps (\<lambda>i. rnds (Suc i)) m' net'))"

text \<open>
  One round of \<open>PollStats\<close>, the mode that posts every metric on its own: the gauges'
  goroutine and the counters' goroutine, taken one after the other.
\<close>

fun post_all :: "('pub MonClient \<Rightarrow> bytes \<Rightarrow> string \<Rightarrow> 'n \<Rightarrow> ('pub MonClient \<times> 'n) outcome)
    \<Rightarrow> bytes outcome list \<Rightarrow> 'pub MonClient \<Rightarrow> 'n \<Rightarrow> ('pub MonClient \<times> 'n) outcome" where
  "post_all post [] m net = Ret (m, net)"
| "post_all post (b # bs) m net =
     bind_outcome b (\<lambda>p. bind_outcome (post m p updatePath net) (\<lambda>(m', net'). post_all post bs m' net'))"

definition PollStats_round :: "('pub MonClient \<Rightarrow> bytes \<Rightarrow> string \<Rightarrow> 'n \<Rightarrow> ('pub MonClient \<times> 'n) outcome)
    \<Rightarrow> (string \<times> float64) list \<Rightarrow> (string \<times> int64) list \<Rightarrow> 'pub MonClient \<Rightarrow> 'n \<Rightarrow> ('pub MonClient \<times> 'n) outcome" where
  "PollStats_round post gkvs ckvs m net =
     bind_outcome (post_all post (map (\<lambda>(k, v). buildReqBody k GaugeType (Some v) None) gkvs) m net) (\<lambda>(m', net').
       post_all post (map (\<lambda>(k, v). buildReqBody k CounterType None (Some v)) ckvs) m' net')"

end
