(* ===== verification/Worker_Pool.thy ===== *)
theory Worker_Pool
  imports Prelude "HOL-Library.Multiset"
begin

text \<open>
  The goroutines of \<open>PollStatsBatch\<close>, \<open>PollWorker\<close> and \<open>readStats\<close> in
  \<open>internal/monclient/monclient.go\<close> as a step relation: reports wait to be sent on a channel
  of capacity \<open>cap\<close>, workers receive and post them, the end of the context closes the
  channel when the last report is sent. A report is any value \<open>'r\<close>; what a worker does
  with it is \<open>PollWorker\<close> in \<open>Monclient\<close>.
\<close>

section \<open>State and steps\<close>

datatype 'r worker = Idle | Busy 'r | Exited

record 'r Pool =
  made :: "'r list"
  pending :: "'r multiset"
  queue :: "'r list"
  workers :: "'r worker list"
  posted :: "'r list"
  stopped :: bool
  closed :: bool

definition pool_init :: "nat \<Rightarrow> 'r Pool" where
  "pool_init n = \<lparr>made = [], pending = {#}, queue = [], workers = replicate n Idle, posted = [], stopped = False, closed = False\<rparr>"

text \<open>
  \<open>tick\<close> starts \<open>readStats\<close>, which holds its report until the channel has room; the
  tick case of the \<open>select\<close> can be taken until the context's case is.
\<close>

inductive pool_step :: "nat \<Rightarrow> 'r Pool \<Rightarrow> 'r Pool \<Rightarrow> bool" for cap where
  tick: "\<not> stopped s \<Longrightarrow> pool_step cap s (s\<lparr>made := r # made s, pending := add_mset r (pending s)\<rparr>)"
| stop: "\<not> stopped s \<Longrightarrow> pool_step cap s (s\<lparr>stopped := True\<rparr>)"
| send: "pending s = add_mset r p \<Longrightarrow> length (queue s) < cap \<Longrightarrow> \<not> closed s \<Longrightarrow>
    pool_step cap s (s\<lparr>pending := p, queue := queue s @ [r]\<rparr>)"
| receive: "i < length (workers s) \<Longrightarrow> workers s ! i = Idle \<Longrightarrow> queue s = r # q \<Longrightarrow>
    pool_step cap s (s\<lparr>queue := q, workers := (workers s)[i := Busy r]\<rparr>)"
| finish: "i < length (workers s) \<Longrightarrow> workers s ! i = Busy r \<Longrightarrow>
    pool_step cap s (s\<lparr>posted := r # posted s, workers := (workers s)[i := Idle]\<rparr>)"
| close: "stopped s \<Longrightarrow> pending s = {#} \<Longrightarrow> \<not> closed s \<Longrightarrow> pool_step cap s (s\<lparr>closed := True\<rparr>)"
| exit: "i < length (workers s) \<Longrightarrow> workers s ! i = Idle \<Longrightarrow> closed s \<Longrightarrow> queue s = [] \<Longrightarrow>
    pool_step cap s (s\<lparr>workers := (workers s)[i := Exited]\<rparr>)"

text \<open>\<open>PollStatsBatch\<close> has returned.\<close>

definition pool_done :: "'r Pool \<Rightarrow> bool" where
  "pool_done s \<longleftrightarrow> stopped s \<and> closed s \<and> set (workers s) \<subseteq> {Exited}"

definition pool_reach :: "nat \<Rightarrow> nat \<Rightarrow> 'r Pool \<Rightarrow> bool" where
  "pool_reach cap n s \<longleftrightarrow> (pool_step cap)\<^sup>*\<^sup>* (pool_init n) s"

section \<open>Invariants\<close>

primrec held :: "'r worker \<Rightarrow> 'r multiset" where
  "held Idle = {#}"
| "held (Busy r) = {#r#}"
| "held Exited = {#}"

primrec cost :: "'r worker \<Rightarrow> nat" where
  "cost Idle = 1"
| "cost (Busy r) = 3"
| "cost Exited = 0"

definition pool_inv :: "nat \<Rightarrow> 'r Pool \<Rightarrow> bool" where
  "pool_inv n s \<longleftrightarrow> length (workers s) = n \<and>
     mset (made s) = pending s + mset (queue s) + sum_list (map held (workers s)) + mset (posted s) \<and>
     (closed s \<longrightarrow> stopped s \<and> pending s = {#}) \<and> (Exited \<in> set (workers s) \<longrightarrow> closed s \<and> queue s = [])"

lemma held_update:
  "i < length ws \<Longrightarrow> ws ! i = Idle \<Longrightarrow> sum_list (map held (ws[i := Busy r])) = add_mset r (sum_list (map held ws))"
  "i < length ws \<Longrightarrow> ws ! i = Busy r \<Longrightarrow> add_mset r (sum_list (map held (ws[i := Idle]))) = sum_list (map held ws)"
  "i < length ws \<Longrightarrow> ws ! i = Idle \<Longrightarrow> sum_list (map held (ws[i := Exited])) = sum_list (map held ws)"
  using sum_map_update [of i ws held "Busy r"] sum_map_update [of i ws held Idle] sum_map_update [of i ws held Exited] by simp_all

lemma pool_inv_step: "pool_step cap s s' \<Longrightarrow> pool_inv n s \<Longrightarrow> pool_inv n s'"
proof (induction rule: pool_step.induct)
  case (receive i s r q)
  then show ?case by (auto simp: pool_inv_def held_update dest!: set_update_subset_insert [THEN subsetD])
next
  case (finish i s r)
  then show ?case by (auto simp: pool_inv_def held_update(2) [symmetric] dest!: set_update_subset_insert [THEN subsetD])
next
  case (exit i s)
  then show ?case by (auto simp: pool_inv_def held_update dest!: set_update_subset_insert [THEN subsetD])
qed (auto simp: pool_inv_def)

lemma pool_reach_inv: "pool_reach cap n s \<Longrightarrow> pool_inv n s"
  unfolding pool_reach_def
proof (induction rule: rtranclp_induct)
  case base
  have "sum_list (map held (replicate n Idle)) = {#}" by (induction n) simp_all
  then show ?case by (simp add: pool_inv_def pool_init_def)
qed (rule pool_inv_step)

section \<open>Progress\<close>

definition left :: "'r Pool \<Rightarrow> nat" where
  "left s = 4 * size (pending s) + 3 * length (queue s) + sum_list (map cost (workers s)) + (if closed s then 0 else 1)"

lemma cost_update:
  "i < length ws \<Longrightarrow> sum_list (map cost (ws[i := w])) + cost (ws ! i) = sum_list (map cost ws) + cost w"
  by (rule sum_map_update)

lemma left_decreases: "pool_step cap s s' \<Longrightarrow> stopped s \<Longrightarrow> left s' < left s \<and> stopped s'"
proof (induction rule: pool_step.induct)
  case (receive i s r q)
  then show ?case using cost_update [of i "workers s" "Busy r"] by (simp add: left_def)
next
  case (finish i s r)
  then show ?case using cost_update [of i "workers s" Idle] by (simp add: left_def)
next
  case (exit i s)
  then show ?case using cost_update [of i "workers s" Exited] by (simp add: left_def)
qed (auto simp: left_def)

lemma pool_progress:
  assumes inv: "pool_inv n s" and "0 < n" and "0 < cap" and "\<not> pool_done s"
  shows "\<exists>s'. pool_step cap s s'"
proof (cases "stopped s")
  case False
  then show ?thesis by (blast intro: pool_step.stop)
next
  case stopped: True
  show ?thesis
  proof (cases "\<exists>i r. i < length (workers s) \<and> workers s ! i = Busy r")
    case True
    then show ?thesis by (blast intro: pool_step.finish)
  next
    case False
    then have ws: "workers s ! i \<in> {Idle, Exited}" if "i < length (workers s)" for i
      using that by (cases "workers s ! i") auto
    show ?thesis
    proof (cases "Exited \<in> set (workers s)")
      case True
      with inv have c: "closed s" "queue s = []" by (auto simp: pool_inv_def)
      with stopped assms(4) obtain w where "w \<in> set (workers s)" "w \<noteq> Exited" by (auto simp: pool_done_def)
      then obtain i where "i < length (workers s)" "workers s ! i = Idle" using ws by (metis in_set_conv_nth insertE singletonD)
      with c show ?thesis by (blast intro: pool_step.exit)
    next
      case no_exit: False
      have i0: "0 < length (workers s)" "workers s ! 0 = Idle"
        using ws [of 0] no_exit inv assms(2) by (auto simp: pool_inv_def nth_mem in_set_conv_nth)
      show ?thesis
      proof (cases "queue s")
        case (Cons r q)
        with i0 show ?thesis by (blast intro: pool_step.receive)
      next
        case Nil
        show ?thesis
        proof (cases "closed s")
          case True
          with i0 Nil show ?thesis by (blast intro: pool_step.exit)
        next
          case open': False
          show ?thesis
          proof (cases "pending s")
            case empty
            with stopped open' show ?thesis by (blast intro: pool_step.close)
          next
            case (add r p)
            with Nil open' assms(3) show ?thesis by (metis pool_step.send list.size(3))
          qed
        qed
      qed
    qed
  qed
qed

section \<open>Properties\<close>

lemma runs_from_stopped:
  "(pool_step cap ^^ k) s s' \<Longrightarrow> stopped s \<Longrightarrow> k + left s' \<le> left s \<and> stopped s'"
proof (induction k arbitrary: s')
  case (Suc k)
  then obtain t where t: "(pool_step cap ^^ k) s t" "pool_step cap t s'" by auto
  with Suc have "k + left t \<le> left s" "stopped t" by simp_all
  with left_decreases [OF t(2)] show ?case by simp
qed simp

lemma run_reach: "pool_reach cap n s \<Longrightarrow> (pool_step cap ^^ k) s s' \<Longrightarrow> pool_reach cap n s'"
  unfolding pool_reach_def by (meson relpowp_imp_rtranclp rtranclp_trans)

text \<open>
  C13. Once the agent is told to stop, with at least one worker and a channel with room, the
  pool ends: every run makes at most \<open>left s\<close> more steps, none gets stuck before all
  workers have exited, and then every report that was ever read has been posted exactly once.
\<close>

theorem shutdown_posts_all:
  assumes "pool_reach cap n s" and "stopped s" and "0 < n" and "0 < cap"
    and "(pool_step cap ^^ k) s s'"
  shows "k \<le> left s \<and> (pool_done s' \<or> (\<exists>s''. pool_step cap s' s'')) \<and>
    (pool_done s' \<longrightarrow> mset (posted s') = mset (made s'))"
proof (intro conjI impI)
  have inv: "pool_inv n s'" by (rule pool_reach_inv [OF run_reach [OF assms(1,5)]])
  show "k \<le> left s" using runs_from_stopped [OF assms(5,2)] by simp
  show "pool_done s' \<or> (\<exists>s''. pool_step cap s' s'')" using pool_progress [OF inv assms(3,4)] by blast
  assume "pool_done s'"
  then have "workers s' = replicate n Exited"
    using inv by (intro replicate_eqI) (auto simp: pool_inv_def pool_done_def)
  moreover from this have "Exited \<in> set (workers s')" using assms(3) by simp
  ultimately have ends: "pending s' = {#}" "workers s' = replicate n Exited" "queue s' = []"
    using inv by (auto simp: pool_inv_def)
  have "sum_list (map held (replicate n Exited)) = ({#} :: 'a multiset)" by (induction n) simp_all
  with inv ends show "mset (posted s') = mset (made s')" by (simp add: pool_inv_def)
qed

definition one_report :: "nat Pool" where
  "one_report = \<lparr>made = [7], pending = {#7#}, queue = [], workers = [Idle], posted = [], stopped = True, closed = False\<rparr>"

lemma one_report_reach: "pool_reach 9 1 one_report"
proof -
  let ?s1 = "(pool_init 1)\<lparr>made := [7], pending := {#7#}\<rparr> :: nat Pool"
  have "pool_step 9 (pool_init 1) ?s1"
    using pool_step.tick [of "pool_init 1 :: nat Pool" 9 7] by (simp add: pool_init_def)
  moreover have "pool_step 9 ?s1 one_report"
    using pool_step.stop [of ?s1 9] by (simp add: pool_init_def one_report_def)
  ultimately show ?thesis unfolding pool_reach_def by (meson converse_rtranclp_into_rtranclp rtranclp.rtrancl_refl)
qed

lemma one_report_run:
  "(pool_step 9 ^^ 5) one_report \<lparr>made = [7], pending = {#}, queue = [], workers = [Exited], posted = [7], stopped = True, closed = True\<rparr>"
proof -
  let ?s = "\<lambda>p q w po c. \<lparr>made = [7 :: nat], pending = p, queue = q, workers = w, posted = po, stopped = True, closed = c\<rparr>"
  have 1: "pool_step 9 (?s {#7#} [] [Idle] [] False) (?s {#} [7] [Idle] [] False)"
    using pool_step.send [of "?s {#7#} [] [Idle] [] False" 7 "{#}" 9] by simp
  have 2: "pool_step 9 (?s {#} [7] [Idle] [] False) (?s {#} [] [Busy 7] [] False)"
    using pool_step.receive [of 0 "?s {#} [7] [Idle] [] False" 7 "[]" 9] by simp
  have 3: "pool_step 9 (?s {#} [] [Busy 7] [] False) (?s {#} [] [Idle] [7] False)"
    using pool_step.finish [of 0 "?s {#} [] [Busy 7] [] False" 7 9] by simp
  have 4: "pool_step 9 (?s {#} [] [Idle] [7] False) (?s {#} [] [Idle] [7] True)"
    using pool_step.close [of "?s {#} [] [Idle] [7] False" 9] by simp
  have 5: "pool_step 9 (?s {#} [] [Idle] [7] True) (?s {#} [] [Exited] [7] True)"
    using pool_step.exit [of 0 "?s {#} [] [Idle] [7] True" 9] by simp
  have "(pool_step 9 ^^ Suc (Suc (Suc (Suc (Suc 0))))) (?s {#7#} [] [Idle] [] False) (?s {#} [] [Exited] [7] True)"
    using 1 2 3 4 5 by (auto simp: relcompp_apply)
  then show ?thesis by (simp add: one_report_def eval_nat_numeral)
qed

theorem shutdown_posts_all_witness:
  "\<exists>s'. (pool_step 9 ^^ 5) one_report s' \<and> pool_done s' \<and> mset (posted s') = mset [7]"
proof -
  let ?s = "\<lparr>made = [7 :: nat], pending = {#}, queue = [], workers = [Exited], posted = [7], stopped = True, closed = True\<rparr>"
  have "stopped one_report" "pool_done ?s" by (simp_all add: one_report_def pool_done_def)
  with shutdown_posts_all [OF one_report_reach _ _ _ one_report_run] have "mset (posted ?s) = mset (made ?s)" by simp
  with one_report_run \<open>pool_done ?s\<close> show ?thesis by auto
qed

text \<open>Ticks, then sends, without anybody receiving.\<close>

definition filled :: "nat \<Rightarrow> nat \<Rightarrow> bool \<Rightarrow> 'r \<Rightarrow> 'r Pool" where
  "filled m j st r = \<lparr>made = replicate m r, pending = replicate_mset (m - j) r, queue = replicate j r, workers = [],
     posted = [], stopped = st, closed = False\<rparr>"

lemma filled_ticks: "pool_reach cap 0 (filled m 0 False r)"
proof (induction m)
  case 0
  then show ?case by (simp add: filled_def pool_reach_def pool_init_def)
next
  case (Suc m)
  have "pool_step cap (filled m 0 False r) (filled (Suc m) 0 False r)"
    using pool_step.tick [of "filled m 0 False r" cap r] by (simp add: filled_def)
  with Suc show ?case unfolding pool_reach_def by (rule rtranclp.rtrancl_into_rtrancl)
qed

lemma filled_sends: "j \<le> cap \<Longrightarrow> j \<le> m \<Longrightarrow> pool_reach cap 0 (filled m j False r)"
proof (induction j)
  case (Suc j)
  have "replicate_mset (m - j) r = add_mset r (replicate_mset (m - Suc j) r)"
    using Suc.prems by (metis Suc_diff_Suc Suc_le_lessD replicate_mset_Suc)
  then have "pool_step cap (filled m j False r) (filled m (Suc j) False r)"
    using pool_step.send [of "filled m j False r" r "replicate_mset (m - Suc j) r" cap] Suc.prems
    by (simp add: filled_def replicate_append_same)
  with Suc show ?case unfolding pool_reach_def by (simp add: rtranclp.rtrancl_into_rtrancl)
qed (rule filled_ticks)

text \<open>
  C38. With no workers (a rate limit of 0) the agent cannot stop: once one report more than the
  channel holds has been read, the end of the context leaves it waiting for ever.
\<close>

theorem no_workers_hang:
  "pool_reach cap 0 (filled (Suc cap) cap True r) \<and> stopped (filled (Suc cap) cap True r) \<and>
   \<not> pool_done (filled (Suc cap) cap True r) \<and> (\<forall>s'. \<not> pool_step cap (filled (Suc cap) cap True r) s')"
proof (intro conjI allI notI)
  have "pool_step cap (filled (Suc cap) cap False r) (filled (Suc cap) cap True r)"
    using pool_step.stop [of "filled (Suc cap) cap False r" cap] by (simp add: filled_def)
  moreover have "pool_reach cap 0 (filled (Suc cap) cap False r)" by (rule filled_sends) simp_all
  ultimately show "pool_reach cap 0 (filled (Suc cap) cap True r)"
    unfolding pool_reach_def by (simp add: rtranclp.rtrancl_into_rtrancl)
next
  fix s'
  assume "pool_step cap (filled (Suc cap) cap True r) s'"
  then show False by cases (simp_all add: filled_def)
qed (simp_all add: filled_def pool_done_def)

end
