(* ===== verification/Agent_Main.thy ===== *)
theory Agent_Main
  imports Config Monclient Worker_Pool Go_Group
begin

text \<open>
  \<open>main\<close> of \<open>cmd/agent/main.go\<close>: the client, the collector and the worker pool the
  agent starts from its settings. \<open>readKey\<close> is \<open>ReadPublicKey\<close> on the file system,
  \<open>cores\<close> the result of \<open>cpu.Counts\<close>. What the program prints is left out.
\<close>

section \<open>Start\<close>

definition clientPollCap :: nat where
  "clientPollCap = 9"

definition agent_start :: "(string \<Rightarrow> (go_error + 'pub) outcome) \<Rightarrow> int \<Rightarrow> agent_flags
    \<Rightarrow> ('pub MonClient \<times> Collector \<times> Report Pool) outcome" where
  "agent_start readKey cores c =
     bind_outcome
       (if af_PublicKeyPath c \<noteq> []
        then bind_outcome (readKey (af_PublicKeyPath c)) (\<lambda>r.
               case r of Inl err \<Rightarrow> Panic ''log.Fatal'' | Inr k \<Rightarrow> Ret (Some k))
        else Ret None)
       (\<lambda>cryptoKey. Ret (NewClient (af_Addr c) (af_Key c) cryptoKey (af_ReportInterval c),
          New cores (af_PollInterval c), pool_init (unat (af_RateLimit c))))"

text \<open>With the built-in settings three workers share the client, and no report is signed.\<close>

lemma agent_start_default:
  "agent_start readKey cores defOpts =
     Ret (\<lparr>mc_addr = ''http://localhost:8080'', mc_reportInterval = 10, mc_h = None, mc_cryptoKey = None\<rparr>, New cores 2, pool_init 3)"
  by (simp add: agent_start_def defOpts_def NewClient_def)

text \<open>The option \<open>-l 0\<close> is accepted and starts no worker.\<close>

lemma agent_start_no_workers:
  "\<exists>c. agent_config NoFile [''-l'', ''0''] (\<lambda>_. None) = Ret (Inr c) \<and>
    agent_start readKey cores c = Ret (NewClient (af_Addr defOpts) [] None 10, New cores 2, pool_init 0)"
proof -
  have "ParseUint0 ''0'' = Inr 0" by code_simp
  then have "agent_config NoFile [''-l'', ''0''] (\<lambda>_. None) = Ret (Inr (defOpts\<lparr>af_RateLimit := 0\<rparr>))"
    by (simp add: agent_config_def read_config_def agent_formal_def Let_def agent_setEnv_def SetEnvStr_def SetEnvUint_def Getenv_def)
  then show ?thesis by (auto simp: agent_start_def defOpts_def)
qed

section \<open>Run\<close>

text \<open>
  The goroutines of the group, one poll or one report at a time: a poll of the collector, or
  a reading of its maps posted by a worker. \<open>gord\<close> and \<open>cord\<close> are the orders the
  runtime ranges over the maps in. The job number never leaves 0: the counter
  \<open>readStats\<close> increments is its own copy.
\<close>

datatype agent_event = Polled "reader list" Reading | Reported Entropy

fun agent_life :: "'z Gzip \<Rightarrow> (bytes \<Rightarrow> bytes \<Rightarrow> bytes) \<Rightarrow> ('pub, 'priv) Crypto
    \<Rightarrow> (string \<Rightarrow> Request \<Rightarrow> 'n \<Rightarrow> go_error option \<times> 'n)
    \<Rightarrow> (float64 gomap \<Rightarrow> (string \<times> float64) list) \<Rightarrow> (int64 gomap \<Rightarrow> (string \<times> int64) list)
    \<Rightarrow> agent_event list \<Rightarrow> Collector \<Rightarrow> 'pub MonClient \<Rightarrow> 'n \<Rightarrow> (Collector \<times> 'pub MonClient \<times> 'n) outcome" where
  "agent_life gz hmac cr send gord cord [] cl m net = Ret (cl, m, net)"
| "agent_life gz hmac cr send gord cord (Polled order rd # evs) cl m net =
     bind_outcome (Stats order rd cl) (\<lambda>cl'. agent_life gz hmac cr send gord cord evs cl' m net)"
| "agent_life gz hmac cr send gord cord (Reported rnd # evs) cl m net =
     bind_outcome (readStats 0 cl) (\<lambda>(r, cl').
     bind_outcome (PollWorker gz hmac cr send gord cord [r] (\<lambda>_. rnd) m net) (\<lambda>(m', net').
       agent_life gz hmac cr send gord cord evs cl' m' net'))"

text \<open>
  The end: each of the three goroutines returns an error, \<open>monitorErr\<close> the collector's;
  \<open>order\<close> is the order they return in. The timeout's own goroutine reports to nobody.
\<close>

definition agent_exit :: "go_error \<Rightarrow> nat list \<Rightarrow> go_error option" where
  "agent_exit monitorErr order =
     (let results = [monitorErr, ErrMsg ''client graceful shutdown'', ErrMsg ''agent shutdown'']
      in group_Wait (map (\<lambda>i. Some (results ! i)) order))"

text \<open>Every end of the agent is printed with a reason: the first of the three to return.\<close>

lemma agent_exit_first: "agent_exit e (0 # order) = Some e" "agent_exit e (Suc (Suc 0) # order) = Some (ErrMsg ''agent shutdown'')"
  by (simp_all add: agent_exit_def)

end
