(* ===== verification/Collector_Facts.thy ===== *)
theory Collector_Facts
  imports Collector
begin

text \<open>
  What a poll of the system leaves in the agent's maps: the readers never wait, their order
  does not matter, the gauges stay finite, and the poll counter is always 1.
\<close>

section \<open>Single readers\<close>

definition gauges_of :: "Collector \<Rightarrow> float64 gomap" where
  "gauges_of c = mt_Data (Repo_Gauge (cl_Repo c))"

definition counters_of :: "Collector \<Rightarrow> int64 gomap" where
  "counters_of c = mt_Data (Repo_Counter (cl_Repo c))"

definition cl_idle :: "Collector \<Rightarrow> bool" where
  "cl_idle c \<longleftrightarrow> mt_mu (Repo_Gauge (cl_Repo c)) = RWMutex_zero \<and> mt_mu (Repo_Counter (cl_Repo c)) = RWMutex_zero"

definition put :: "float64 gomap \<Rightarrow> int64 gomap \<Rightarrow> Collector \<Rightarrow> Collector" where
  "put g k c = c\<lparr>cl_Repo := \<lparr>Repo_Gauge = \<lparr>mt_mu = RWMutex_zero, mt_Data = g\<rparr>, Repo_Counter = \<lparr>mt_mu = RWMutex_zero, mt_Data = k\<rparr>\<rparr>\<rparr>"

lemma mput_simps [simp]:
  "gauges_of (put g k c) = g" "counters_of (put g k c) = k" "cl_idle (put g k c)" "cl_cpuCores (put g k c) = cl_cpuCores c"
  "put g' k' (put g k c) = put g' k' c"
  by (simp_all add: put_def gauges_of_def counters_of_def cl_idle_def)

lemma put_same: "cl_idle c \<Longrightarrow> put (gauges_of c) (counters_of c) c = c"
  by (cases c; cases "cl_Repo c") (auto simp: put_def gauges_of_def counters_of_def cl_idle_def)

definition upds :: "'v gomap \<Rightarrow> (string \<times> 'v) list \<Rightarrow> 'v gomap" where
  "upds = foldl (\<lambda>m (k, v). fmupd k v m)"

lemma upds_simps [simp]: "upds m [] = m" "upds m ((k, v) # kvs) = upds (fmupd k v m) kvs" "upds m (a @ b) = upds (upds m a) b"
  by (simp_all add: upds_def)

lemma fmlookup_upds: "fmlookup (upds m kvs) k = (case map_of (rev kvs) k of None \<Rightarrow> fmlookup m k | Some v \<Rightarrow> Some v)"
proof (induction kvs arbitrary: m)
  case (Cons kv kvs)
  obtain k' v' where "kv = (k', v')" by (cases kv)
  with Cons show ?case by (auto simp: map_add_def split: option.splits)
qed simp

text \<open>Updates of different keys commute.\<close>

lemma upds_commute:
  assumes "fst ` set a \<inter> fst ` set b = {}"
  shows "upds (upds m a) b = upds (upds m b) a"
proof (rule fmap_ext)
  fix k
  have "map_of (rev a) k = None \<or> map_of (rev b) k = None"
    using assms by (auto simp: map_of_eq_None_iff)
  then show "fmlookup (upds (upds m a) b) k = fmlookup (upds (upds m b) a) k"
    by (auto simp: fmlookup_upds split: option.splits)
qed

lemma set_all_upds [simp]: "mt_Data (mt_repo (set_all kvs tx)) = upds (mt_Data (mt_repo tx)) kvs"
  "mt_mu (mt_repo (set_all kvs tx)) = mt_mu (mt_repo tx)" "mt_writable (set_all kvs tx) = mt_writable tx"
  by (induction kvs arbitrary: tx) (auto simp: set_all_def Mtcs_Set_def)

text \<open>An update closure that returns, on a free map.\<close>

lemma Mtcs_Update_idle:
  assumes "mt_mu r = RWMutex_zero"
    and "fn \<lparr>mt_repo = r\<lparr>mt_mu := \<lparr>readers = 0, writer = True\<rparr>\<rparr>, mt_writable = True\<rparr> = Ret (e, tx)"
    and "mt_mu (mt_repo tx) = \<lparr>readers = 0, writer = True\<rparr>" and "mt_writable tx"
  shows "Mtcs_Update fn r = Ret (None, \<lparr>mt_mu = RWMutex_zero, mt_Data = mt_Data (mt_repo tx)\<rparr>)"
  using assms
  by (cases r; cases "mt_repo tx")
    (simp add: Mtcs_Update_def Mtcs_managed_def Mtcs_Begin_def Mtcs_Lock_def Mtcs_Unlock_def RWMutex_zero_def mu_Lock_def mu_Unlock_def)

lemma Mtcs_Update_panics:
  assumes "mt_mu r = RWMutex_zero"
    and "fn \<lparr>mt_repo = r\<lparr>mt_mu := \<lparr>readers = 0, writer = True\<rparr>\<rparr>, mt_writable = True\<rparr> = Panic p"
  shows "Mtcs_Update fn r = Panic p"
  using assms
  by (simp add: Mtcs_Update_def Mtcs_managed_def Mtcs_Begin_def Mtcs_Lock_def RWMutex_zero_def mu_Lock_def)

definition core_values :: "float64 list \<Rightarrow> nat \<Rightarrow> nat \<Rightarrow> (string \<times> float64) list" where
  "core_values cs i n = map (\<lambda>j. (''CPUutilization'' @ show_nat (j + 1), cs ! j)) [i..<i + n]"

lemma core_loop_eq:
  "core_loop cs i n tx = (if n = 0 \<or> i + n \<le> length cs then Ret (set_all (core_values cs i n) tx)
     else Panic ''runtime error: index out of range'')"
proof (induction cs i n tx rule: core_loop.induct)
  case (2 cs i n tx)
  have "core_values cs i (Suc n) = (''CPUutilization'' @ show_nat (i + 1), cs ! i) # core_values cs (Suc i) n"
    by (simp add: core_values_def upt_conv_Cons del: upt_Suc)
  with 2 show ?case by (auto simp: set_all_def)
qed (simp add: set_all_def core_values_def)

definition gops_values :: "Reading \<Rightarrow> nat \<Rightarrow> (string \<times> float64) list" where
  "gops_values rd n = (case rd_mem rd of None \<Rightarrow> [] | Some (a, f) \<Rightarrow>
     (''TotalMemory'', f64_of_uint (unat a)) # (''FreeMemory'', f64_of_uint (unat f)) # core_values (rd_cores rd) 0 n)"

text \<open>A reading the collector can take: memory known, a utilization for every core.\<close>

definition readable :: "Reading \<Rightarrow> Collector \<Rightarrow> bool" where
  "readable rd c \<longleftrightarrow> rd_mem rd \<noteq> None \<and> nat (cl_cpuCores c) \<le> length (rd_cores rd)"

definition effect :: "Reading \<Rightarrow> nat \<Rightarrow> reader \<Rightarrow> float64 gomap \<times> int64 gomap \<Rightarrow> float64 gomap \<times> int64 gomap" where
  "effect rd n k gk =
     (case k of
        Gops \<Rightarrow> (upds (fst gk) (gops_values rd n), snd gk)
      | Runtime \<Rightarrow> (upds (fst gk) (runtime_values (rd_stats rd) (rd_rand rd)), snd gk)
      | Counters \<Rightarrow> (fst gk, fmupd ''PollCount'' 1 (snd gk)))"

lemma run_reader_eq:
  assumes "cl_idle c" and "k = Gops \<longrightarrow> readable rd c"
  shows "run_reader rd k c =
    (case effect rd (nat (cl_cpuCores c)) k (gauges_of c, counters_of c) of (g, n) \<Rightarrow> Ret (put g n c))"
proof -
  show ?thesis
  proof (cases k)
    case Gops
    then obtain a f where mem: "rd_mem rd = Some (a, f)" using assms(2) by (auto simp: readable_def)
    have core: "core_loop (rd_cores rd) 0 (nat (cl_cpuCores c)) tx = Ret (set_all (core_values (rd_cores rd) 0 (nat (cl_cpuCores c))) tx)" for tx
      using Gops assms(2) by (simp add: core_loop_eq readable_def)
    from Gops show ?thesis
      using assms(1) mem core
      by (cases c; cases "cl_Repo c")
        (simp add: run_reader_def GopsStats_def update_gauge_map_def Mtcs_Update_idle Mtcs_Set_def effect_def gops_values_def
          cl_idle_def gauges_of_def counters_of_def put_def)
  next
    case Runtime
    then show ?thesis
      using assms(1)
      by (cases c; cases "cl_Repo c")
        (simp add: run_reader_def RuntimeStats_def update_gauge_map_def Mtcs_Update_idle effect_def
          cl_idle_def gauges_of_def counters_of_def put_def del: upds_simps)
  next
    case Counters
    then show ?thesis
      using assms(1)
      by (cases c; cases "cl_Repo c")
        (simp add: run_reader_def UpdateCounters_def Mtcs_Update_idle Mtcs_Set_def effect_def
          cl_idle_def gauges_of_def counters_of_def put_def)
  qed
qed

lemma Gops_panics:
  assumes idle: "cl_idle c" and n: "\<not> readable rd c"
  shows "\<exists>p. run_reader rd Gops c = Panic p"
proof (cases "rd_mem rd")
  case None
  with idle show ?thesis by (simp add: run_reader_def GopsStats_def update_gauge_map_def Mtcs_Update_panics cl_idle_def)
next
  case (Some ab)
  obtain a b where ab: "ab = (a, b)" by (cases ab)
  have "\<not> nat (cl_cpuCores c) \<le> length (rd_cores rd)" "nat (cl_cpuCores c) \<noteq> 0"
    using n Some by (auto simp: readable_def)
  with Some ab idle show ?thesis
    by (simp add: run_reader_def GopsStats_def update_gauge_map_def Mtcs_Update_panics cl_idle_def core_loop_eq)
qed

lemma Stats_panics:
  "cl_idle c \<Longrightarrow> \<not> readable rd c \<Longrightarrow> Gops \<in> set ks \<Longrightarrow> \<exists>p. Stats ks rd c = Panic p"
proof (induction ks arbitrary: c)
  case (Cons k ks)
  show ?case
  proof (cases "k = Gops")
    case True
    with Gops_panics [OF Cons.prems(1,2)] show ?thesis by auto
  next
    case False
    obtain g n where e: "effect rd (nat (cl_cpuCores c)) k (gauges_of c, counters_of c) = (g, n)" by fastforce
    have "\<not> readable rd (put g n c)" using Cons.prems by (simp add: readable_def)
    with Cons.IH [OF _ this] run_reader_eq [of c k rd] Cons.prems False e show ?thesis by simp
  qed
qed simp

section \<open>A poll\<close>

lemma Stats_eq:
  assumes "cl_idle c" and "readable rd c"
  shows "Stats ks rd c = (case foldl (\<lambda>gk k. effect rd (nat (cl_cpuCores c)) k gk) (gauges_of c, counters_of c) ks of (g, n) \<Rightarrow> Ret (put g n c))"
  using assms
proof (induction ks arbitrary: c)
  case Nil
  then show ?case by (simp add: put_same)
next
  case (Cons k ks)
  obtain g n where e: "effect rd (nat (cl_cpuCores c)) k (gauges_of c, counters_of c) = (g, n)" by fastforce
  have "readable rd (put g n c)" using Cons.prems by (simp add: readable_def)
  from Cons.IH [OF _ this] run_reader_eq [of c k rd] Cons.prems e show ?case by (simp split: prod.splits)
qed

lemma orders:
  assumes "distinct ks" and "set ks = {Gops, Runtime, Counters}"
  shows "ks \<in> {[Gops, Runtime, Counters], [Gops, Counters, Runtime], [Runtime, Gops, Counters],
    [Runtime, Counters, Gops], [Counters, Gops, Runtime], [Counters, Runtime, Gops]}"
proof -
  have "length ks = 3" using assms distinct_card [of ks] by simp
  then obtain a b d where "ks = [a, b, d]" by (auto simp: numeral_3_eq_3 length_Suc_conv)
  with assms show ?thesis by (cases a; cases b; cases d) auto
qed

lemma names_disjoint: "fst ` set (gops_values rd n) \<inter> fst ` set (runtime_values m r) = {}"
  by (auto simp: gops_values_def runtime_values_def core_values_def split: option.splits)

lemma poll_order:
  assumes "distinct ks" and "set ks = {Gops, Runtime, Counters}"
  shows "foldl (\<lambda>gk k. effect rd n k gk) (g, c) ks =
    (upds (upds g (gops_values rd n)) (runtime_values (rd_stats rd) (rd_rand rd)), fmupd ''PollCount'' 1 c)"
  using orders [OF assms] upds_commute [OF names_disjoint [of rd n "rd_stats rd" "rd_rand rd"], of g]
  by (auto simp: effect_def simp del: upds_simps)

text \<open>A concrete reading for the examples: every counter zero, one core.\<close>

definition test_reading :: Reading where
  "test_reading = \<lparr>rd_mem = Some (1024, 512), rd_cores = [0],
     rd_stats = MemStats.make 0 0 0 0 0 0 0 0 0 0 0 0 0 0 0 0 0 0 0 0 0 0 0 0 0 0 0, rd_rand = 0\<rparr>"

lemma New_idle: "cl_idle (New n i)" "gauges_of (New n i) = fmempty" "counters_of (New n i) = fmempty" "cl_cpuCores (New n i) = n"
  by (simp_all add: New_def cl_idle_def gauges_of_def counters_of_def)

text \<open>
  What a poll reports, written out by name: the 64-bit fields of \<open>runtime.MemStats\<close>, in
  alphabetical order, and the other names.
\<close>

definition stat_gauges :: "(string \<times> (MemStats \<Rightarrow> 64 word)) list" where
  "stat_gauges =
     [(''Alloc'', ms_Alloc), (''BuckHashSys'', ms_BuckHashSys), (''Frees'', ms_Frees), (''GCSys'', ms_GCSys),
      (''HeapAlloc'', ms_HeapAlloc), (''HeapIdle'', ms_HeapIdle), (''HeapInuse'', ms_HeapInuse), (''HeapObjects'', ms_HeapObjects),
      (''HeapReleased'', ms_HeapReleased), (''HeapSys'', ms_HeapSys), (''LastGC'', ms_LastGC), (''Lookups'', ms_Lookups),
      (''MCacheInuse'', ms_MCacheInuse), (''MCacheSys'', ms_MCacheSys), (''MSpanInuse'', ms_MSpanInuse), (''MSpanSys'', ms_MSpanSys),
      (''Mallocs'', ms_Mallocs), (''NextGC'', ms_NextGC), (''OtherSys'', ms_OtherSys), (''PauseTotalNs'', ms_PauseTotalNs),
      (''StackInuse'', ms_StackInuse), (''StackSys'', ms_StackSys), (''Sys'', ms_Sys), (''TotalAlloc'', ms_TotalAlloc)]"

definition other_gauges :: "string set" where
  "other_gauges = {''NumForcedGC'', ''NumGC'', ''GCCPUFraction'', ''RandomValue'', ''TotalMemory'', ''FreeMemory''}"

definition core_gauge :: "nat \<Rightarrow> string" where
  "core_gauge i = ''CPUutilization'' @ show_nat (i + 1)"

lemma show_nat_inj: "show_nat m = show_nat n \<longleftrightarrow> m = n"
  by (metis digits_val_show_nat)

lemma runtime_lookup:
  "(\<forall>(name, field) \<in> set stat_gauges. map_of (rev (runtime_values m r)) name = Some (f64_of_uint (unat (field m))))"
  "map_of (rev (runtime_values m r)) ''NumForcedGC'' = Some (f64_of_uint (unat (ms_NumForcedGC m)))"
  "map_of (rev (runtime_values m r)) ''NumGC'' = Some (f64_of_uint (unat (ms_NumGC m)))"
  "map_of (rev (runtime_values m r)) ''GCCPUFraction'' = Some (ms_GCCPUFraction m)"
  "map_of (rev (runtime_values m r)) ''RandomValue'' = Some (f64_add (f64_mul r 0x4059000000000000) 0x3FF0000000000000)"
  by (simp_all add: stat_gauges_def runtime_values_def RandomValue_def)

lemma gops_names:
  "fst ` set (gops_values rd n) \<subseteq> {''TotalMemory'', ''FreeMemory''} \<union> core_gauge ` {..<n}"
  by (auto simp: gops_values_def core_values_def core_gauge_def split: option.splits)

lemma runtime_names:
  "fst ` set (runtime_values m r) \<subseteq> fst ` set stat_gauges \<union> other_gauges"
  by (simp add: runtime_values_def stat_gauges_def other_gauges_def)

lemma gops_lookup:
  assumes "rd_mem rd = Some (all_bytes, free_bytes)"
  shows "map_of (rev (gops_values rd n)) ''TotalMemory'' = Some (f64_of_uint (unat all_bytes))"
    and "map_of (rev (gops_values rd n)) ''FreeMemory'' = Some (f64_of_uint (unat free_bytes))"
    and "i < n \<Longrightarrow> map_of (rev (gops_values rd n)) (core_gauge i) = Some (rd_cores rd ! i)"
proof -
  have "distinct (map fst (gops_values rd n))"
    using assms by (auto simp: gops_values_def core_values_def o_def distinct_map inj_on_def show_nat_inj)
  then have d: "distinct (map fst (rev (gops_values rd n)))" by (simp flip: rev_map)
  have mem: "(name, v) \<in> set (gops_values rd n) \<Longrightarrow> map_of (rev (gops_values rd n)) name = Some v" for name v
    using d by (intro map_of_is_SomeI) simp_all
  show "map_of (rev (gops_values rd n)) ''TotalMemory'' = Some (f64_of_uint (unat all_bytes))"
    "map_of (rev (gops_values rd n)) ''FreeMemory'' = Some (f64_of_uint (unat free_bytes))"
    by (rule mem, simp add: gops_values_def assms)+
  show "map_of (rev (gops_values rd n)) (core_gauge i) = Some (rd_cores rd ! i)" if "i < n"
    by (rule mem) (use that in \<open>auto simp: gops_values_def core_values_def core_gauge_def assms\<close>)
qed

lemma polled_gauges:
  fixes g :: "float64 gomap" and rd :: Reading and n :: nat
  assumes mem: "rd_mem rd = Some (all_bytes, free_bytes)"
  defines "g' \<equiv> upds (upds g (gops_values rd n)) (runtime_values (rd_stats rd) (rd_rand rd))"
  shows "\<forall>(name, field) \<in> set stat_gauges. fmlookup g' name = Some (f64_of_uint (unat (field (rd_stats rd))))"
    and "fmlookup g' ''NumForcedGC'' = Some (f64_of_uint (unat (ms_NumForcedGC (rd_stats rd))))"
    and "fmlookup g' ''NumGC'' = Some (f64_of_uint (unat (ms_NumGC (rd_stats rd))))"
    and "fmlookup g' ''GCCPUFraction'' = Some (ms_GCCPUFraction (rd_stats rd))"
    and "fmlookup g' ''RandomValue'' = Some (f64_add (f64_mul (rd_rand rd) 0x4059000000000000) 0x3FF0000000000000)"
    and "fmlookup g' ''TotalMemory'' = Some (f64_of_uint (unat all_bytes))"
    and "fmlookup g' ''FreeMemory'' = Some (f64_of_uint (unat free_bytes))"
    and "i < n \<Longrightarrow> fmlookup g' (core_gauge i) = Some (rd_cores rd ! i)"
    and "k \<notin> fst ` set stat_gauges \<Longrightarrow> k \<notin> other_gauges \<Longrightarrow> \<forall>j < n. k \<noteq> core_gauge j \<Longrightarrow> fmlookup g' k = fmlookup g k"
proof -
  let ?rv = "runtime_values (rd_stats rd) (rd_rand rd)" and ?gv = "gops_values rd n"
  have look: "fmlookup g' k = (case map_of (rev ?rv) k of
      None \<Rightarrow> (case map_of (rev ?gv) k of None \<Rightarrow> fmlookup g k | Some v \<Rightarrow> Some v) | Some v \<Rightarrow> Some v)" for k
    by (simp only: g'_def fmlookup_upds)
  have run: "map_of (rev ?rv) k = Some v \<Longrightarrow> fmlookup g' k = Some v" for k v by (simp add: look)
  have gop: "map_of (rev ?gv) k = Some v \<Longrightarrow> fmlookup g' k = Some v" for k v
  proof -
    assume v: "map_of (rev ?gv) k = Some v"
    from map_of_SomeD [OF this] have "k \<in> fst ` set ?gv" by force
    then have "k \<notin> fst ` set ?rv" using names_disjoint [of rd n "rd_stats rd" "rd_rand rd"] by blast
    then have "map_of (rev ?rv) k = None" by (simp add: map_of_eq_None_iff)
    with v show ?thesis by (simp add: look)
  qed
  show "\<forall>(name, field) \<in> set stat_gauges. fmlookup g' name = Some (f64_of_uint (unat (field (rd_stats rd))))"
    using runtime_lookup(1) [of "rd_stats rd" "rd_rand rd"] run by blast
  note runs = runtime_lookup(2-) [THEN run]
  show "fmlookup g' ''NumForcedGC'' = Some (f64_of_uint (unat (ms_NumForcedGC (rd_stats rd))))"
    "fmlookup g' ''NumGC'' = Some (f64_of_uint (unat (ms_NumGC (rd_stats rd))))"
    "fmlookup g' ''GCCPUFraction'' = Some (ms_GCCPUFraction (rd_stats rd))"
    "fmlookup g' ''RandomValue'' = Some (f64_add (f64_mul (rd_rand rd) 0x4059000000000000) 0x3FF0000000000000)"
    by (rule runs)+
  show "fmlookup g' ''TotalMemory'' = Some (f64_of_uint (unat all_bytes))"
    "fmlookup g' ''FreeMemory'' = Some (f64_of_uint (unat free_bytes))"
    "i < n \<Longrightarrow> fmlookup g' (core_gauge i) = Some (rd_cores rd ! i)"
    by (rule gop, rule gops_lookup [OF mem], assumption?)+
  show "fmlookup g' k = fmlookup g k" if "k \<notin> fst ` set stat_gauges" "k \<notin> other_gauges" "\<forall>j < n. k \<noteq> core_gauge j"
  proof -
    have "k \<notin> fst ` set ?rv" using runtime_names [of "rd_stats rd" "rd_rand rd"] that(1,2) by blast
    moreover have "k \<notin> fst ` set ?gv" using gops_names [of rd n] that(2,3) by (auto simp: other_gauges_def)
    ultimately have "map_of (rev ?rv) k = None" "map_of (rev ?gv) k = None" by (simp_all add: map_of_eq_None_iff)
    then show ?thesis by (simp add: look)
  qed
qed

text \<open>
  C19. A poll whose system calls succeed returns with both locks free, and all six orders in
  which its three goroutines can take effect leave the same maps: every field of
  \<open>runtime.MemStats\<close> that is read, the random value (100 times the random number plus 1),
  the total and the free memory and the utilization of each core under its own name, every other
  gauge as it was, and \<open>PollCount\<close> 1, whatever was counted before. A poll panics exactly
  when the memory reading failed or reports fewer utilizations than the cores counted at the
  start.
\<close>

theorem poll_any_order:
  assumes "cl_idle c" and "distinct ks" and "set ks = {Gops, Runtime, Counters}"
  shows "(readable rd c \<longrightarrow> (\<exists>c' all_bytes free_bytes. Stats ks rd c = Ret c' \<and> Stats [Gops, Runtime, Counters] rd c = Ret c' \<and> cl_idle c' \<and>
      counters_of c' = fmupd ''PollCount'' 1 (counters_of c) \<and>
      (\<forall>(name, field) \<in> set stat_gauges. fmlookup (gauges_of c') name = Some (f64_of_uint (unat (field (rd_stats rd))))) \<and>
      fmlookup (gauges_of c') ''NumForcedGC'' = Some (f64_of_uint (unat (ms_NumForcedGC (rd_stats rd)))) \<and>
      fmlookup (gauges_of c') ''NumGC'' = Some (f64_of_uint (unat (ms_NumGC (rd_stats rd)))) \<and>
      fmlookup (gauges_of c') ''GCCPUFraction'' = Some (ms_GCCPUFraction (rd_stats rd)) \<and>
      fmlookup (gauges_of c') ''RandomValue'' = Some (f64_add (f64_mul (rd_rand rd) 0x4059000000000000) 0x3FF0000000000000) \<and>
      rd_mem rd = Some (all_bytes, free_bytes) \<and>
      fmlookup (gauges_of c') ''TotalMemory'' = Some (f64_of_uint (unat all_bytes)) \<and>
      fmlookup (gauges_of c') ''FreeMemory'' = Some (f64_of_uint (unat free_bytes)) \<and>
      (\<forall>i < nat (cl_cpuCores c). fmlookup (gauges_of c') (''CPUutilization'' @ show_nat (i + 1)) = Some (rd_cores rd ! i)) \<and>
      (\<forall>k. k \<notin> fst ` set stat_gauges \<and> k \<notin> other_gauges \<and> (\<forall>i < nat (cl_cpuCores c). k \<noteq> ''CPUutilization'' @ show_nat (i + 1)) \<longrightarrow>
         fmlookup (gauges_of c') k = fmlookup (gauges_of c) k))) \<and>
    (\<not> readable rd c \<longrightarrow> (\<exists>p. Stats ks rd c = Panic p))"
proof (intro conjI impI)
  assume r: "readable rd c"
  then obtain all_bytes free_bytes where mem: "rd_mem rd = Some (all_bytes, free_bytes)" by (auto simp: readable_def)
  let ?n = "nat (cl_cpuCores c)" and ?rv = "runtime_values (rd_stats rd) (rd_rand rd)"
  let ?g = "upds (upds (gauges_of c) (gops_values rd ?n)) ?rv"
  let ?c' = "put ?g (fmupd ''PollCount'' 1 (counters_of c)) c"
  have "Stats ks rd c = Ret ?c'" "Stats [Gops, Runtime, Counters] rd c = Ret ?c'"
    using Stats_eq [OF assms(1) r, of ks] Stats_eq [OF assms(1) r, of "[Gops, Runtime, Counters]"]
      poll_order [OF assms(2,3), of rd ?n] poll_order [of "[Gops, Runtime, Counters]" rd ?n] by simp_all
  moreover note polled = polled_gauges [OF mem, where g = "gauges_of c" and n = ?n, unfolded core_gauge_def]
  moreover have "gauges_of ?c' = ?g" "counters_of ?c' = fmupd ''PollCount'' 1 (counters_of c)" "cl_idle ?c'" by simp_all
  ultimately show "\<exists>c' all_bytes free_bytes. Stats ks rd c = Ret c' \<and> Stats [Gops, Runtime, Counters] rd c = Ret c' \<and> cl_idle c' \<and>
      counters_of c' = fmupd ''PollCount'' 1 (counters_of c) \<and>
      (\<forall>(name, field) \<in> set stat_gauges. fmlookup (gauges_of c') name = Some (f64_of_uint (unat (field (rd_stats rd))))) \<and>
      fmlookup (gauges_of c') ''NumForcedGC'' = Some (f64_of_uint (unat (ms_NumForcedGC (rd_stats rd)))) \<and>
      fmlookup (gauges_of c') ''NumGC'' = Some (f64_of_uint (unat (ms_NumGC (rd_stats rd)))) \<and>
      fmlookup (gauges_of c') ''GCCPUFraction'' = Some (ms_GCCPUFraction (rd_stats rd)) \<and>
      fmlookup (gauges_of c') ''RandomValue'' = Some (f64_add (f64_mul (rd_rand rd) 0x4059000000000000) 0x3FF0000000000000) \<and>
      rd_mem rd = Some (all_bytes, free_bytes) \<and>
      fmlookup (gauges_of c') ''TotalMemory'' = Some (f64_of_uint (unat all_bytes)) \<and>
      fmlookup (gauges_of c') ''FreeMemory'' = Some (f64_of_uint (unat free_bytes)) \<and>
      (\<forall>i < nat (cl_cpuCores c). fmlookup (gauges_of c') (''CPUutilization'' @ show_nat (i + 1)) = Some (rd_cores rd ! i)) \<and>
      (\<forall>k. k \<notin> fst ` set stat_gauges \<and> k \<notin> other_gauges \<and> (\<forall>i < nat (cl_cpuCores c). k \<noteq> ''CPUutilization'' @ show_nat (i + 1)) \<longrightarrow>
         fmlookup (gauges_of c') k = fmlookup (gauges_of c) k)"
    using mem by (intro exI [of _ ?c'] exI [of _ all_bytes] exI [of _ free_bytes] conjI allI impI; (elim conjE)?) (simp_all only:)
next
  assume r: "\<not> readable rd c"
  show "\<exists>p. Stats ks rd c = Panic p"
    using Stats_panics [OF assms(1) r] assms(3) by auto
qed

theorem poll_any_order_witness:
  "(\<exists>c'. Stats [Counters, Runtime, Gops] test_reading (New 1 2) = Ret c' \<and> Stats [Gops, Runtime, Counters] test_reading (New 1 2) = Ret c' \<and>
     fmlookup (counters_of c') ''PollCount'' = Some 1) \<and>
   (\<exists>p. Stats [Counters, Runtime, Gops] test_reading (New 2 2) = Panic p)"
proof
  have "distinct [Counters, Runtime, Gops]" "set [Counters, Runtime, Gops] = {Gops, Runtime, Counters}" by auto
  note inst = poll_any_order [OF New_idle(1) this, of test_reading]
  show "\<exists>c'. Stats [Counters, Runtime, Gops] test_reading (New 1 2) = Ret c' \<and> Stats [Gops, Runtime, Counters] test_reading (New 1 2) = Ret c' \<and>
     fmlookup (counters_of c') ''PollCount'' = Some 1"
    using inst [of 1 2] by (auto simp: readable_def test_reading_def New_idle(4))
  show "\<exists>p. Stats [Counters, Runtime, Gops] test_reading (New 2 2) = Panic p"
    using inst [of 2 2] by (auto simp: readable_def test_reading_def New_idle(4))
qed

section \<open>Any number of polls\<close>

text \<open>
  What the runtime promises of a reading: utilizations and the GC fraction are finite numbers
  and the random number lies below 1.
\<close>

definition sane :: "Reading \<Rightarrow> bool" where
  "sane rd \<longleftrightarrow> (\<forall>u \<in> set (rd_cores rd). is_finite u) \<and> is_finite (ms_GCCPUFraction (rd_stats rd)) \<and>
     f64_mag (rd_rand rd) < 0x3FF0000000000000"

definition finite_gauges :: "float64 gomap \<Rightarrow> bool" where
  "finite_gauges g \<longleftrightarrow> (\<forall>k v. fmlookup g k = Some v \<longrightarrow> is_finite v)"

lemma finite_upds: "finite_gauges g \<Longrightarrow> (\<forall>v \<in> snd ` set kvs. is_finite v) \<Longrightarrow> finite_gauges (upds g kvs)"
proof (induction kvs arbitrary: g)
  case (Cons kv kvs)
  obtain k v where kv: "kv = (k, v)" by (cases kv)
  have "finite_gauges (fmupd k v g)"
    using Cons.prems kv by (auto simp: finite_gauges_def split: if_splits)
  with Cons kv show ?case by simp
qed simp

lemma finite_RandomValue:
  assumes "f64_mag r < 0x3FF0000000000000"
  shows "is_finite (RandomValue r)"
proof -
  have r: "is_finite r" using assms by (simp add: is_finite_def mag_inf_def)
  have "f64_mag r < nat 1023 * 2 ^ 52" using assms by simp
  from val_mag_below [OF this] have v: "val (mag_value (f64_mag r)) < 2 powi 0" by simp
  have c: "is_finite 0x4059000000000000" "f64_mag 0x4059000000000000 < nat 1030 * 2 ^ 52"
    "is_finite 0x3FF0000000000000" "f64_mag 0x3FF0000000000000 < nat 1024 * 2 ^ 52"
    by (simp_all add: is_finite_def f64_mag_def mag_inf_def)
  from val_mag_below [OF c(2)] have h: "val (mag_value (f64_mag 0x4059000000000000)) < 2 powi 7" by simp
  note m = finite_f64_mul [OF r c(1) v h]
  have "val (mag_value (f64_mag 0x3FF0000000000000)) < 2 powi 1" using val_mag_below [OF c(4)] by simp
  also have "(2 powi 1 :: real) \<le> 2 powi 8" by (rule power_int_increasing) simp_all
  finally have one: "val (mag_value (f64_mag 0x3FF0000000000000)) < 2 powi 8" .
  show ?thesis unfolding RandomValue_def
    by (rule finite_f64_add [OF m(1) c(3) _ one]) (use m(3) in simp_all)
qed

lemma finite_runtime: "sane rd \<Longrightarrow> \<forall>v \<in> snd ` set (runtime_values (rd_stats rd) (rd_rand rd)). is_finite v"
proof -
  assume rd: "sane rd"
  have w: "is_finite (f64_of_uint (unat (x :: 64 word)))" "is_finite (f64_of_uint (unat (y :: 32 word)))" for x y
  proof -
    show "is_finite (f64_of_uint (unat x))" using unsigned_less [of x] by (intro finite_f64_of_uint) simp
    have "unat y < 2 ^ 32" using unsigned_less [of y] by simp
    then show "is_finite (f64_of_uint (unat y))" by (intro finite_f64_of_uint) simp
  qed
  show ?thesis using rd finite_RandomValue [of "rd_rand rd"]
    by (simp add: runtime_values_def w sane_def del: One_nat_def)
qed

lemma finite_gops: "sane rd \<Longrightarrow> n \<le> length (rd_cores rd) \<Longrightarrow> \<forall>v \<in> snd ` set (gops_values rd n). is_finite v"
proof -
  assume rd: "sane rd" and n: "n \<le> length (rd_cores rd)"
  have w: "is_finite (f64_of_uint (unat (x :: 64 word)))" for x
    using unsigned_less [of x] by (intro finite_f64_of_uint) simp
  have "is_finite (rd_cores rd ! j)" if "j < n" for j using rd n that by (simp add: sane_def)
  then show ?thesis by (auto simp: gops_values_def core_values_def w split: option.splits)
qed

definition poll_state_ok :: "Collector \<Rightarrow> bool" where
  "poll_state_ok c \<longleftrightarrow> cl_idle c \<and> finite_gauges (gauges_of c) \<and> counters_of c \<in> {fmempty, fmupd ''PollCount'' 1 fmempty}"

text \<open>A poll that returns had a readable reading, and leaves its values.\<close>

lemma Stats_put:
  assumes "cl_idle c" and "Stats ks rd c = Ret c'" and "distinct ks" and "set ks = {Gops, Runtime, Counters}"
  shows "readable rd c"
    and "c' = put (upds (upds (gauges_of c) (gops_values rd (nat (cl_cpuCores c)))) (runtime_values (rd_stats rd) (rd_rand rd)))
      (fmupd ''PollCount'' 1 (counters_of c)) c"
proof -
  show r: "readable rd c"
  proof (rule ccontr)
    assume "\<not> readable rd c"
    have "Gops \<in> set ks" using assms(4) by simp
    from Stats_panics [OF assms(1) \<open>\<not> readable rd c\<close> this] assms(2) show False by auto
  qed
  show "c' = put (upds (upds (gauges_of c) (gops_values rd (nat (cl_cpuCores c)))) (runtime_values (rd_stats rd) (rd_rand rd)))
      (fmupd ''PollCount'' 1 (counters_of c)) c"
    using Stats_eq [OF assms(1) r, of ks] poll_order [OF assms(3,4), of rd] assms(2) by simp
qed

lemma Stats_ok:
  assumes "poll_state_ok c" and "sane rd" and "Stats ks rd c = Ret c'"
    and "distinct ks" and "set ks = {Gops, Runtime, Counters}"
  shows "poll_state_ok c'" "counters_of c' = fmupd ''PollCount'' 1 fmempty" "cl_cpuCores c' = cl_cpuCores c"
proof -
  have idle: "cl_idle c" using assms(1) by (simp add: poll_state_ok_def)
  let ?n = "nat (cl_cpuCores c)"
  note r = Stats_put(1) [OF idle assms(3-5)] and c' = Stats_put(2) [OF idle assms(3-5)]
  have "finite_gauges (upds (upds (gauges_of c) (gops_values rd ?n)) (runtime_values (rd_stats rd) (rd_rand rd)))"
    using assms(1) r finite_gops [OF assms(2), of ?n] finite_runtime [OF assms(2)]
    by (intro finite_upds) (simp_all add: poll_state_ok_def readable_def)
  moreover have "fmupd ''PollCount'' 1 (counters_of c) = fmupd ''PollCount'' 1 fmempty"
    using assms(1) by (auto simp: poll_state_ok_def)
  ultimately show "poll_state_ok c'" "counters_of c' = fmupd ''PollCount'' 1 fmempty" "cl_cpuCores c' = cl_cpuCores c"
    by (simp_all add: c' poll_state_ok_def)
qed

definition ticks_ok :: "monitor_event list \<Rightarrow> bool" where
  "ticks_ok evs \<longleftrightarrow> (\<forall>ev \<in> set evs. case ev of
     PollTick ks rd \<Rightarrow> distinct ks \<and> set ks = {Gops, Runtime, Counters} \<and> sane rd | Stop \<Rightarrow> True)"

lemma Monitor_ok:
  "Monitor evs c = Ret (e, c') \<Longrightarrow> ticks_ok evs \<Longrightarrow> poll_state_ok c \<Longrightarrow>
   poll_state_ok c' \<and> Stop \<in> set evs \<and> (c' = c \<or> counters_of c' = fmupd ''PollCount'' 1 fmempty)"
proof (induction evs c rule: Monitor.induct)
  case (3 ks rd evs c)
  then obtain c1 where c1: "Stats ks rd c = Ret c1" "Monitor evs c1 = Ret (e, c')" by auto
  have s: "poll_state_ok c1" "counters_of c1 = fmupd ''PollCount'' 1 fmempty"
    using Stats_ok [OF 3(4) _ c1(1)] 3(3) by (auto simp: ticks_ok_def)
  from 3(1) [OF c1(2) _ s(1)] 3(3) s(2) show ?case by (auto simp: ticks_ok_def)
qed auto

text \<open>
  C20. However many polls the agent makes of a sane system before it is stopped, and in
  whatever order their readers run, both locks are free between polls, every gauge is a finite
  number (so every report has a JSON form), and the only counter is \<open>PollCount\<close> with the
  value 1: the polls are not counted.
\<close>

theorem polls_invariant:
  assumes "Monitor evs (New cores i) = Ret (e, c)" and "ticks_ok evs"
  shows "cl_idle c \<and> finite_gauges (gauges_of c) \<and> counters_of c \<in> {fmempty, fmupd ''PollCount'' 1 fmempty} \<and> Stop \<in> set evs"
proof -
  have "poll_state_ok (New cores i)" by (simp add: poll_state_ok_def New_idle finite_gauges_def)
  from Monitor_ok [OF assms this] show ?thesis by (auto simp: poll_state_ok_def)
qed

theorem polls_invariant_witness:
  "\<exists>e c. Monitor [PollTick [Runtime, Counters, Gops] test_reading, PollTick [Gops, Runtime, Counters] test_reading, Stop] (New 1 2) = Ret (e, c) \<and>
     finite_gauges (gauges_of c) \<and> counters_of c \<in> {fmempty, fmupd ''PollCount'' 1 fmempty}"
proof -
  let ?evs = "[PollTick [Runtime, Counters, Gops] test_reading, PollTick [Gops, Runtime, Counters] test_reading, Stop]"
  have ok: "ticks_ok ?evs"
    by (auto simp: ticks_ok_def sane_def test_reading_def MemStats.make_def is_finite_def f64_mag_def mag_inf_def)
  have r: "readable test_reading c" if "cl_cpuCores c = 1" for c using that by (simp add: readable_def test_reading_def)
  obtain e c where "Monitor ?evs (New 1 2) = Ret (e, c)"
    using Stats_eq [OF New_idle(1) r, of 1 2] Stats_eq [OF mput_simps(3) r] by (fastforce simp: New_idle(4) split: prod.splits simp del: Stats.simps)
  with polls_invariant [OF this ok] show ?thesis by blast
qed

end
