(* ===== verification/Monclient_Facts.thy ===== *)
theory Monclient_Facts
  imports Monclient Monserv_Facts Collector_Facts
begin

text \<open>
  What the agent sends and what becomes of it: the body of a report, and the way of a report
  through the agent's encryption, compression and signature and the server's middlewares into
  the store.
\<close>

section \<open>Bodies\<close>

definition named :: "(string \<times> 'v) list \<Rightarrow> bool" where
  "named kvs \<longleftrightarrow> (\<forall>k \<in> fst ` set kvs. k \<noteq> [] \<and> utf8_name k)"

lemma record_types: "''gauge'' = GaugeType" "''counter'' = CounterType"
  by (simp_all add: GaugeType_def CounterType_def)

lemma marshal_batch_elems_Inr:
  "(\<exists>b. marshal_batch_elems ms = Inr b) \<longleftrightarrow> (\<forall>m \<in> set ms. \<exists>b. marshal_Metrics m = Inr b)"
  by (induction ms) (auto split: sum.splits)

lemma marshal_Metrics_Inr:
  "(\<exists>b. marshal_Metrics m = Inr b) \<longleftrightarrow> (\<forall>v. Value m = Some v \<longrightarrow> is_finite v)"
  by (auto simp: marshal_Metrics_def Let_def json_float_def split: option.splits if_splits)

lemma batch_records_marshal:
  "(\<exists>b. marshal_batch (batch_records gkvs ckvs) = Inr b) \<longleftrightarrow> (\<forall>v \<in> snd ` set gkvs. is_finite v)"
proof -
  have "(\<exists>b. marshal_batch ms = Inr b) \<longleftrightarrow> (\<forall>m \<in> set ms. \<forall>v. Value m = Some v \<longrightarrow> is_finite v)" for ms
    using marshal_batch_elems_Inr [of ms] by (auto simp: marshal_batch_def marshal_Metrics_Inr split: sum.splits)
  then show ?thesis by (simp add: batch_records_def Metrics_zero_def ball_Un split_beta)
qed

lemma batch_records_utf8: "named gkvs \<Longrightarrow> named ckvs \<Longrightarrow> \<forall>m \<in> set (batch_records gkvs ckvs). utf8_metrics m"
  by (auto simp: batch_records_def named_def utf8_metrics_def record_types type_utf8 split: prod.splits)

lemma batch_records_SValue: "map (\<lambda>m. m\<lparr>SValue := []\<rparr>) (batch_records gkvs ckvs) = batch_records gkvs ckvs"
  by (auto simp: batch_records_def Metrics_zero_def)

text \<open>A report, applied record by record.\<close>

lemma apply_gauge_records:
  "named gkvs \<Longrightarrow> foldl apply_record (g, c) (map (\<lambda>(k, v). Metrics_zero\<lparr>ID := k, MType := ''gauge'', Value := Some v\<rparr>) gkvs) =
    (foldl (upd_entry (\<lambda>_ v. v)) g gkvs, c)"
proof (induction gkvs arbitrary: g)
  case (Cons kv gkvs)
  then show ?case
    by (cases kv) (auto simp: named_def apply_record_def spec_update_def Metrics_zero_def GaugeType_def upd_entry_def)
qed simp

lemma apply_counter_records:
  "named ckvs \<Longrightarrow> foldl apply_record (g, c) (map (\<lambda>(k, d). Metrics_zero\<lparr>ID := k, MType := ''counter'', Delta := Some d\<rparr>) ckvs) =
    (g, foldl (\<lambda>m kv. add_counter (fst kv) (snd kv) m) c ckvs)"
proof (induction ckvs arbitrary: c)
  case (Cons kv ckvs)
  then show ?case
    by (cases kv) (auto simp: named_def apply_record_def spec_update_def Metrics_zero_def GaugeType_def CounterType_def)
qed simp

lemma foldl_enum_upds: "enumerates kvs d \<Longrightarrow> foldl (upd_entry (\<lambda>_ v. v)) g kvs = fmadd g d"
  by (intro fmap_ext) (simp add: foldl_upd_entry_enum split: option.splits)

lemma batch_records_spec:
  assumes "named gkvs" and "named ckvs" and "gkvs \<noteq> [] \<or> ckvs \<noteq> []"
    and "enumerates gkvs gm" and "enumerates ckvs cm"
  shows "spec_batch (batch_records gkvs ckvs) (g, c) = Ret (200, (fmadd g gm, add_counters cm c))"
proof -
  have rec: "usable m \<and> complete m" if "m \<in> set (batch_records gkvs ckvs)" for m
    using that assms(1,2)
    by (auto simp: batch_records_def named_def usable_def complete_def Metrics_zero_def GaugeType_def CounterType_def)
  then have all: "filter usable (batch_records gkvs ckvs) = batch_records gkvs ckvs" by (simp add: filter_id_conv)
  have "foldl apply_record (g, c) (batch_records gkvs ckvs) = (fmadd g gm, add_counters cm c)"
    using assms by (simp add: batch_records_def apply_gauge_records apply_counter_records foldl_enum_upds add_counters_seq)
  moreover have "batch_records gkvs ckvs \<noteq> []" using assms(3) by (auto simp: batch_records_def)
  moreover have "\<not> (\<exists>m \<in> set (batch_records gkvs ckvs). usable m \<and> \<not> complete m)" using rec by blast
  ultimately show ?thesis by (simp add: spec_batch_def all)
qed

text \<open>
  C37. The body of a report is the JSON of all its metrics and decodes to them; the agent's
  process ends (\<open>log.Fatal\<close>) exactly when some gauge is not a finite number, so one such
  gauge loses every metric. Nothing is built from an empty report.
\<close>

theorem report_body:
  assumes "named gkvs" and "named ckvs" and "gkvs \<noteq> [] \<or> ckvs \<noteq> []"
  shows "((\<forall>v \<in> snd ` set gkvs. is_finite v) \<longrightarrow>
      (\<exists>b. buildReqBatchBody gkvs ckvs = Ret b \<and> unmarshal_batch b = (None, batch_records gkvs ckvs))) \<and>
    ((\<exists>v \<in> snd ` set gkvs. \<not> is_finite v) \<longrightarrow> (\<exists>p. buildReqBatchBody gkvs ckvs = Panic p)) \<and>
    buildReqBatchBody [] [] = Ret []"
proof (intro conjI impI)
  assume "\<forall>v \<in> snd ` set gkvs. is_finite v"
  then obtain b where b: "marshal_batch (batch_records gkvs ckvs) = Inr b" using batch_records_marshal by blast
  from decode_batch_text [OF b batch_records_utf8 [OF assms(1,2)]] batch_records_SValue
  show "\<exists>b. buildReqBatchBody gkvs ckvs = Ret b \<and> unmarshal_batch b = (None, batch_records gkvs ckvs)"
    using b assms(3) by (auto simp: buildReqBatchBody_def)
next
  assume "\<exists>v \<in> snd ` set gkvs. \<not> is_finite v"
  then have "\<nexists>b. marshal_batch (batch_records gkvs ckvs) = Inr b" using batch_records_marshal by blast
  then obtain e where "marshal_batch (batch_records gkvs ckvs) = Inl e" by (cases "marshal_batch (batch_records gkvs ckvs)") auto
  then show "\<exists>p. buildReqBatchBody gkvs ckvs = Panic p" using assms(3) by (simp add: buildReqBatchBody_def)
qed (simp add: buildReqBatchBody_def)

theorem report_body_witness:
  "(\<exists>b. buildReqBatchBody [(''a'', 0)] [(''c'', 1)] = Ret b \<and> unmarshal_batch b = (None, batch_records [(''a'', 0)] [(''c'', 1)])) \<and>
   (\<exists>p. buildReqBatchBody [(''a'', 0), (''b'', f64_nan)] [(''c'', 1)] = Panic p)"
proof -
  have n: "named [(''a'', 0)]" "named [(''c'', 1 :: int64)]" "named [(''a'', 0), (''b'', f64_nan)]"
    by (simp_all add: named_def utf8_name_def)
  have f: "is_finite 0" "\<not> is_finite f64_nan" by code_simp+
  show ?thesis
    using report_body [OF n(1,2)] report_body [OF n(3,2)] f by simp
qed

section \<open>The way of a report\<close>

text \<open>What one side compresses the other reads back.\<close>

definition gz_pair :: "'z Gzip \<Rightarrow> 'y Gzip \<Rightarrow> bool" where
  "gz_pair gzc gzs \<longleftrightarrow> (\<forall>p. gz_NewReader gzs (gzip_bytes gzc p, None) = Inr (p, None, None))"

text \<open>Both sides use no key pair, or a matching one of 2048 bits that encrypts.\<close>

definition keys_match :: "('pub, 'priv) Crypto \<Rightarrow> Entropy \<Rightarrow> 'pub option \<Rightarrow> 'priv option \<Rightarrow> bytes \<Rightarrow> bool" where
  "keys_match cr rnd pub priv p \<longleftrightarrow>
     (case (pub, priv) of
        (None, None) \<Rightarrow> True
      | (Some k, Some k') \<Rightarrow> crypto_laws cr k k' \<and> rsa_Size cr k = encKeySize \<and> entropy_ok rnd \<and> (\<exists>c. EncryptMsg cr rnd k p = Inr c)
      | _ \<Rightarrow> False)"

lemma post_headers_get:
  "hdr_Get ''Content-Encoding'' (post_headers s) = ''gzip''"
  "hdr_Get ''Content-Type'' (post_headers s) = ''application/json; charset=utf-8''"
  "hdr_Get ''HashSHA256'' (post_headers s) = (case s of None \<Rightarrow> [] | Some x \<Rightarrow> x)"
  by (simp_all add: post_headers_def hdr_Get_Set split: option.splits)

lemma contains_gzip: "Contains ''gzip'' ''gzip''" "Contains ''application/json; charset=utf-8'' ''application/json''"
  by code_simp+

text \<open>The server admits a posted request and hands the handler the posted body.\<close>

lemma post_encrypted:
  assumes "keys_match cr rnd pub ck p"
  obtains p1 where "(case pub of None \<Rightarrow> Ret p
      | Some k \<Rightarrow> (case EncryptMsg cr rnd k p of Inl e \<Rightarrow> Panic ''log.Fatal'' | Inr c \<Rightarrow> Ret c)) = Ret p1"
    and "\<forall>r. content (rBody r) = p1 \<longrightarrow> read_err (rBody r) = None \<longrightarrow>
      (\<exists>b. decrypted cr ck r = Ret (None, r\<lparr>rBody := b\<rparr>) \<and> content b = p \<and> read_err b = None)"
proof (cases pub)
  case None
  then have "ck = None" using assms by (auto simp: keys_match_def split: option.splits)
  with None show ?thesis by (intro that [of p]) (auto simp: decrypted_def intro!: exI)
next
  case (Some k)
  then obtain k' c where k: "ck = Some k'" "crypto_laws cr k k'" "rsa_Size cr k = encKeySize" "entropy_ok rnd" "EncryptMsg cr rnd k p = Inr c"
    using assms by (auto simp: keys_match_def split: option.splits)
  from decrypt_encrypt [OF k(2-5)] have "DecryptMsg cr k' c = Ret (Inr p)" .
  with Some k show ?thesis by (intro that [of c]) (auto simp: decrypted_def NopCloser_def intro!: exI)
qed

lemma post_request_Ret:
  assumes "keys_match cr rnd (mc_cryptoKey m) ck p"
  shows "\<exists>url req m'. post_request gz hmac cr rnd m p path = Ret ((url, req), m')"
proof -
  obtain p1 where "(case mc_cryptoKey m of None \<Rightarrow> Ret p
      | Some k \<Rightarrow> (case EncryptMsg cr rnd k p of Inl e \<Rightarrow> Panic ''log.Fatal'' | Inr c \<Rightarrow> Ret c)) = Ret p1"
    by (rule post_encrypted [OF assms])
  then show ?thesis by (simp add: post_request_def Let_def split: prod.splits)
qed

lemma post_request_shape:
  assumes "post_request gz hmac cr rnd m p path = Ret ((url, req), m')"
    and "mc_h m = (if akey = [] then None else Some (akey, []))"
  obtains p1 where "(case mc_cryptoKey m of None \<Rightarrow> Ret p
      | Some k \<Rightarrow> (case EncryptMsg cr rnd k p of Inl e \<Rightarrow> Panic ''log.Fatal'' | Inr c \<Rightarrow> Ret c)) = Ret p1"
    and "req = \<lparr>Method = ''POST'', URLParams = fmempty,
      rHeader = post_headers (if akey = [] then None else Some (b64_encode (hmac akey p1))), rBody = NopCloser (gzip_bytes gz p1)\<rparr>"
    and "url = mc_addr m @ path" and "m' = m"
proof -
  obtain p1 where p1: "(case mc_cryptoKey m of None \<Rightarrow> Ret p
      | Some k \<Rightarrow> (case EncryptMsg cr rnd k p of Inl e \<Rightarrow> Panic ''log.Fatal'' | Inr c \<Rightarrow> Ret c)) = Ret p1"
    using assms(1) by (auto simp: post_request_def)
  with assms that show ?thesis
    by (cases m) (auto simp: post_request_def Let_def split: if_splits)
qed

lemma post_admitted:
  assumes "gz_pair gz (lib_gz lib)" and "keys_match (lib_crypto lib) rnd (mc_cryptoKey m) ck p"
    and "mc_h m = (if akey = [] then None else Some (akey, []))" and "akey = [] \<or> skey = [] \<or> akey = skey"
    and "post_request gz (lib_hmac lib) (lib_crypto lib) rnd m p path = Ret ((url, req), m')"
  shows "\<exists>req'. admit lib skey ck (req\<lparr>URLParams := params\<rparr>) = Ret (Inr (None, req')) \<and> rHeader req' = rHeader req \<and>
    content (rBody req') = p \<and> read_err (rBody req') = None"
proof -
  obtain p1 where p1: "(case mc_cryptoKey m of None \<Rightarrow> Ret p
      | Some k \<Rightarrow> (case EncryptMsg (lib_crypto lib) rnd k p of Inl e \<Rightarrow> Panic ''log.Fatal'' | Inr c \<Rightarrow> Ret c)) = Ret p1"
    and req: "req = \<lparr>Method = ''POST'', URLParams = fmempty,
      rHeader = post_headers (if akey = [] then None else Some (b64_encode (lib_hmac lib akey p1))), rBody = NopCloser (gzip_bytes gz p1)\<rparr>"
    by (rule post_request_shape [OF assms(5,3)])
  obtain p1' where p1': "(case mc_cryptoKey m of None \<Rightarrow> Ret p
      | Some k \<Rightarrow> (case EncryptMsg (lib_crypto lib) rnd k p of Inl e \<Rightarrow> Panic ''log.Fatal'' | Inr c \<Rightarrow> Ret c)) = Ret p1'"
    and dec': "\<forall>r. content (rBody r) = p1' \<longrightarrow> read_err (rBody r) = None \<longrightarrow>
      (\<exists>b. decrypted (lib_crypto lib) ck r = Ret (None, r\<lparr>rBody := b\<rparr>) \<and> content b = p \<and> read_err b = None)"
    by (rule post_encrypted [OF assms(2)])
  have dec: "\<forall>r. content (rBody r) = p1 \<longrightarrow> read_err (rBody r) = None \<longrightarrow>
      (\<exists>b. decrypted (lib_crypto lib) ck r = Ret (None, r\<lparr>rBody := b\<rparr>) \<and> content b = p \<and> read_err b = None)"
    using p1 p1' dec' by simp
  let ?req = "req\<lparr>URLParams := params\<rparr>"
  let ?req1 = "?req\<lparr>rBody := \<lparr>content = p1, read_err = None, close_err = None\<rparr>\<rparr>"
  have unc: "uncompressed (lib_gz lib) ?req = Inr ?req1"
    using assms(1) by (simp add: uncompressed_def req post_headers_get contains_gzip NewGzipReader_def NopCloser_def gz_pair_def)
  have h: "hdr_Get ''HashSHA256'' (rHeader ?req1) = (if akey = [] then [] else b64_encode (lib_hmac lib akey p1))"
    by (simp add: req post_headers_get)
  have body: "content (rBody ?req1) = p1" by simp
  have "\<exists>req2. checked (lib_hmac lib) skey ?req1 = Inr req2 \<and> rHeader req2 = rHeader req \<and> content (rBody req2) = p1 \<and>
      read_err (rBody req2) = None"
    unfolding checked_def Let_def h body
    by (cases "skey = []"; cases "akey = []"; cases "b64_encode (lib_hmac lib akey p1) = []")
      (use assms(4) in \<open>auto simp: b64_decode_encode NopCloser_def\<close>)
  then obtain req2 where chk: "checked (lib_hmac lib) skey ?req1 = Inr req2"
    and req2: "rHeader req2 = rHeader req" "content (rBody req2) = p1" "read_err (rBody req2) = None" by blast
  from dec req2(2,3) obtain b where b: "decrypted (lib_crypto lib) ck req2 = Ret (None, req2\<lparr>rBody := b\<rparr>)"
    "content b = p" "read_err b = None" by blast
  show ?thesis
    using unc chk b req2(1) by (intro exI [of _ "req2\<lparr>rBody := b\<rparr>"]) (simp add: admit_def)
qed

text \<open>One report, from the body the agent builds to the store.\<close>

lemma post_report:
  assumes "chi_laws chi" and "chi_Find chi (map fst (MountHandlers chi lib tmpl (NewInstance memory_db skey ck))) ''POST'' updateBatchPath = Some (6, params)"
    and "mem_inv ms" and "gz_pair gz (lib_gz lib)" and "\<forall>p. keys_match (lib_crypto lib) rnd (mc_cryptoKey m) ck p"
    and "mc_h m = (if akey = [] then None else Some (akey, []))" and "akey = [] \<or> skey = [] \<or> akey = skey"
    and "named gkvs" and "named ckvs" and "enumerates gkvs gm" and "enumerates ckvs cm" and "gm \<noteq> fmempty \<or> cm \<noteq> fmempty"
    and "\<forall>v \<in> snd ` set gkvs. is_finite v"
  shows "\<exists>b url req w ms'. buildReqBatchBody gkvs ckvs = Ret b \<and>
    post_request gz (lib_hmac lib) (lib_crypto lib) rnd m b updateBatchPath = Ret ((url, req), m) \<and> url = mc_addr m @ updateBatchPath \<and>
    ServeHTTP chi lib tmpl (NewInstance memory_db skey ck) updateBatchPath req ms = Ret (w, ms') \<and>
    conn_code w = Some 200 \<and> mem_inv ms' \<and>
    mem_gauges ms' = fmadd (mem_gauges ms) gm \<and> mem_counters ms' = add_counters cm (mem_counters ms)"
proof -
  have some: "gkvs \<noteq> [] \<or> ckvs \<noteq> []" using assms(10-12) by (auto simp: enumerates_def)
  obtain b where mb: "marshal_batch (batch_records gkvs ckvs) = Inr b" using assms(13) batch_records_marshal by blast
  then have b: "buildReqBatchBody gkvs ckvs = Ret b" using some by (auto simp: buildReqBatchBody_def)
  have ub: "unmarshal_batch b = (None, batch_records gkvs ckvs)"
    using decode_batch_text [OF mb batch_records_utf8 [OF assms(8,9)]] batch_records_SValue by simp
  obtain url req m' where post: "post_request gz (lib_hmac lib) (lib_crypto lib) rnd m b updateBatchPath = Ret ((url, req), m')"
    using post_request_Ret assms(5) by blast
  have url: "url = mc_addr m @ updateBatchPath" by (rule post_request_shape [OF post assms(6)])
  have m': "m' = m" and meth: "Method req = ''POST''" and ct: "hdr_Get ''Content-Type'' (rHeader req) = ''application/json; charset=utf-8''"
    by (rule post_request_shape [OF post assms(6)]; simp add: post_headers_get)+
  obtain req' where adm: "admit lib skey ck (req\<lparr>URLParams := params\<rparr>) = Ret (Inr (None, req'))"
    and req': "rHeader req' = rHeader req" "content (rBody req') = b" "read_err (rBody req') = None"
    using post_admitted [OF assms(4) assms(5) [rule_format] assms(6,7) post] by blast
  have "spec_json req' spec_batch_json (mem_gauges ms, mem_counters ms) =
      Ret (200, (fmadd (mem_gauges ms) gm, add_counters cm (mem_counters ms)))"
    using batch_records_spec [OF assms(8,9) some assms(10,11)] ub
    by (simp add: spec_json_def spec_batch_json_def req' ct contains_gzip)
  then have spec: "spec_server lib tmpl skey ck 6 (req\<lparr>URLParams := params\<rparr>) (mem_gauges ms, mem_counters ms) =
      Ret (Some 200, (fmadd (mem_gauges ms) gm, add_counters cm (mem_counters ms)))"
    by (simp add: spec_server_def spec_route_def adm spec_endpoint_def)
  have route: "chi_Find chi (map fst (MountHandlers chi lib tmpl (NewInstance memory_db skey ck))) (Method req) updateBatchPath = Some (6, params)"
    using assms(2) meth by simp
  have "view conn_code (pair mem_gauges mem_counters) (ServeHTTP chi lib tmpl (NewInstance memory_db skey ck) updateBatchPath req ms) =
      Ret (Some 200, (fmadd (mem_gauges ms) gm, add_counters cm (mem_counters ms)))"
    using routes(1) [OF assms(1) route _ assms(3), simplified] spec by (simp add: mem_view)
  then obtain w ms' where w: "ServeHTTP chi lib tmpl (NewInstance memory_db skey ck) updateBatchPath req ms = Ret (w, ms')"
    "conn_code w = Some 200" "pair mem_gauges mem_counters ms' = (fmadd (mem_gauges ms) gm, add_counters cm (mem_counters ms))"
    by (rule view_RetE)
  moreover have "mem_inv ms'" by (rule routes(2) [OF assms(1) route _ assms(3) _ w(1)]) simp_all
  ultimately show ?thesis using b post m' url by (auto simp: pair_def)
qed

text \<open>
  C3. A report reaches the store of an in-memory server, if it is not empty, its gauges are
  finite and its names are UTF-8 and not empty; if both sides have no key pair, or a matching
  one of 2048 bits with which the encryption succeeds (\<open>keys_match\<close>); and if the signing
  keys are equal or missing on a side. The body the agent builds from its maps, encrypted,
  compressed and signed by \<open>Post\<close>, is then admitted by the server's middlewares, is
  answered with 200, sets every gauge of the report and adds every counter to the store's; and
  the agent's hash is ready for the next post. The order in which either side ranges over its
  maps does not matter. (A gauge that is not finite ends the agent: \<open>report_body\<close>. A key pair
  of another size never works: \<open>encrypt_decrypt_roundtrip\<close>.)
\<close>

theorem report_arrives:
  assumes "chi_laws chi" and "chi_Find chi (map fst (MountHandlers chi lib tmpl (NewInstance memory_db skey ck))) ''POST'' updateBatchPath = Some (6, params)"
    and "mem_inv ms" and "gz_pair gz (lib_gz lib)" and "\<forall>p. keys_match (lib_crypto lib) rnd (mc_cryptoKey m) ck p"
    and "mc_h m = (if akey = [] then None else Some (akey, []))" and "akey = [] \<or> skey = [] \<or> akey = skey"
    and "named gkvs" and "named ckvs" and "enumerates gkvs gm" and "enumerates ckvs cm" and "gm \<noteq> fmempty \<or> cm \<noteq> fmempty"
    and "\<forall>v \<in> snd ` set gkvs. is_finite v"
  shows "\<exists>b url req w ms'. buildReqBatchBody gkvs ckvs = Ret b \<and>
    post_request gz (lib_hmac lib) (lib_crypto lib) rnd m b updateBatchPath = Ret ((url, req), m) \<and> url = mc_addr m @ updateBatchPath \<and>
    ServeHTTP chi lib tmpl (NewInstance memory_db skey ck) updateBatchPath req ms = Ret (w, ms') \<and>
    conn_code w = Some 200 \<and> mem_inv ms' \<and>
    mem_gauges ms' = fmadd (mem_gauges ms) gm \<and> mem_counters ms' = add_counters cm (mem_counters ms)"
  by (rule post_report [OF assms])

theorem report_arrives_witness:
  "let m = NewClient ''localhost'' ''key'' (Some ()) 10; ms = put_counters (fmupd ''c'' 4 fmempty) Memory_Init
   in \<exists>b url req w ms'. buildReqBatchBody [(''a'', 0)] [(''c'', 1)] = Ret b \<and>
    post_request toy_gz (lib_hmac toy_libs) (lib_crypto toy_libs) toy_entropy m b updateBatchPath = Ret ((url, req), m) \<and> url = mc_addr m @ updateBatchPath \<and>
    ServeHTTP (toy_chi fmempty) toy_libs None (NewInstance memory_db ''key'' (Some ())) updateBatchPath req ms = Ret (w, ms') \<and>
    conn_code w = Some 200 \<and> mem_inv ms' \<and> mem_gauges ms' = fmadd (mem_gauges ms) (fmupd ''a'' 0 fmempty) \<and>
    mem_counters ms' = add_counters (fmupd ''c'' 1 fmempty) (mem_counters ms)"
  unfolding Let_def
proof (rule report_arrives [OF toy_chi_laws, where params = fmempty and akey = "''key''"])
  show "chi_Find (toy_chi fmempty) (map fst (MountHandlers (toy_chi fmempty) toy_libs None (NewInstance memory_db ''key'' (Some ())))) ''POST'' updateBatchPath =
      Some (6, fmempty)"
    by (simp add: updateBatchPath_def toy_routes)
  show "gz_pair toy_gz (lib_gz toy_libs)"
    by (simp add: gz_pair_def toy_libs_def toy_gz_def gzip_bytes_def)
  show "\<forall>p. keys_match (lib_crypto toy_libs) toy_entropy (mc_cryptoKey (NewClient ''localhost'' ''key'' (Some ()) 10)) (Some ()) p"
    by (simp add: keys_match_def NewClient_def toy_libs_def toy_laws toy_encrypts)
  have "is_finite 0" by code_simp
  then show "\<forall>v \<in> snd ` set [(''a'', 0)]. is_finite v" by simp
qed (simp_all add: NewClient_def named_def utf8_name_def enumerates_def)

end
