(* ===== verification/Agent_Facts.thy ===== *)
theory Agent_Facts
  imports Agent_Main Monclient_Facts
begin

text \<open>
  The two programs together: an agent that polls and reports to a server without a database.
  What the server's store holds after any sequence of polls and reports.
\<close>

section \<open>Names\<close>

lemma ascii_utf8:
  assumes "\<forall>c \<in> set s. (of_char c :: nat) < 128"
  shows "utf8_name s"
proof -
  have "valid_utf8 (length s) s" using assms by (induction s) simp_all
  then show ?thesis by (simp add: utf8_name_def)
qed

definition good_names :: "(string, 'v) fmap \<Rightarrow> bool" where
  "good_names g \<longleftrightarrow> (\<forall>k \<in> fmdom' g. k \<noteq> [] \<and> utf8_name k)"

lemma good_names_upds: "good_names g \<Longrightarrow> named kvs \<Longrightarrow> good_names (upds g kvs)"
proof (induction kvs arbitrary: g)
  case (Cons kv kvs)
  obtain k v where kv: "kv = (k, v)" by (cases kv)
  have "good_names (fmupd k v g)" "named kvs" using Cons.prems kv by (auto simp: good_names_def named_def)
  from Cons.IH [OF this] show ?case by (simp add: kv)
qed simp

lemma good_names_enum: "good_names g \<Longrightarrow> enumerates kvs g \<Longrightarrow> named kvs"
  by (simp add: good_names_def named_def enumerates_dom)

lemma named_runtime: "named (runtime_values m r)"
  by (simp add: named_def runtime_values_def ascii_utf8)

lemma named_gops: "named (gops_values rd n)"
proof -
  have "utf8_name (''CPUutilization'' @ show_nat j)" for j
    by (intro ascii_utf8) (auto dest!: show_nat_digits simp: is_digit_def)
  then show ?thesis
    by (auto simp: named_def gops_values_def core_values_def ascii_utf8 split: option.split)
qed

section \<open>The agent between its steps\<close>

text \<open>Before the first poll the maps are empty; afterwards the counter is there.\<close>

definition agent_ok :: "int \<Rightarrow> Collector \<Rightarrow> bool" where
  "agent_ok cores c \<longleftrightarrow> poll_state_ok c \<and> cl_cpuCores c = cores \<and> good_names (gauges_of c) \<and>
     (counters_of c = fmempty \<longrightarrow> gauges_of c = fmempty)"

lemma agent_ok_New: "agent_ok cores (New cores i)"
  by (simp add: agent_ok_def poll_state_ok_def New_idle finite_gauges_def good_names_def)

definition poll_ok :: "int \<Rightarrow> reader list \<Rightarrow> Reading \<Rightarrow> bool" where
  "poll_ok cores ks rd \<longleftrightarrow> distinct ks \<and> set ks = {Gops, Runtime, Counters} \<and> sane rd \<and>
     rd_mem rd \<noteq> None \<and> nat cores \<le> length (rd_cores rd)"

lemma poll_agent:
  assumes "agent_ok cores c" and "poll_ok cores ks rd"
  obtains c' where "Stats ks rd c = Ret c'" "agent_ok cores c'" "counters_of c' = fmupd ''PollCount'' 1 fmempty"
proof -
  have idle: "cl_idle c" using assms(1) by (simp add: agent_ok_def poll_state_ok_def)
  have ks: "distinct ks" "set ks = {Gops, Runtime, Counters}" "sane rd" using assms(2) by (simp_all add: poll_ok_def)
  have "readable rd c" using assms by (simp add: agent_ok_def poll_ok_def readable_def)
  from Stats_eq [OF idle this, of ks] obtain c' where c': "Stats ks rd c = Ret c'" by (simp split: prod.splits)
  have "poll_state_ok c" using assms(1) by (simp add: agent_ok_def)
  note ok = Stats_ok [OF this ks(3) c' ks(1,2)]
  have "good_names (gauges_of c')"
    using Stats_put(2) [OF idle c' ks(1,2)] assms(1) by (simp add: agent_ok_def good_names_upds named_gops named_runtime)
  then have "agent_ok cores c'" using ok assms(1) by (simp add: agent_ok_def)
  with that c' ok(2) show ?thesis by blast
qed

lemma readStats_idle:
  "cl_idle c \<Longrightarrow> readStats i c = Ret (\<lparr>rep_gm = gauges_of c, rep_cm = counters_of c, rep_id = i\<rparr>, c)"
  by (cases c; cases "cl_Repo c"; cases "Repo_Gauge (cl_Repo c)"; cases "Repo_Counter (cl_Repo c)")
    (simp add: readStats_def Mtcs_Read_def Mtcs_managed_def Mtcs_Begin_def cl_idle_def gauges_of_def counters_of_def
      RWMutex_zero_def Mtcs_Lock_def Mtcs_Unlock_def mu_RLock_def mu_RUnlock_def Mtcs_GetAll_def)

section \<open>The way to the server\<close>

text \<open>A network that delivers every request: an error only when the server's handler panics.\<close>

definition deliver :: "('z, MemorySt) Chi \<Rightarrow> ('z, 'pub, 'priv) Libs \<Rightarrow> page \<Rightarrow> (MemorySt, 'priv) MonServ \<Rightarrow> string
    \<Rightarrow> string \<Rightarrow> Request \<Rightarrow> MemorySt \<Rightarrow> go_error option \<times> MemorySt" where
  "deliver chi lib tmpl srv addr url req ms =
     (case ServeHTTP chi lib tmpl srv (drop (length addr) url) req ms of
        Ret (w, ms') \<Rightarrow> (None, ms')
      | _ \<Rightarrow> (Some (ErrMsg ''EOF''), ms))"

text \<open>What the two sides agree on.\<close>

definition linked :: "('z, MemorySt) Chi \<Rightarrow> ('z, 'pub, 'priv) Libs \<Rightarrow> page \<Rightarrow> string \<Rightarrow> 'priv option \<Rightarrow> 'y Gzip
    \<Rightarrow> string \<Rightarrow> 'pub option \<Rightarrow> bool" where
  "linked chi lib tmpl skey ck gz akey pub \<longleftrightarrow>
     chi_laws chi \<and>
     (\<exists>params. chi_Find chi (map fst (MountHandlers chi lib tmpl (NewInstance memory_db skey ck))) ''POST'' updateBatchPath = Some (6, params)) \<and>
     gz_pair gz (lib_gz lib) \<and> (akey = [] \<or> skey = [] \<or> akey = skey)"

lemma enumerates_empty: "enumerates kvs fmempty \<Longrightarrow> kvs = []"
  using enumerates_dom by fastforce

text \<open>A report of an agent that has polled arrives; one that has not is not sent.\<close>

lemma report_not_empty: "buildReqBatchBody gkvs ckvs = Ret b \<Longrightarrow> gkvs \<noteq> [] \<or> ckvs \<noteq> [] \<Longrightarrow> b \<noteq> []"
  by (auto simp: buildReqBatchBody_def marshal_batch_def split: if_splits sum.splits)

lemma worker_reports:
  fixes addr :: string and interval :: "64 word"
  assumes link: "linked chi lib tmpl skey ck gz akey pub" and c: "agent_ok cores c" and ms: "mem_inv ms"
    and ord: "\<forall>g. enumerates (gord g) g" "\<forall>k. enumerates (cord k) k"
    and keys: "\<forall>p. keys_match (lib_crypto lib) rnd pub ck p"
  defines "m \<equiv> NewClient addr akey pub interval"
    and "send \<equiv> deliver chi lib tmpl (NewInstance memory_db skey ck) addr"
  obtains ms' where "PollWorker gz (lib_hmac lib) (lib_crypto lib) send gord cord
      [\<lparr>rep_gm = gauges_of c, rep_cm = counters_of c, rep_id = i\<rparr>] (\<lambda>_. rnd) m ms = Ret (m, ms')"
    and "mem_inv ms'" and "mem_gauges ms' = fmadd (mem_gauges ms) (gauges_of c)"
    and "mem_counters ms' = add_counters (counters_of c) (mem_counters ms)"
proof (cases "counters_of c = fmempty")
  case True
  then have "gauges_of c = fmempty" using c by (simp add: agent_ok_def)
  moreover have "gord fmempty = []" "cord fmempty = []" using ord enumerates_empty by blast+
  ultimately show ?thesis using True ms that [of ms] by (simp add: buildReqBatchBody_def)
next
  case False
  obtain params where route: "chi_Find chi (map fst (MountHandlers chi lib tmpl (NewInstance memory_db skey ck))) ''POST'' updateBatchPath = Some (6, params)"
    using link by (auto simp: linked_def)
  have m: "mc_h m = (if akey = [] then None else Some (akey, []))" "mc_cryptoKey m = pub" "mc_addr m = addr"
    by (simp_all add: m_def NewClient_def)
  have names: "named (gord (gauges_of c))" "named (cord (counters_of c))"
  proof -
    show "named (gord (gauges_of c))" using c ord by (intro good_names_enum [of "gauges_of c"]) (simp_all add: agent_ok_def)
    have "counters_of c = fmupd ''PollCount'' 1 fmempty" using c False by (auto simp: agent_ok_def poll_state_ok_def)
    then have "good_names (counters_of c)" by (simp add: good_names_def ascii_utf8)
    then show "named (cord (counters_of c))" using ord by (intro good_names_enum [of "counters_of c"]) simp_all
  qed
  have fin: "\<forall>v \<in> snd ` set (gord (gauges_of c)). is_finite v"
  proof
    fix v assume "v \<in> snd ` set (gord (gauges_of c))"
    then obtain k where kv: "(k, v) \<in> set (gord (gauges_of c))" by auto
    have "enumerates (gord (gauges_of c)) (gauges_of c)" using ord by blast
    from map_of_is_SomeI [OF enumeratesD(1) [OF this] kv] enumeratesD(2) [OF this]
    have "fmlookup (gauges_of c) k = Some v" by simp
    then show "is_finite v" using c by (auto simp: agent_ok_def poll_state_ok_def finite_gauges_def)
  qed
  have laws: "chi_laws chi" "gz_pair gz (lib_gz lib)" "akey = [] \<or> skey = [] \<or> akey = skey" using link by (simp_all add: linked_def)
  have enum: "enumerates (gord (gauges_of c)) (gauges_of c)" "enumerates (cord (counters_of c)) (counters_of c)" using ord by blast+
  have keys': "\<forall>p. keys_match (lib_crypto lib) rnd (mc_cryptoKey m) ck p" using keys m(2) by simp
  obtain b url req w ms' where b: "buildReqBatchBody (gord (gauges_of c)) (cord (counters_of c)) = Ret b"
    and post: "post_request gz (lib_hmac lib) (lib_crypto lib) rnd m b updateBatchPath = Ret ((url, req), m)" "url = addr @ updateBatchPath"
    and w: "ServeHTTP chi lib tmpl (NewInstance memory_db skey ck) updateBatchPath req ms = Ret (w, ms')"
    and ms': "mem_inv ms'" "mem_gauges ms' = fmadd (mem_gauges ms) (gauges_of c)" "mem_counters ms' = add_counters (counters_of c) (mem_counters ms)"
    using post_report [OF laws(1) route ms laws(2) keys' m(1) laws(3) names enum disjI2 fin] False m(3) by blast
  have "send url req ms = (None, ms')" using w post(2) by (simp add: send_def deliver_def)
  moreover have "b \<noteq> []"
  proof (rule report_not_empty [OF b])
    have "enumerates (cord (counters_of c)) (counters_of c)" using ord by blast
    then have "cord (counters_of c) \<noteq> []" using False by (auto simp: enumerates_def)
    then show "gord (gauges_of c) \<noteq> [] \<or> cord (counters_of c) \<noteq> []" by simp
  qed
  ultimately show ?thesis using that [OF _ ms'] b post(1) by (simp add: Post_def)
qed

section \<open>Agent and server\<close>

text \<open>The reports that are sent: those after the first poll.\<close>

fun sent_reports :: "bool \<Rightarrow> agent_event list \<Rightarrow> nat" where
  "sent_reports polled [] = 0"
| "sent_reports polled (Polled ks rd # evs) = sent_reports True evs"
| "sent_reports polled (Reported rnd # evs) = (if polled then 1 else 0) + sent_reports polled evs"

definition event_ok :: "('pub, 'priv) Crypto \<Rightarrow> int \<Rightarrow> 'pub option \<Rightarrow> 'priv option \<Rightarrow> agent_event \<Rightarrow> bool" where
  "event_ok cr cores pub ck ev \<longleftrightarrow>
     (case ev of Polled ks rd \<Rightarrow> poll_ok cores ks rd | Reported rnd \<Rightarrow> \<forall>p. keys_match cr rnd pub ck p)"

definition is_report :: "agent_event \<Rightarrow> bool" where
  "is_report ev \<longleftrightarrow> (case ev of Reported rnd \<Rightarrow> True | Polled ks rd \<Rightarrow> False)"

text \<open>The store after \<open>n\<close> reports: \<open>PollCount\<close> is \<open>n\<close> larger, every other counter as before.\<close>

definition counted :: "nat \<Rightarrow> int64 gomap \<Rightarrow> int64 gomap \<Rightarrow> bool" where
  "counted n k k' \<longleftrightarrow> (\<forall>name. fmlookup k' name =
     (if name = ''PollCount'' \<and> 0 < n then Some (plus_opt (fmlookup k name) (of_nat n)) else fmlookup k name))"

lemma counted_0: "counted 0 k k"
  by (simp add: counted_def)

lemma counted_Suc: "counted n (add_counters (fmupd ''PollCount'' 1 fmempty) k) k' \<Longrightarrow> counted (Suc n) k k'"
  by (auto simp: counted_def plus_opt_def split: option.splits)

lemma agent_life_server:
  fixes addr :: string and interval :: "64 word"
  assumes link: "linked chi lib tmpl skey ck gz akey pub"
    and ord: "\<forall>g. enumerates (gord g) g" "\<forall>k. enumerates (cord k) k"
  defines "m \<equiv> NewClient addr akey pub interval"
    and "send \<equiv> deliver chi lib tmpl (NewInstance memory_db skey ck) addr"
  shows "agent_ok cores c \<Longrightarrow> mem_inv ms \<Longrightarrow> \<forall>ev \<in> set evs. event_ok (lib_crypto lib) cores pub ck ev \<Longrightarrow>
    \<exists>c' ms'. agent_life gz (lib_hmac lib) (lib_crypto lib) send gord cord evs c m ms = Ret (c', m, ms') \<and>
      agent_ok cores c' \<and> mem_inv ms' \<and>
      counted (sent_reports (counters_of c \<noteq> fmempty) evs) (mem_counters ms) (mem_counters ms') \<and>
      (evs \<noteq> [] \<and> is_report (last evs) \<longrightarrow> fmsubset (gauges_of c') (mem_gauges ms'))"
proof (induction evs arbitrary: c ms)
  case Nil
  then show ?case by (simp add: counted_0)
next
  case (Cons ev evs)
  have evs: "\<forall>ev \<in> set evs. event_ok (lib_crypto lib) cores pub ck ev" using Cons.prems(3) by simp
  show ?case
  proof (cases ev)
    case (Polled ks rd)
    then have "poll_ok cores ks rd" using Cons.prems(3) by (simp add: event_ok_def)
    then obtain c1 where c1: "Stats ks rd c = Ret c1" "agent_ok cores c1" "counters_of c1 = fmupd ''PollCount'' 1 fmempty"
      by (rule poll_agent [OF Cons.prems(1)])
    have "counters_of c1 \<noteq> fmempty" by (simp add: c1(3))
    with Cons.IH [OF c1(2) Cons.prems(2) evs] c1(1) Polled show ?thesis
      by (auto simp: is_report_def)
  next
    case (Reported rnd)
    then have keys: "\<forall>p. keys_match (lib_crypto lib) rnd pub ck p" using Cons.prems(3) by (simp add: event_ok_def)
    have "cl_idle c" using Cons.prems(1) by (simp add: agent_ok_def poll_state_ok_def)
    note r = readStats_idle [OF this, of 0]
    obtain ms1 where w: "PollWorker gz (lib_hmac lib) (lib_crypto lib) send gord cord
        [\<lparr>rep_gm = gauges_of c, rep_cm = counters_of c, rep_id = 0\<rparr>] (\<lambda>_. rnd) m ms = Ret (m, ms1)"
      and ms1: "mem_inv ms1" "mem_gauges ms1 = fmadd (mem_gauges ms) (gauges_of c)"
        "mem_counters ms1 = add_counters (counters_of c) (mem_counters ms)"
      unfolding m_def send_def by (rule worker_reports [OF link Cons.prems(1,2) ord keys])
    obtain c' ms' where life: "agent_life gz (lib_hmac lib) (lib_crypto lib) send gord cord evs c m ms1 = Ret (c', m, ms')"
      and inv: "agent_ok cores c'" "mem_inv ms'"
      and n: "counted (sent_reports (counters_of c \<noteq> fmempty) evs) (mem_counters ms1) (mem_counters ms')"
      and g: "evs \<noteq> [] \<and> is_report (last evs) \<longrightarrow> fmsubset (gauges_of c') (mem_gauges ms')"
      using Cons.IH [OF Cons.prems(1) ms1(1) evs] by blast
    have "counted (sent_reports (counters_of c \<noteq> fmempty) (ev # evs)) (mem_counters ms) (mem_counters ms')"
    proof (cases "counters_of c = fmempty")
      case False
      then have "counters_of c = fmupd ''PollCount'' 1 fmempty" using Cons.prems(1) by (auto simp: agent_ok_def poll_state_ok_def)
      with n ms1(3) Reported False show ?thesis by (simp add: counted_Suc)
    qed (use n ms1(3) Reported in simp)
    moreover have "is_report (last (ev # evs)) \<longrightarrow> fmsubset (gauges_of c') (mem_gauges ms')"
    proof (cases evs)
      case Nil
      then have "c' = c" "ms' = ms1" using life by simp_all
      then show ?thesis by (auto simp: ms1(2) fmsubset.rep_eq map_le_def fmadd.rep_eq map_add_def fmlookup_dom'_iff split: option.split)
    qed (use g in simp)
    moreover have "agent_life gz (lib_hmac lib) (lib_crypto lib) send gord cord (ev # evs) c m ms = Ret (c', m, ms')"
      by (simp only: Reported agent_life.simps r bind_outcome.simps prod.case w life)
    ultimately show ?thesis using inv by blast
  qed
qed

text \<open>
  C2. The agent and a server without a database together, for every sequence of polls and
  reports, one at a time, in which nothing around them fails. That is, for every poll: its three
  readers run, in some order, the memory reading succeeds, there is a utilization for each core
  and the readings are finite numbers (\<open>poll_ok\<close>; another poll may panic, as
  \<open>poll_any_order\<close> shows). For every report: both sides have no key pair, or a matching one
  of 2048 bits with which the encryption succeeds (\<open>keys_match\<close>). And the signing keys are
  equal or missing on a side, and the network delivers every request (\<open>linked\<close>,
  \<open>deliver\<close>). Then nothing fails on either side; after a report the server's store has
  every gauge of the agent with its value; and \<open>PollCount\<close> has grown by the number of
  reports sent, not of polls, since the agent always reports 1. (Workers that report at the
  same time share a hash: \<open>shared_hash_rejected\<close>.)
\<close>

theorem server_follows_agent:
  assumes "linked chi lib tmpl skey ck gz akey pub" and "mem_inv ms"
    and "\<forall>g. enumerates (gord g) g" and "\<forall>k. enumerates (cord k) k"
    and "\<forall>ev \<in> set evs. event_ok (lib_crypto lib) cores pub ck ev"
  shows "\<exists>c' ms'. agent_life gz (lib_hmac lib) (lib_crypto lib) (deliver chi lib tmpl (NewInstance memory_db skey ck) addr) gord cord evs
        (New cores poll) (NewClient addr akey pub interval) ms = Ret (c', NewClient addr akey pub interval, ms') \<and> mem_inv ms' \<and>
      counted (sent_reports False evs) (mem_counters ms) (mem_counters ms') \<and>
      (evs \<noteq> [] \<and> is_report (last evs) \<longrightarrow> fmsubset (gauges_of c') (mem_gauges ms'))"
  using agent_life_server [OF assms(1,3,4) agent_ok_New [of cores poll] assms(2,5), where addr = addr and interval = interval]
  by (auto simp: New_idle)

text \<open>Three polls and two reports: the server counts two.\<close>

definition example_events :: "agent_event list" where
  "example_events =
     [Reported toy_entropy, Polled [Runtime, Counters, Gops] test_reading, Reported toy_entropy,
      Polled [Gops, Runtime, Counters] test_reading, Polled [Gops, Counters, Runtime] test_reading, Reported toy_entropy]"

theorem server_follows_agent_witness:
  "\<exists>c' ms'. agent_life toy_gz (lib_hmac toy_libs) (lib_crypto toy_libs)
      (deliver (toy_chi fmempty) toy_libs None (NewInstance memory_db ''key'' (Some ())) ''localhost'')
      sorted_list_of_fmap sorted_list_of_fmap example_events (New 1 2) (NewClient ''localhost'' ''key'' (Some ()) 10) Memory_Init =
        Ret (c', NewClient ''localhost'' ''key'' (Some ()) 10, ms') \<and>
    fmlookup (mem_counters ms') ''PollCount'' = Some 2 \<and> fmsubset (gauges_of c') (mem_gauges ms')"
proof -
  have link: "linked (toy_chi fmempty) toy_libs None ''key'' (Some ()) toy_gz ''key'' (Some ())"
    by (simp add: linked_def toy_chi_laws updateBatchPath_def toy_routes gz_pair_def toy_libs_def toy_gz_def gzip_bytes_def)
  have "poll_ok 1 ks test_reading" if "distinct ks" "set ks = {Gops, Runtime, Counters}" for ks
    using that by (simp add: poll_ok_def sane_def test_reading_def MemStats.make_def is_finite_def f64_mag_def mag_inf_def)
  then have "poll_ok 1 [Runtime, Counters, Gops] test_reading" "poll_ok 1 [Gops, Runtime, Counters] test_reading"
    "poll_ok 1 [Gops, Counters, Runtime] test_reading" by (simp_all add: insert_commute)
  then have evs: "\<forall>ev \<in> set example_events. event_ok (lib_crypto toy_libs) 1 (Some ()) (Some ()) ev"
    by (auto simp: example_events_def event_ok_def keys_match_def toy_libs_def toy_laws toy_encrypts)
  have "sent_reports False example_events = 2" "is_report (last example_events)" "example_events \<noteq> []"
    by (simp_all add: example_events_def is_report_def)
  with server_follows_agent [OF link mem_inv_Init(1) _ _ evs, of sorted_list_of_fmap sorted_list_of_fmap "''localhost''" 2 10] show ?thesis
    by (auto simp: counted_def)
qed

end
