(* ===== verification/Signing_Facts.thy ===== *)
theory Signing_Facts
  imports Monserv_Facts
begin

text \<open>
  Where the signature of a response goes. \<open>CreateSigner\<close> puts the header at a write; the
  handlers behind it send the status first. The locale \<open>unsigned_writer\<close> states which
  calls keep the sent header free of a signature; every writer of the chain keeps its laws, and
  every handler and middleware only makes such calls (\<open>quiet\<close>).
\<close>

section \<open>Writers\<close>

definition committed :: "'z Conn \<Rightarrow> bool" where
  "committed w \<longleftrightarrow> n_sent (c_net w) \<noteq> None"

definition no_signature :: "header \<Rightarrow> bool" where
  "no_signature h \<longleftrightarrow> hdr_Get ''HashSHA256'' h = []"

definition sigless :: "'z Conn \<Rightarrow> bool" where
  "sigless w \<longleftrightarrow> no_signature (case n_sent (c_net w) of None \<Rightarrow> n_header (c_net w) | Some (c, h) \<Rightarrow> h)"

lemma sigless_slots [simp]:
  "sigless (w\<lparr>c_code := n\<rparr>) = sigless w" "sigless (w\<lparr>c_size := n\<rparr>) = sigless w"
  "sigless (w\<lparr>c_wroteHeader := b\<rparr>) = sigless w" "sigless (w\<lparr>c_gz := z\<rparr>) = sigless w"
  "sigless (w\<lparr>c_gz_err := e\<rparr>) = sigless w"
  "committed (w\<lparr>c_code := n\<rparr>) = committed w" "committed (w\<lparr>c_size := n\<rparr>) = committed w"
  "committed (w\<lparr>c_wroteHeader := b\<rparr>) = committed w" "committed (w\<lparr>c_gz := z\<rparr>) = committed w"
  "committed (w\<lparr>c_gz_err := e\<rparr>) = committed w"
  by (simp_all add: sigless_def committed_def split: option.split)

lemma no_signature_set:
  "hkey k \<noteq> ''hashsha256'' \<Longrightarrow> no_signature (hdr_Set k v h) = no_signature h"
  "hkey k \<noteq> ''hashsha256'' \<Longrightarrow> no_signature (hdr_Add k v h) = no_signature h"
  "hkey k \<noteq> ''hashsha256'' \<Longrightarrow> no_signature (hdr_Del k h) = no_signature h"
  by (auto simp: no_signature_def hdr_Get_def hdr_Set_def hdr_Add_def hdr_Del_def)

text \<open>With \<open>free\<close> a write is allowed before the status is sent.\<close>

locale unsigned_writer =
  fixes free :: bool and rw :: "'z Conn RespWriter"
  assumes header: "rw_Header rw w = n_header (c_net w)"
    and put: "sigless w \<Longrightarrow> committed w \<or> no_signature h \<Longrightarrow> sigless (rw_PutHeader rw h w)"
    and put_committed: "committed (rw_PutHeader rw h w) = committed w"
    and write_header: "sigless w \<Longrightarrow> sigless (rw_WriteHeader rw c w) \<and> committed (rw_WriteHeader rw c w)"
    and write_kept: "sigless w \<Longrightarrow> free \<or> committed w \<Longrightarrow>
      sigless (snd (rw_Write rw b w)) \<and> (committed w \<longrightarrow> committed (snd (rw_Write rw b w)))"
begin

lemma set_header:
  assumes "sigless w" and "hkey k \<noteq> ''hashsha256''"
  shows "sigless (rw_SetHeader rw k v w)" "committed (rw_SetHeader rw k v w) = committed w"
proof -
  have "committed w \<or> no_signature (hdr_Set k v (rw_Header rw w))"
    using assms by (auto simp: header no_signature_set sigless_def committed_def split: option.splits)
  with assms(1) show "sigless (rw_SetHeader rw k v w)" unfolding rw_SetHeader_def by (rule put)
qed (simp add: rw_SetHeader_def put_committed)

lemma error_kept:
  assumes "sigless w"
  shows "sigless (http_Error rw msg c w) \<and> committed (http_Error rw msg c w)"
proof -
  let ?w = "rw_SetHeader rw ''X-Content-Type-Options'' ''nosniff'' (rw_SetHeader rw ''Content-Type'' ''text/plain; charset=utf-8'' w)"
  have "sigless ?w" using assms by (simp add: set_header)
  from write_header [OF this] write_kept show ?thesis by (simp add: http_Error_def Let_def)
qed

lemma chunks_kept:
  "sigless w \<Longrightarrow> free \<or> committed w \<Longrightarrow>
   sigless (snd (write_chunks rw bs w)) \<and> (committed w \<longrightarrow> committed (snd (write_chunks rw bs w)))"
proof (induction bs arbitrary: w)
  case (Cons b bs)
  obtain n e w' where w': "rw_Write rw b w = ((n, e), w')" by (metis surj_pair)
  with write_kept [OF Cons.prems, of b] have "sigless w'" "committed w \<longrightarrow> committed w'" by simp_all
  with w' Cons.IH [of w'] Cons.prems(2) show ?case by (auto split: option.split)
qed simp

lemma gw_WriteHeader_kept:
  assumes "sigless w"
  shows "sigless (gw_WriteHeader rw c w) \<and> committed (gw_WriteHeader rw c w)"
proof -
  have "sigless (rw_PutHeader rw (hdr_Del ''Content-Length'' (hdr_Set ''Content-Encoding'' ''gzip'' (rw_Header rw w1))) w1)"
    if "w1 = w\<lparr>c_wroteHeader := True\<rparr>" for w1
    using assms that by (intro put) (auto simp: header no_signature_set sigless_def committed_def split: option.splits)
  with assms show ?thesis by (simp add: gw_WriteHeader_def Let_def write_header)
qed

lemma gw_Write_kept:
  assumes "sigless w" and "free \<or> committed w"
  shows "sigless (snd (gw_Write gz rw p w)) \<and> (committed w \<longrightarrow> committed (snd (gw_Write gz rw p w)))"
proof -
  define w1 where "w1 = (if c_wroteHeader w then w else gw_WriteHeader rw 200 w)"
  have w1: "sigless w1" "committed w \<longrightarrow> committed w1" "free \<or> committed w1"
    using assms gw_WriteHeader_kept [OF assms(1)] by (auto simp: w1_def)
  obtain out z where out: "gz_Write gz p (c_gz w1) = (out, z)" by (cases "gz_Write gz p (c_gz w1)")
  obtain err w2 where w2: "write_chunks rw out (w1\<lparr>c_gz := z\<rparr>) = (err, w2)" by (metis surj_pair)
  have "sigless w2" "committed w1 \<longrightarrow> committed w2"
    using chunks_kept [of "w1\<lparr>c_gz := z\<rparr>" out] w1 w2 by auto
  with w1 out w2 show ?thesis
    unfolding gw_Write_def w1_def [symmetric] by (auto split: option.split)
qed

lemma gw_Close_kept:
  assumes "sigless w" and "free \<or> committed w"
  shows "sigless (snd (gw_Close gz rw w)) \<and> (committed w \<longrightarrow> committed (snd (gw_Close gz rw w)))"
  using assms chunks_kept by (auto simp: gw_Close_def split: option.split prod.split)

end

interpretation conn: unsigned_writer True conn_net
  by unfold_locales
    (auto simp: conn_net_def sigless_def committed_def net_WriteHeader_def net_Write_def Let_def split: option.splits)

context unsigned_writer begin

lemma unsigned_log: "unsigned_writer free (log_writer rw)"
proof unfold_locales
  fix w :: "'z Conn" and b assume w: "sigless w" "free \<or> committed w"
  obtain n e w' where "rw_Write rw b w = ((n, e), w')" by (metis surj_pair)
  with write_kept [OF w, of b] show "sigless (snd (rw_Write (log_writer rw) b w)) \<and>
      (committed w \<longrightarrow> committed (snd (rw_Write (log_writer rw) b w)))"
    by (simp add: log_writer_def log_Write_def)
qed (use header put put_committed write_header in \<open>auto simp: log_writer_def log_WriteHeader_def\<close>)

lemma unsigned_sign: "unsigned_writer False (sign_writer hmac key rw)"
proof unfold_locales
  fix w :: "'z Conn" and b assume w: "sigless w" "False \<or> committed w"
  let ?w = "rw_SetHeader rw ''HashSHA256'' (b64_encode (hmac key [])) w"
  have "sigless ?w" "committed ?w" using w by (simp_all add: rw_SetHeader_def put put_committed)
  with write_kept [of ?w b] show "sigless (snd (rw_Write (sign_writer hmac key rw) b w)) \<and>
      (committed w \<longrightarrow> committed (snd (rw_Write (sign_writer hmac key rw) b w)))"
    by (simp add: sign_writer_def sign_Write_def)
qed (use header put put_committed write_header in \<open>auto simp: sign_writer_def\<close>)

lemma unsigned_gz: "unsigned_writer free (gz_writer gz rw)"
  using header put put_committed gw_WriteHeader_kept gw_Write_kept
  by unfold_locales (auto simp: gz_writer_def)

end

section \<open>Handlers and middlewares\<close>

definition quiet :: "bool \<Rightarrow> ('z Conn, 's) Handler \<Rightarrow> bool" where
  "quiet free h \<longleftrightarrow>
     (\<forall>rw req w s w' s'. unsigned_writer free rw \<longrightarrow> sigless w \<longrightarrow> h rw req w s = Ret (w', s') \<longrightarrow>
        sigless w' \<and> (free \<or> committed w'))"

lemma quietI:
  assumes "\<And>rw req w s w' s'. unsigned_writer free rw \<Longrightarrow> sigless w \<Longrightarrow> h rw req w s = Ret (w', s') \<Longrightarrow>
    sigless w' \<and> (free \<or> committed w')"
  shows "quiet free h"
  using assms unfolding quiet_def by blast

lemma quietD:
  "quiet free h \<Longrightarrow> unsigned_writer free rw \<Longrightarrow> sigless w \<Longrightarrow> h rw req w s = Ret (w', s') \<Longrightarrow> sigless w' \<and> (free \<or> committed w')"
  unfolding quiet_def by blast

text \<open>A response to an error, a bare status, and a written body.\<close>

context unsigned_writer begin

lemma api_Error_kept: "sigless w \<Longrightarrow> sigless (api_Error rw e c w) \<and> committed (api_Error rw e c w)"
  by (simp add: api_Error_def error_kept)

lemma respond_kept: "sigless w \<Longrightarrow> sigless (respond rw res w) \<and> committed (respond rw res w)"
  by (simp add: respond_def api_Error_kept write_header split: prod.split option.split)

lemma write_body_kept:
  assumes "sigless w" and free
  shows "sigless (write_body rw b w)"
proof -
  obtain n e w' where w': "rw_Write rw b w = ((n, e), w')" by (metis surj_pair)
  with write_kept [OF assms(1), of b] assms(2) api_Error_kept show ?thesis by (simp add: write_body_def split: option.split)
qed

end

lemma quiet_json:
  assumes "\<And>rw b w s w1 s1. unsigned_writer free rw \<Longrightarrow> sigless w \<Longrightarrow> f rw b w s = Ret (w1, s1) \<Longrightarrow>
    sigless w1 \<and> (free \<or> committed w1)"
  shows "quiet free (\<lambda>rw req. json_handler rw req (f rw))"
proof (rule quietI)
  fix rw :: "'a Conn RespWriter" and req w and s :: 'b and w' s'
  assume u: "unsigned_writer free rw" and w: "sigless w" and r: "json_handler rw req (f rw) w s = Ret (w', s')"
  show "sigless w' \<and> (free \<or> committed w')"
  proof (cases "Contains (hdr_Get ''Content-Type'' (rHeader req)) ''application/json'' \<and> read_err (rBody req) = None")
    case True
    with r obtain w1 where w1: "f rw (content (rBody req)) w s = Ret (w1, s')"
      and w': "w' = w1 \<or> (\<exists>e. w' = api_Error rw e 500 w1)" by (auto simp: json_handler_def split: option.splits)
    from assms [OF u w w1] w' show ?thesis using unsigned_writer.api_Error_kept [OF u] by blast
  next
    case False
    with r show ?thesis using unsigned_writer.api_Error_kept [OF u w] by (auto simp: json_handler_def split: if_splits option.splits)
  qed
qed

lemma quiet_Update: "quiet free (UpdateHandler db)"
  by (rule quietI) (auto simp: UpdateHandler_def Let_def unsigned_writer.respond_kept)

lemma quiet_UpdateRoot: "quiet free (UpdateRootHandler db)"
  unfolding UpdateRootHandler_def [abs_def]
  by (rule quiet_json)
    (auto simp: unmarshaling_failed_def unsigned_writer.respond_kept unsigned_writer.api_Error_kept split: prod.splits option.splits)

lemma quiet_store_batch:
  "unsigned_writer free rw \<Longrightarrow> sigless w \<Longrightarrow> store_batch db rw gm cm w s = Ret (w', s') \<Longrightarrow> sigless w' \<and> committed w'"
  by (auto simp: store_batch_def unsigned_writer.api_Error_kept unsigned_writer.write_header split: if_splits option.splits)

lemma quiet_UpdateBatch: "quiet free (UpdateBatchHandler db)"
  unfolding UpdateBatchHandler_def [abs_def]
  by (rule quiet_json)
    (auto simp: unmarshaling_failed_def unsigned_writer.api_Error_kept dest: quiet_store_batch split: prod.splits option.splits)

lemma quiet_Ping: "quiet free (PingHandler db)"
  by (rule quietI) (auto simp: PingHandler_def unsigned_writer.api_Error_kept unsigned_writer.write_header split: option.splits)

lemma bind_result: "bind_outcome x (\<lambda>(r, s'). Ret (f r, s')) = Ret (w', s') \<Longrightarrow> \<exists>r. w' = f r"
  by auto

lemma quiet_ValueRoot: "quiet True (ValueRootHandler db)"
  unfolding ValueRootHandler_def [abs_def]
proof (rule quiet_json, goal_cases)
  case (1 rw b w s w1 s1)
  note u = 1(1) and w = 1(2)
  have "committed w \<or> no_signature (hdr_Add ''Content-Type'' ''application/json; charset=utf-8'' (rw_Header rw w))"
    using w by (auto simp: unsigned_writer.header [OF u] no_signature_set sigless_def committed_def split: option.splits)
  note put = unsigned_writer.put [OF u w this]
  obtain err m where b: "unmarshal_Metrics b = (err, m)" by (cases "unmarshal_Metrics b")
  show ?case
  proof (cases err)
    case None
    from bind_result [OF 1(3) [unfolded b None prod.case option.case]] obtain r :: "(nat \<times> RespError) + vhData" where r: "w1 = (case r of
          Inl (code, e) \<Rightarrow> api_Error rw e code w
        | Inr vhd \<Rightarrow> (case marshal_Metrics (vh_metrics vhd) of
            Inl e \<Rightarrow> api_Error rw (NewRespError ''marshaling failed'' (Some e)) 500 w
          | Inr js \<Rightarrow> write_body rw js (rw_PutHeader rw
              (hdr_Add ''Content-Type'' ''application/json; charset=utf-8'' (rw_Header rw w)) w)))" ..
    show ?thesis
    proof (cases r)
      case (Inl ce)
      with r unsigned_writer.api_Error_kept [OF u w] show ?thesis by (cases ce) simp
    next
      case (Inr vhd)
      with r unsigned_writer.api_Error_kept [OF u w] unsigned_writer.write_body_kept [OF u put] show ?thesis
        by (cases "marshal_Metrics (vh_metrics vhd)") simp_all
    qed
  qed (use 1(3) b unsigned_writer.api_Error_kept [OF u w] in \<open>auto simp: unmarshaling_failed_def\<close>)
qed

lemma quiet_Value: "quiet True (ValueHandler db)"
proof (rule quietI, goal_cases)
  case (1 rw req w s w' s')
  from bind_result [OF 1(3) [unfolded ValueHandler_def Let_def]]
  obtain r :: "(nat \<times> RespError) + vhData" where r: "w' = (case r of Inl (code, e) \<Rightarrow> api_Error rw e code w | Inr vhd \<Rightarrow> write_body rw (SValue (vh_metrics vhd)) w)" ..
  show ?case
  proof (cases r)
    case (Inl ce)
    with r unsigned_writer.api_Error_kept [OF 1(1,2)] show ?thesis by (cases ce) simp
  qed (use r unsigned_writer.write_body_kept [OF 1(1,2)] in simp)
qed

lemma quiet_Root: "quiet True (CreateRootHandler tmpl db)"
proof (rule quietI, goal_cases)
  case (1 rw req w s w' s')
  note u = 1(1) and w = 1(2)
  note err = unsigned_writer.api_Error_kept [OF u, THEN conjunct1]
  let ?execute = "\<lambda>p. tmpl_Execute rw p (rw_SetHeader rw ''Content-Type'' ''text/html; charset=utf-8'' w)"
  have page: "sigless w2" if "?execute p = (e, w2)" for p e w2
    using unsigned_writer.chunks_kept [OF u unsigned_writer.set_header(1) [OF u w], of "''Content-Type''" "''text/html; charset=utf-8''" "fst p"] that
    by (auto simp: tmpl_Execute_def split: prod.splits)
  obtain g s1 where g: "GetGaugeAll db s = Ret (g, s1)" using 1(3) by (auto simp: CreateRootHandler_def)
  show ?case
  proof (cases g)
    case (Inr gVals)
    then obtain c s2 where c: "GetCounterAll db s1 = Ret (c, s2)" using 1(3) g by (auto simp: CreateRootHandler_def)
    show ?thesis
    proof (cases "\<exists>cVals execute. c = Inr cVals \<and> tmpl = Some execute")
      case True
      then obtain cVals execute where ce: "c = Inr cVals" "tmpl = Some execute" by blast
      obtain e w2 where w2: "?execute (execute gVals cVals) = (e, w2)" by (metis surj_pair)
      note page [OF this] err [OF page [OF this]]
      with 1(3) g Inr c ce w2 show ?thesis by (cases e) (auto simp: CreateRootHandler_def)
    qed (use 1(3) g Inr c err [OF w] in \<open>auto simp: CreateRootHandler_def split: sum.splits option.splits\<close>)
  qed (use 1(3) g err [OF w] in \<open>auto simp: CreateRootHandler_def\<close>)
qed

text \<open>The middlewares; the signing one allows no write before the status.\<close>

lemma quiet_Logger: "quiet free h \<Longrightarrow> quiet free (CreateLogger h)"
proof (rule quietI, goal_cases)
  case (1 rw req w s w' s')
  from quietD [OF 1(1) unsigned_writer.unsigned_log [OF 1(2)] _ 1(4) [unfolded CreateLogger_def]] 1(3) show ?case by simp
qed

lemma quiet_Signer: "quiet False h \<Longrightarrow> quiet free (CreateSigner hmac key h)"
proof (rule quietI, goal_cases)
  case (1 rw req w s w' s')
  from quietD [OF 1(1) unsigned_writer.unsigned_sign [OF 1(2)] 1(3) 1(4) [unfolded CreateSigner_def]] show ?case by simp
qed

lemma quiet_Uncompress: "quiet free h \<Longrightarrow> quiet free (CreateUncompressReq gz h)"
  by (rule quietI) (auto simp: CreateUncompressReq_def unsigned_writer.error_kept dest: quietD split: if_splits sum.splits)

lemma quiet_SumChecker: "quiet free h \<Longrightarrow> quiet free (CreateSumChecker hmac key h)"
  by (rule quietI) (auto simp: CreateSumChecker_def Let_def unsigned_writer.error_kept dest: quietD split: if_splits option.splits)

lemma quiet_Decrypter: "quiet free h \<Longrightarrow> quiet free (CreateMsgDecrypter cr k h)"
proof (rule quietI, goal_cases)
  case (1 rw req w s w' s')
  note kept = unsigned_writer.error_kept [OF 1(2), THEN conjunct1]
  define w1 where "w1 = (case read_err (rBody req) of Some e \<Rightarrow> http_Error rw ''error reading body'' 500 w | None \<Rightarrow> w)"
  have w1: "sigless w1" using 1(3) kept by (simp add: w1_def split: option.split)
  obtain r where r: "DecryptMsg cr k (content (rBody req)) = Ret r"
    using 1(4) by (auto simp: CreateMsgDecrypter_def Let_def)
  show ?case
  proof (cases r)
    case (Inl e)
    then show ?thesis using quietD [OF 1(1,2) kept [OF w1]] 1(4) r by (simp add: CreateMsgDecrypter_def Let_def w1_def [symmetric])
  next
    case (Inr body)
    then show ?thesis using quietD [OF 1(1,2) w1] 1(4) r by (simp add: CreateMsgDecrypter_def Let_def w1_def [symmetric])
  qed
qed

lemma quiet_Compress:
  assumes "quiet free h"
  shows "quiet free (CreateCompress gz h)"
proof (rule quietI)
  fix rw :: "'a Conn RespWriter" and req w and s :: 'b and w' s'
  assume u: "unsigned_writer free rw" and w: "sigless w" and r: "CreateCompress gz h rw req w s = Ret (w', s')"
  show "sigless w' \<and> (free \<or> committed w')"
  proof (cases "wants_gzip req")
    case True
    let ?w = "w\<lparr>c_wroteHeader := False, c_gz := gz_new gz, c_gz_err := None\<rparr>"
    from True r obtain w1 where w1: "h (gz_writer gz rw) req ?w s = Ret (w1, s')"
      and w': "w' = (case gw_Close gz rw w1 of (Some e, w2) \<Rightarrow> http_Error rw ''decompression failed'' 500 w2 | (None, w2) \<Rightarrow> w2)"
    proof -
      from True r obtain w1 s1 where w1: "h (gz_writer gz rw) req ?w s = Ret (w1, s1)" by (auto simp: CreateCompress_def)
      obtain err w2 where "gw_Close gz rw w1 = (err, w2)" by (metis surj_pair)
      with True r w1 that [of w1] show ?thesis by (cases err) (simp_all add: CreateCompress_def)
    qed
    have "sigless w1 \<and> (free \<or> committed w1)"
      using quietD [OF assms unsigned_writer.unsigned_gz [OF u] _ w1] w by simp
    with unsigned_writer.gw_Close_kept [OF u, of w1 gz] unsigned_writer.error_kept [OF u] w' show ?thesis
      by (auto split: prod.splits option.splits)
  qed (use quietD [OF assms u w] r in \<open>simp add: CreateCompress_def\<close>)
qed

section \<open>No response is signed\<close>

lemma quiet_mw: "quiet True h \<Longrightarrow> quiet True (foldr (\<lambda>m h. m h) (mw lib) h)"
  by (simp add: mw_def quiet_Logger quiet_Uncompress quiet_Compress)

lemma quiet_umw:
  assumes "\<And>free. quiet free h"
  shows "quiet True (foldr (\<lambda>m h. m h) (umw lib srv) h)"
  using assms
  by (auto simp: umw_def quiet_Logger quiet_Uncompress quiet_Compress quiet_SumChecker quiet_Signer quiet_Decrypter split: option.split)

text \<open>
  C15. No response carries a signature, with whatever key the server is started: on every route,
  over every store and for every request, the header that is sent has no \<open>HashSHA256\<close>.
  The signing writer sets it in \<open>Write\<close>, when the status and the header are gone.
\<close>

theorem responses_unsigned:
  assumes "chi_laws chi" and "chi_Find chi (map fst (MountHandlers chi lib tmpl srv)) (Method req) path = Some (i, params)"
    and "ServeHTTP chi lib tmpl srv path req s = Ret (w, s')"
  shows "\<forall>code h. n_sent (c_net w) = Some (code, h) \<longrightarrow> hdr_Get ''HashSHA256'' h = []"
proof -
  let ?routes = "MountHandlers chi lib tmpl srv"
  note i = found_route [OF assms(1,2)]
  have use: "chi_Use chi ms h = foldr (\<lambda>m h. m h) ms h" for ms h using assms(1) by (simp add: chi_laws_def)
  have all: "\<forall>r \<in> set ?routes. quiet True (snd r)"
    unfolding MountHandlers_def Let_def use
    by (simp add: quiet_mw quiet_umw quiet_Root quiet_Value quiet_ValueRoot quiet_Ping quiet_Update quiet_UpdateRoot quiet_UpdateBatch)
  have len: "i < length ?routes" using i by (simp add: MountHandlers_def Let_def)
  then have q: "quiet True (snd (?routes ! i))" using all by simp
  have "snd (?routes ! i) conn_net (req\<lparr>URLParams := params\<rparr>) (new_conn (lib_gz lib)) s = Ret (w, s')"
    using assms(2,3) len by (simp add: ServeHTTP_def Let_def)
  moreover have "sigless (new_conn (lib_gz lib))" by (simp add: sigless_def new_conn_def fresh_writer_def no_signature_def)
  ultimately have "sigless w" using quietD [OF q conn.unsigned_writer_axioms] by blast
  then show ?thesis by (auto simp: sigless_def no_signature_def)
qed

theorem responses_unsigned_witness:
  "\<exists>w ms' h. ServeHTTP (toy_chi counter_params) toy_libs None (NewInstance memory_db ''key'' None)
       ''/update/{type}/{name}/{value}/'' (path_request [] [] []) Memory_Init = Ret (w, ms') \<and>
     n_sent (c_net w) = Some (200, h) \<and> hdr_Get ''HashSHA256'' h = []"
proof -
  let ?req = "path_request [] [] []" and ?srv = "NewInstance memory_db ''key'' None"
  let ?path = "''/update/{type}/{name}/{value}/''"
  have f: "chi_Find (toy_chi counter_params) (map fst (MountHandlers (toy_chi counter_params) toy_libs None ?srv)) (Method ?req) ?path = Some (5, counter_params)"
    by (simp add: toy_routes path_request_def)
  have "ParseCounter ''7'' = Inr 7" by code_simp
  then have "spec_update (path_metrics (?req\<lparr>URLParams := counter_params\<rparr>)) (fmempty, fmempty) = Ret (200, (fmempty, fmupd ''c'' 7 fmempty))"
    by (simp add: path_metrics_def URLParam_def counter_params_def spec_update_def CounterType_def GaugeType_def add_counter_def)
  moreover have "admit toy_libs ''key'' None (?req\<lparr>URLParams := counter_params\<rparr>) = Ret (Inr (None, ?req\<lparr>URLParams := counter_params\<rparr>))"
    by (simp add: admit_def checked_def decrypted_def path_request_def)
  ultimately have "view conn_code (pair mem_gauges mem_counters) (ServeHTTP (toy_chi counter_params) toy_libs None ?srv ?path ?req Memory_Init) =
      Ret (Some 200, (fmempty, fmupd ''c'' 7 fmempty))"
    using routes(1) [OF toy_chi_laws f _ mem_inv_Init(1)] by (simp add: spec_server_def spec_route_def spec_endpoint_def mem_view)
  then obtain w ms' where w: "ServeHTTP (toy_chi counter_params) toy_libs None ?srv ?path ?req Memory_Init = Ret (w, ms')" "conn_code w = Some 200"
    by (rule view_RetE)
  then obtain h where "n_sent (c_net w) = Some (200, h)" by (auto simp: conn_code_def net_code_def)
  with w responses_unsigned [OF toy_chi_laws f w(1)] show ?thesis by blast
qed

end
