(* ===== verification/Wire_Facts.thy ===== *)
theory Wire_Facts
  imports Monclient_Facts
begin

text \<open>
  What a client reads of a compressed response: the bytes the logging and the compressing
  writer put on the connection are the compressed text of what the handler wrote, below the
  header the compressing writer completed.
\<close>

section \<open>Bytes on the connection\<close>

definition net_put :: "bytes \<Rightarrow> 'z Conn \<Rightarrow> 'z Conn \<Rightarrow> bool" where
  "net_put b w w' \<longleftrightarrow> same_gz w w' \<and> c_net w' = (c_net w)\<lparr>n_body := n_body (c_net w) @ b\<rparr>"

lemma net_put_trans: "net_put a u v \<Longrightarrow> net_put b v w \<Longrightarrow> net_put (a @ b) u w"
  by (simp add: net_put_def same_gz_def)

abbreviation logged :: "'z Conn RespWriter" where
  "logged \<equiv> log_writer conn_net"

lemma logged_write:
  assumes "n_sent (c_net w) \<noteq> None" and "\<not> n_fail (c_net w)"
  obtains w' where "rw_Write logged b w = ((length b, None), w')" "net_put b w w'"
  using assms that
  by (auto simp: log_writer_def log_Write_def conn_net_def net_Write_def net_WriteHeader_def Let_def net_put_def same_gz_def)

lemma logged_chunks:
  "n_sent (c_net w) \<noteq> None \<Longrightarrow> \<not> n_fail (c_net w) \<Longrightarrow>
   \<exists>w'. write_chunks logged bs w = (None, w') \<and> net_put (concat bs) w w'"
proof (induction bs arbitrary: w)
  case Nil
  then show ?case by (simp add: net_put_def)
next
  case (Cons b bs)
  obtain w1 where w1: "rw_Write logged b w = ((length b, None), w1)" "net_put b w w1" by (rule logged_write [OF Cons.prems])
  then have "n_sent (c_net w1) \<noteq> None" "\<not> n_fail (c_net w1)" using Cons.prems by (simp_all add: net_put_def)
  from Cons.IH [OF this] obtain w2 where "write_chunks logged bs w1 = (None, w2)" "net_put (concat bs) w1 w2" by blast
  with w1 show ?case by (auto intro: net_put_trans)
qed

section \<open>A body through the compressor\<close>

text \<open>A connection before anything was sent, with the compressor at its start.\<close>

definition at_start :: "'z Gzip \<Rightarrow> 'z Conn \<Rightarrow> bool" where
  "at_start gz w \<longleftrightarrow> n_sent (c_net w) = None \<and> \<not> n_fail (c_net w) \<and> n_body (c_net w) = [] \<and>
     \<not> c_wroteHeader w \<and> c_gz w = gz_new gz \<and> c_gz_err w = None"

definition gzip_header :: "header \<Rightarrow> header" where
  "gzip_header h = hdr_Del ''Content-Length'' (hdr_Set ''Content-Encoding'' ''gzip'' h)"

lemma compressed_write:
  assumes "at_start gz w" and "hdr_Get ''Content-Encoding'' (n_header (c_net w)) = []"
  obtains w1 where "write_body (gz_writer gz logged) p w = w1" and "n_sent (c_net w1) = Some (200, gzip_header (n_header (c_net w)))"
    and "\<not> n_fail (c_net w1)" and "n_body (c_net w1) = concat (fst (gz_Write gz p (gz_new gz)))"
    and "c_gz w1 = snd (gz_Write gz p (gz_new gz))" and "c_gz_err w1 = None"
proof -
  obtain out z where out: "gz_Write gz p (gz_new gz) = (out, z)" by (cases "gz_Write gz p (gz_new gz)")
  let ?u = "gw_WriteHeader logged 200 w"
  have u: "n_sent (c_net ?u) = Some (200, gzip_header (n_header (c_net w)))" "\<not> n_fail (c_net ?u)" "n_body (c_net ?u) = []"
    "c_gz ?u = gz_new gz" "c_gz_err ?u = None"
    using assms
    by (simp_all add: at_start_def gw_WriteHeader_def Let_def log_writer_def log_WriteHeader_def conn_net_def net_WriteHeader_def gzip_header_def)
  have "n_sent (c_net (?u\<lparr>c_gz := z\<rparr>)) \<noteq> None" "\<not> n_fail (c_net (?u\<lparr>c_gz := z\<rparr>))" using u by simp_all
  from logged_chunks [OF this, of out] obtain w1 where
    w1: "write_chunks logged out (?u\<lparr>c_gz := z\<rparr>) = (None, w1)" "net_put (concat out) (?u\<lparr>c_gz := z\<rparr>) w1" by blast
  have "\<not> c_wroteHeader w" using assms(1) by (simp add: at_start_def)
  then have "write_body (gz_writer gz logged) p w = w1\<lparr>c_gz_err := None\<rparr>"
    using u(4,5) w1(1) out by (simp add: write_body_def gz_writer_def gw_Write_def Let_def)
  with that [of "w1\<lparr>c_gz_err := None\<rparr>"] u w1(2) out show ?thesis by (simp add: net_put_def same_gz_def)
qed

lemma compressed_close:
  assumes "n_sent (c_net w) \<noteq> None" and "\<not> n_fail (c_net w)" and "c_gz_err w = None"
  obtains w' where "gw_Close gz logged w = (None, w')" and "n_sent (c_net w') = n_sent (c_net w)"
    and "n_body (c_net w') = n_body (c_net w) @ concat (fst (gz_Close gz (c_gz w)))"
proof -
  obtain out z where out: "gz_Close gz (c_gz w) = (out, z)" by (cases "gz_Close gz (c_gz w)")
  have "n_sent (c_net (w\<lparr>c_gz := z\<rparr>)) \<noteq> None" "\<not> n_fail (c_net (w\<lparr>c_gz := z\<rparr>))" using assms by simp_all
  from logged_chunks [OF this, of out] obtain w' where
    "write_chunks logged out (w\<lparr>c_gz := z\<rparr>) = (None, w')" "net_put (concat out) (w\<lparr>c_gz := z\<rparr>) w'" by blast
  with that assms(3) out show ?thesis by (simp add: gw_Close_def net_put_def)
qed

text \<open>The whole: the body is what \<open>gzip_bytes\<close> makes of the text.\<close>

lemma compressed_body:
  assumes "at_start gz w" and "hdr_Get ''Content-Encoding'' (n_header (c_net w)) = []"
  obtains w' where "gw_Close gz logged (write_body (gz_writer gz logged) p w) = (None, w')"
    and "n_sent (c_net w') = Some (200, gzip_header (n_header (c_net w)))" and "n_body (c_net w') = gzip_bytes gz p"
proof -
  obtain w1 where w1: "write_body (gz_writer gz logged) p w = w1" "n_sent (c_net w1) = Some (200, gzip_header (n_header (c_net w)))"
    "\<not> n_fail (c_net w1)" "n_body (c_net w1) = concat (fst (gz_Write gz p (gz_new gz)))"
    "c_gz w1 = snd (gz_Write gz p (gz_new gz))" "c_gz_err w1 = None" by (rule compressed_write [OF assms])
  obtain w' where "gw_Close gz logged w1 = (None, w')" "n_sent (c_net w') = n_sent (c_net w1)"
    "n_body (c_net w') = n_body (c_net w1) @ concat (fst (gz_Close gz (c_gz w1)))"
    by (rule compressed_close [of w1 gz]) (simp_all add: w1)
  with that w1 show ?thesis by (auto simp: gzip_bytes_def split: prod.split)
qed

section \<open>A query over the wire\<close>

lemma json_prefix: "HasPrefix s ''application/json'' \<Longrightarrow> Contains s ''application/json''"
  by (simp add: HasPrefix_def Contains_iff_sublist)

lemma value_chain:
  assumes "mem_inv ms" and "at_start gz w" and "n_header (c_net w) = fmempty"
    and "Contains (hdr_Get ''Content-Type'' (rHeader req)) ''application/json''" and "wants_gzip req"
    and "read_err (rBody req) = None" and "close_err (rBody req) = None"
    and "unmarshal_Metrics (content (rBody req)) = (None, m)"
    and "spec_value m (mem_gauges ms, mem_counters ms) = Inr x" and "marshal_Metrics x = Inr js"
  obtains w' where "CreateCompress gz (ValueRootHandler memory_db) logged req w ms = Ret (w', ms)"
    and "n_sent (c_net w') = Some (200, gzip_header (hdr_Add ''Content-Type'' ''application/json; charset=utf-8'' fmempty))"
    and "n_body (c_net w') = gzip_bytes gz js"
proof -
  let ?h = "hdr_Add ''Content-Type'' ''application/json; charset=utf-8'' fmempty"
  let ?w = "w\<lparr>c_wroteHeader := False, c_gz := gz_new gz, c_gz_err := None\<rparr>"
  let ?v = "rw_PutHeader (gz_writer gz logged) ?h ?w"
  have v: "n_header (c_net ?v) = ?h" "at_start gz ?v"
    using assms(2) by (simp_all add: gz_writer_def log_writer_def conn_net_def at_start_def)
  have "hdr_Get ''Content-Encoding'' ?h = []" by (simp add: hdr_Add_def hdr_Get_def)
  then obtain w' where w': "gw_Close gz logged (write_body (gz_writer gz logged) js ?v) = (None, w')"
    "n_sent (c_net w') = Some (200, gzip_header ?h)" "n_body (c_net w') = gzip_bytes gz js"
    using compressed_body [OF v(2), of js] v(1) by metis
  have "rw_Header (gz_writer gz logged) ?w = fmempty"
    using assms(3) by (simp add: gz_writer_def log_writer_def conn_net_def)
  then have "ValueRootHandler memory_db (gz_writer gz logged) req ?w ms = Ret (write_body (gz_writer gz logged) js ?v, ms)"
    using assms(4,6-8,10) getVhData_mem [OF assms(1,9)] by (simp add: ValueRootHandler_def json_handler_def)
  with assms(5) w'(1) have "CreateCompress gz (ValueRootHandler memory_db) logged req w ms = Ret (w', ms)"
    by (simp add: CreateCompress_def)
  with that w' show ?thesis by blast
qed

lemma spec_value_utf8: "spec_value m st = Inr x \<Longrightarrow> utf8_name (ID m) \<Longrightarrow> utf8_metrics x"
  using type_utf8 by (auto simp: spec_value_def utf8_metrics_def split: if_splits option.splits)

text \<open>
  C8. A JSON query of a stored metric, behind the middlewares of an in-memory server, for a
  counter or a finite gauge (another gauge is answered with 500: \<open>non_finite_gauge_unreadable\<close>)
  under a UTF-8 name; the request's content type starts with \<open>application/json\<close>, and its
  body, whatever way it was compressed, is read and closed without an error and is the JSON of a
  metric. Then the response is 200 with the content type JSON and the encoding gzip, its body
  decompresses to the JSON of the stored metric, which decodes to the stored value bit for
  bit, and the store is as it was.
\<close>

theorem query_over_the_wire:
  assumes "chi_laws chi" and "chi_Find chi (map fst (MountHandlers chi lib tmpl (NewInstance memory_db key ck))) (Method req) path = Some (1, params)"
    and "mem_inv ms" and "uncompressed (lib_gz lib) req = Inr req1" and "read_err (rBody req1) = None" and "close_err (rBody req1) = None"
    and "HasPrefix (hdr_Get ''Content-Type'' (rHeader req)) ''application/json''"
    and "unmarshal_Metrics (content (rBody req1)) = (None, m)" and "utf8_name (ID m)"
    and "spec_value m (mem_gauges ms, mem_counters ms) = Inr x" and "\<forall>v. Value x = Some v \<longrightarrow> is_finite v"
    and "gz_pair (lib_gz lib) gzc"
  shows "\<exists>w h js. ServeHTTP chi lib tmpl (NewInstance memory_db key ck) path req ms = Ret (w, ms) \<and>
    n_sent (c_net w) = Some (200, h) \<and> hdr_Get ''Content-Encoding'' h = ''gzip'' \<and>
    hdr_Get ''Content-Type'' h = ''application/json; charset=utf-8'' \<and>
    gz_NewReader gzc (n_body (c_net w), None) = Inr (js, None, None) \<and> unmarshal_Metrics js = (None, x\<lparr>SValue := []\<rparr>)"
proof -
  let ?req = "req\<lparr>URLParams := params\<rparr>" and ?req1 = "req1\<lparr>URLParams := params\<rparr>" and ?gz = "lib_gz lib"
  let ?w = "(new_conn ?gz)\<lparr>c_code := 0, c_size := 0\<rparr>"
  obtain js where js: "marshal_Metrics x = Inr js" using assms(11) marshal_Metrics_Inr by blast
  have same: "rHeader req1 = rHeader req" using assms(4) by (auto simp: uncompressed_def split: if_splits sum.splits)
  have w: "at_start ?gz ?w" "n_header (c_net ?w) = fmempty" by (simp_all add: at_start_def new_conn_def fresh_writer_def)
  have r1: "Contains (hdr_Get ''Content-Type'' (rHeader ?req1)) ''application/json''" "wants_gzip ?req1"
    "read_err (rBody ?req1) = None" "close_err (rBody ?req1) = None" "unmarshal_Metrics (content (rBody ?req1)) = (None, m)"
    using assms(5-8) same json_prefix by (simp_all add: wants_gzip_def)
  obtain w' where w': "CreateCompress ?gz (ValueRootHandler memory_db) logged ?req1 ?w ms = Ret (w', ms)"
    "n_sent (c_net w') = Some (200, gzip_header (hdr_Add ''Content-Type'' ''application/json; charset=utf-8'' fmempty))"
    "n_body (c_net w') = gzip_bytes ?gz js"
    by (rule value_chain [OF assms(3) w r1 assms(10) js])
  have "uncompressed ?gz ?req = Inr ?req1" using assms(4) by (simp add: admission_params)
  then have "CreateUncompressReq ?gz (CreateCompress ?gz (ValueRootHandler memory_db)) logged ?req ?w ms = Ret (w', ms)"
    using w'(1) by (auto simp: CreateUncompressReq_def uncompressed_def split: if_splits sum.splits)
  then have "ServeHTTP chi lib tmpl (NewInstance memory_db key ck) path req ms = Ret (w', ms)"
    using assms(1,2) by (simp add: ServeHTTP_def MountHandlers_def Let_def NewInstance_def chi_laws_def mw_def CreateLogger_def)
  moreover have "gz_NewReader gzc (n_body (c_net w'), None) = Inr (js, None, None)"
    using assms(12) w'(3) by (simp add: gz_pair_def)
  moreover have "unmarshal_Metrics js = (None, x\<lparr>SValue := []\<rparr>)"
    by (rule decode_metrics_text [OF js spec_value_utf8 [OF assms(10,9)]])
  moreover have "hdr_Get ''Content-Encoding'' (gzip_header (hdr_Add ''Content-Type'' ''application/json; charset=utf-8'' fmempty)) = ''gzip''"
    "hdr_Get ''Content-Type'' (gzip_header (hdr_Add ''Content-Type'' ''application/json; charset=utf-8'' fmempty)) = ''application/json; charset=utf-8''"
    by (simp_all add: gzip_header_def hdr_Get_def hdr_Add_def hdr_Del_def hdr_Set_def)
  ultimately show ?thesis using w'(2) by blast
qed

theorem query_over_the_wire_witness:
  "let ms = put_counters (fmupd ''c'' 4 fmempty) Memory_Init
   in \<exists>b w h js. marshal_Metrics (query CounterType ''c'') = Inr b \<and>
     ServeHTTP (toy_chi fmempty) toy_libs None (NewInstance memory_db ''key'' (Some ())) ''/value'' (json_request b) ms = Ret (w, ms) \<and>
     n_sent (c_net w) = Some (200, h) \<and> gz_NewReader toy_gz (n_body (c_net w), None) = Inr (js, None, None) \<and>
     unmarshal_Metrics js = (None, (query CounterType ''c'')\<lparr>Delta := Some 4\<rparr>)"
  unfolding Let_def
proof -
  let ?ms = "put_counters (fmupd ''c'' 4 fmempty) Memory_Init" and ?srv = "NewInstance memory_db ''key'' (Some ())"
  let ?x = "(query CounterType ''c'')\<lparr>Delta := Some 4, SValue := FormatCounter 4\<rparr>"
  have c: "utf8_name ''c''" by (simp add: utf8_name_def)
  obtain b where b: "marshal_Metrics (query CounterType ''c'') = Inr b" using query_marshals by blast
  note m = query_text [OF c type_utf8(2) b]
  have f: "chi_Find (toy_chi fmempty) (map fst (MountHandlers (toy_chi fmempty) toy_libs None ?srv)) (Method (json_request b)) ''/value'' = Some (1, fmempty)"
    by (simp add: toy_chi_def MountHandlers_def Let_def json_request_def)
  have inv: "mem_inv ?ms" by simp
  have u: "uncompressed (lib_gz toy_libs) (json_request b) = Inr (json_request b)" by (simp add: json_request_def hdr_Get_Set)
  have gz: "gz_pair (lib_gz toy_libs) toy_gz" by (simp add: gz_pair_def toy_libs_def toy_gz_def gzip_bytes_def)
  have x: "spec_value (query CounterType ''c'') (mem_gauges ?ms, mem_counters ?ms) = Inr ?x"
    by (simp add: spec_value_def query_def Metrics_zero_def CounterType_def GaugeType_def)
  have "?x\<lparr>SValue := []\<rparr> = (query CounterType ''c'')\<lparr>Delta := Some 4\<rparr>" by (simp add: query_def Metrics_zero_def)
  moreover have "\<exists>w h js. ServeHTTP (toy_chi fmempty) toy_libs None ?srv ''/value'' (json_request b) ?ms = Ret (w, ?ms) \<and>
      n_sent (c_net w) = Some (200, h) \<and> hdr_Get ''Content-Encoding'' h = ''gzip'' \<and>
      hdr_Get ''Content-Type'' h = ''application/json; charset=utf-8'' \<and>
      gz_NewReader toy_gz (n_body (c_net w), None) = Inr (js, None, None) \<and> unmarshal_Metrics js = (None, ?x\<lparr>SValue := []\<rparr>)"
    by (rule query_over_the_wire [OF toy_chi_laws f inv u _ _ _ _ _ x _ gz])
      (simp_all add: json_request_def NopCloser_def m c query_def Metrics_zero_def hdr_Get_Set HasPrefix_def)
  ultimately show "\<exists>b w h js. marshal_Metrics (query CounterType ''c'') = Inr b \<and>
     ServeHTTP (toy_chi fmempty) toy_libs None ?srv ''/value'' (json_request b) ?ms = Ret (w, ?ms) \<and>
     n_sent (c_net w) = Some (200, h) \<and> gz_NewReader toy_gz (n_body (c_net w), None) = Inr (js, None, None) \<and>
     unmarshal_Metrics js = (None, (query CounterType ''c'')\<lparr>Delta := Some 4\<rparr>)"
    using b by metis
qed

end
