(* ===== verification/Request_Threads.thy ===== *)
theory Request_Threads
  imports Handlers_Facts
begin

text \<open>
  Batch updates served at the same time. A handler touches the store in at most two steps,
  \<open>SetGaugeAll\<close> and \<open>SetCounterAll\<close>, each one transaction (\<open>Safe_Threads\<close>); between
  them other requests run. The phases of the handlers on one in-memory store are a step
  relation, and its runs are compared with serving the batches one after the other.
\<close>

section \<open>Phases of a handler\<close>

datatype phase = WriteGauges "float64 gomap" "int64 gomap" | WriteCounters "int64 gomap" | Answered

definition after_gauges :: "int64 gomap \<Rightarrow> phase" where
  "after_gauges cm = (if 0 < map_len cm then WriteCounters cm else Answered)"

definition begin_batch :: "float64 gomap \<times> int64 gomap \<Rightarrow> phase" where
  "begin_batch b = (case b of (gm, cm) \<Rightarrow> if 0 < map_len gm then WriteGauges gm cm else after_gauges cm)"

record Serving =
  sv_gauges :: "float64 gomap"
  sv_counters :: "int64 gomap"
  sv_phases :: "phase list"

inductive serve_step :: "Serving \<Rightarrow> Serving \<Rightarrow> bool" where
  gauges: "i < length (sv_phases s) \<Longrightarrow> sv_phases s ! i = WriteGauges gm cm \<Longrightarrow>
    serve_step s (s\<lparr>sv_gauges := fmadd (sv_gauges s) gm, sv_phases := (sv_phases s)[i := after_gauges cm]\<rparr>)"
| counters: "i < length (sv_phases s) \<Longrightarrow> sv_phases s ! i = WriteCounters cm \<Longrightarrow>
    serve_step s (s\<lparr>sv_counters := add_counters cm (sv_counters s), sv_phases := (sv_phases s)[i := Answered]\<rparr>)"

inductive_cases serve_stepE: "serve_step s s'"

definition serving :: "float64 gomap \<Rightarrow> int64 gomap \<Rightarrow> (float64 gomap \<times> int64 gomap) list \<Rightarrow> Serving" where
  "serving g k bs = \<lparr>sv_gauges = g, sv_counters = k, sv_phases = map begin_batch bs\<rparr>"

text \<open>The handlers one after the other.\<close>

fun in_turn_batches :: "'w RespWriter \<Rightarrow> 'w \<Rightarrow> (float64 gomap \<times> int64 gomap) list \<Rightarrow> MemorySt \<Rightarrow> MemorySt outcome" where
  "in_turn_batches rw w [] ms = Ret ms"
| "in_turn_batches rw w ((gm, cm) # bs) ms =
     bind_outcome (store_batch memory_db rw gm cm w ms) (\<lambda>(w', ms'). in_turn_batches rw w bs ms')"

section \<open>Counters\<close>

lemma add_counters_commute: "add_counters a (add_counters b k) = add_counters b (add_counters a k)"
  by (intro fmap_ext) (simp add: plus_opt_def algebra_simps split: option.splits)

definition all_counters :: "int64 gomap list \<Rightarrow> int64 gomap \<Rightarrow> int64 gomap" where
  "all_counters cms k = foldr add_counters cms k"

lemma all_counters_simps [simp]:
  "all_counters [] k = k" "all_counters (cm # cms) k = add_counters cm (all_counters cms k)"
  by (simp_all add: all_counters_def)

lemma all_counters_add: "all_counters cms (add_counters cm k) = add_counters cm (all_counters cms k)"
  by (induction cms) (simp_all add: add_counters_commute)

lemma all_counters_take:
  "i < length cms \<Longrightarrow> all_counters (cms[i := fmempty]) (add_counters (cms ! i) k) = all_counters cms k"
  by (induction cms arbitrary: i) (auto simp: less_Suc_eq_0_disj all_counters_add add_counters_commute)

text \<open>What a handler has still to add.\<close>

primrec owed :: "phase \<Rightarrow> int64 gomap" where
  "owed (WriteGauges gm cm) = cm"
| "owed (WriteCounters cm) = cm"
| "owed Answered = fmempty"

lemma owed_begin [simp]: "owed (after_gauges cm) = cm" "owed (begin_batch (gm, cm)) = cm"
  by (simp_all add: after_gauges_def begin_batch_def)

lemma owed_step:
  "serve_step s s' \<Longrightarrow>
   all_counters (map owed (sv_phases s')) (sv_counters s') = all_counters (map owed (sv_phases s)) (sv_counters s)"
proof (erule serve_stepE, goal_cases)
  case (1 i gm cm)
  then have "map owed ((sv_phases s)[i := after_gauges cm]) = map owed (sv_phases s)"
    by (simp add: map_update list_update_same_conv)
  with 1 show ?case by simp
next
  case (2 i cm)
  then show ?case
    using all_counters_take [of i "map owed (sv_phases s)" "sv_counters s"] by (simp add: map_update)
qed

section \<open>Gauges\<close>

definition wrote :: "phase \<Rightarrow> bool" where
  "wrote p \<longleftrightarrow> (case p of WriteGauges gm cm \<Rightarrow> False | _ \<Rightarrow> True)"

text \<open>The phases belong to the batches, and every gauge comes from a batch that has written or from the start.\<close>

definition serve_inv :: "float64 gomap \<Rightarrow> (float64 gomap \<times> int64 gomap) list \<Rightarrow> Serving \<Rightarrow> bool" where
  "serve_inv g bs s \<longleftrightarrow> length (sv_phases s) = length bs \<and>
     (\<forall>i < length bs. \<forall>gm cm. sv_phases s ! i = WriteGauges gm cm \<longrightarrow> gm = fst (bs ! i)) \<and>
     (\<forall>n. (fmlookup (sv_gauges s) n = fmlookup g n \<and> (\<forall>i < length bs. wrote (sv_phases s ! i) \<longrightarrow> fmlookup (fst (bs ! i)) n = None)) \<or>
       (\<exists>i < length bs. wrote (sv_phases s ! i) \<and> fmlookup (fst (bs ! i)) n \<noteq> None \<and> fmlookup (sv_gauges s) n = fmlookup (fst (bs ! i)) n))"

lemma wrote_simps [simp]: "wrote (after_gauges cm)" "wrote Answered" "\<not> wrote (WriteGauges gm cm)" "wrote (WriteCounters cm)"
  by (simp_all add: wrote_def after_gauges_def)

lemma serve_inv_start: "serve_inv g bs (serving g k bs)"
proof -
  have "fmlookup (fst b) n = None" if "wrote (begin_batch b)" for b and n
    using that by (cases b) (auto simp: begin_batch_def split: if_splits)
  moreover have "gm = fst b" if "begin_batch b = WriteGauges gm cm" for b gm cm
    using that by (cases b) (auto simp: begin_batch_def after_gauges_def split: if_splits)
  ultimately show ?thesis by (auto simp: serve_inv_def serving_def)
qed

lemma serve_inv_step:
  assumes "serve_step s s'" and inv: "serve_inv g bs s"
  shows "serve_inv g bs s'"
  using assms(1)
proof cases
  case (gauges i gm cm)
  have len: "length (sv_phases s) = length bs" and gm: "gm = fst (bs ! i)" using gauges inv by (auto simp: serve_inv_def)
  show ?thesis
  proof -
    have "(fmlookup (sv_gauges s') n = fmlookup g n \<and> (\<forall>j < length bs. wrote (sv_phases s' ! j) \<longrightarrow> fmlookup (fst (bs ! j)) n = None)) \<or>
       (\<exists>j < length bs. wrote (sv_phases s' ! j) \<and> fmlookup (fst (bs ! j)) n \<noteq> None \<and> fmlookup (sv_gauges s') n = fmlookup (fst (bs ! j)) n)" for n
    proof (cases "fmlookup gm n")
      case (Some v)
      with gauges len gm show ?thesis by (intro disjI2 exI [of _ i]) simp
    next
      case None
      then have same: "fmlookup (sv_gauges s') n = fmlookup (sv_gauges s) n" using gauges by simp
      have w: "wrote (sv_phases s' ! j) \<longleftrightarrow> j = i \<or> wrote (sv_phases s ! j)" if "j < length bs" for j
        using that gauges len by (cases "j = i") simp_all
      have "(fmlookup (sv_gauges s) n = fmlookup g n \<and> (\<forall>j < length bs. wrote (sv_phases s ! j) \<longrightarrow> fmlookup (fst (bs ! j)) n = None)) \<or>
         (\<exists>j < length bs. wrote (sv_phases s ! j) \<and> fmlookup (fst (bs ! j)) n \<noteq> None \<and> fmlookup (sv_gauges s) n = fmlookup (fst (bs ! j)) n)"
        using inv by (simp add: serve_inv_def)
      then show ?thesis using same w None gm by auto
    qed
    moreover have "sv_phases s' ! j = WriteGauges gm' cm' \<Longrightarrow> j < length bs \<Longrightarrow> gm' = fst (bs ! j)" for j gm' cm'
      using inv gauges len by (cases "j = i") (auto simp: serve_inv_def after_gauges_def split: if_splits)
    ultimately show ?thesis using gauges len by (simp add: serve_inv_def)
  qed
next
  case (counters i cm)
  have len: "length (sv_phases s) = length bs" using inv by (simp add: serve_inv_def)
  have "wrote (sv_phases s' ! j) = wrote (sv_phases s ! j)" "sv_phases s' ! j = WriteGauges gm' cm' \<longleftrightarrow> sv_phases s ! j = WriteGauges gm' cm'"
    if "j < length bs" for j gm' cm'
    using that counters len by (cases "j = i"; simp)+
  then show ?thesis using inv counters by (simp add: serve_inv_def cong: conj_cong)
qed

section \<open>Runs\<close>

lemma serve_run:
  assumes "serve_step\<^sup>*\<^sup>* s s'"
  shows "all_counters (map owed (sv_phases s')) (sv_counters s') = all_counters (map owed (sv_phases s)) (sv_counters s)"
    and "serve_inv g bs s \<Longrightarrow> serve_inv g bs s'"
proof -
  show "all_counters (map owed (sv_phases s')) (sv_counters s') = all_counters (map owed (sv_phases s)) (sv_counters s)"
    using assms by (induction rule: rtranclp_induct) (simp_all add: owed_step)
  show "serve_inv g bs s \<Longrightarrow> serve_inv g bs s'"
    using assms by (induction rule: rtranclp_induct) (blast intro: serve_inv_step)+
qed

text \<open>The steps a handler has left; a run of unanswered handlers can always go on.\<close>

primrec phase_steps :: "phase \<Rightarrow> nat" where
  "phase_steps (WriteGauges gm cm) = 2"
| "phase_steps (WriteCounters cm) = 1"
| "phase_steps Answered = 0"

definition steps_left :: "Serving \<Rightarrow> nat" where
  "steps_left s = sum_list (map phase_steps (sv_phases s))"

lemma steps_decrease: "serve_step s s' \<Longrightarrow> steps_left s' < steps_left s"
proof (erule serve_stepE, goal_cases)
  case (1 i gm cm)
  then show ?case
    using sum_map_update [of i "sv_phases s" phase_steps "after_gauges cm"] by (simp add: steps_left_def after_gauges_def split: if_splits)
next
  case (2 i cm)
  then show ?case using sum_map_update [of i "sv_phases s" phase_steps Answered] by (simp add: steps_left_def)
qed

lemma serve_progress:
  assumes "\<not> set (sv_phases s) \<subseteq> {Answered}"
  shows "\<exists>s'. serve_step s s'"
proof -
  from assms obtain p where "p \<in> set (sv_phases s)" "p \<noteq> Answered" by blast
  then obtain i where i: "i < length (sv_phases s)" "sv_phases s ! i \<noteq> Answered" by (auto simp: in_set_conv_nth)
  then show ?thesis by (cases "sv_phases s ! i") (blast intro: serve_step.intros)+
qed

lemma run_shortens: "(serve_step ^^ n) s s' \<Longrightarrow> n + steps_left s' \<le> steps_left s"
proof (induction n arbitrary: s')
  case (Suc n)
  then obtain t where "(serve_step ^^ n) s t" "serve_step t s'" by auto
  with Suc.IH [of t] steps_decrease [of t s'] show ?case by simp
qed simp

lemma run_bound: "(serve_step ^^ n) (serving g k bs) s \<Longrightarrow> n \<le> 2 * length bs"
proof -
  assume "(serve_step ^^ n) (serving g k bs) s"
  then have "n \<le> steps_left (serving g k bs)" using run_shortens by fastforce
  moreover have "steps_left (serving g k bs) \<le> 2 * length bs"
  proof (induction bs)
    case (Cons b bs)
    have "phase_steps (begin_batch b) \<le> 2" by (cases b) (simp add: begin_batch_def after_gauges_def)
    with Cons show ?case by (simp add: steps_left_def serving_def)
  qed (simp add: steps_left_def serving_def)
  ultimately show ?thesis by simp
qed

lemma in_turn_result:
  "mem_inv ms \<Longrightarrow> \<exists>ms'. in_turn_batches rw w bs ms = Ret ms' \<and> mem_inv ms' \<and>
     mem_counters ms' = all_counters (map snd bs) (mem_counters ms)"
proof (induction bs arbitrary: ms)
  case (Cons b bs)
  obtain gm cm where b: "b = (gm, cm)" by (cases b)
  have "\<exists>w' ms1. store_batch memory_db rw gm cm w ms = Ret (w', ms1) \<and> mem_inv ms1 \<and> mem_counters ms1 = add_counters cm (mem_counters ms)"
    using Cons.prems by (simp add: store_batch_def store_gauges_def store_counters_def memory_sets)
  then obtain w' ms1 where "store_batch memory_db rw gm cm w ms = Ret (w', ms1)" "mem_inv ms1"
    "mem_counters ms1 = add_counters cm (mem_counters ms)" by blast
  with Cons.IH [of ms1] b show ?case by (auto simp: all_counters_add)
qed simp

text \<open>When all are answered.\<close>

lemma all_answered:
  assumes "serve_step\<^sup>*\<^sup>* (serving g k bs) s" and "set (sv_phases s) \<subseteq> {Answered}"
  shows "sv_counters s = all_counters (map snd bs) k"
    and "(fmlookup (sv_gauges s) n = fmlookup g n \<and> (\<forall>b \<in> set bs. fmlookup (fst b) n = None)) \<or>
      (\<exists>b \<in> set bs. fmlookup (fst b) n \<noteq> None \<and> fmlookup (sv_gauges s) n = fmlookup (fst b) n)"
proof -
  let ?s0 = "serving g k bs"
  have "map owed (sv_phases s) = replicate (length (sv_phases s)) fmempty"
    using assms(2) by (intro replicate_eqI) (auto simp: subset_iff)
  moreover have "all_counters (replicate n fmempty) k = k" for n k by (induction n) simp_all
  moreover have "map owed (sv_phases ?s0) = map snd bs" and "sv_counters ?s0 = k"
  proof -
    have "owed (begin_batch b) = snd b" for b by (cases b) simp
    then show "map owed (sv_phases ?s0) = map snd bs" by (simp add: serving_def)
  qed (simp add: serving_def)
  ultimately show "sv_counters s = all_counters (map snd bs) k"
    using serve_run(1) [OF assms(1)] by simp
  have inv: "serve_inv g bs s" by (rule serve_run(2) [OF assms(1) serve_inv_start])
  have "wrote (sv_phases s ! i)" if "i < length bs" for i
  proof -
    have "i < length (sv_phases s)" using that inv by (simp add: serve_inv_def)
    then have "sv_phases s ! i \<in> set (sv_phases s)" by (rule nth_mem)
    then have "sv_phases s ! i = Answered" using assms(2) by blast
    then show ?thesis by simp
  qed
  with inv show "(fmlookup (sv_gauges s) n = fmlookup g n \<and> (\<forall>b \<in> set bs. fmlookup (fst b) n = None)) \<or>
      (\<exists>b \<in> set bs. fmlookup (fst b) n \<noteq> None \<and> fmlookup (sv_gauges s) n = fmlookup (fst b) n)"
    unfolding serve_inv_def all_set_conv_all_nth Bex_def in_set_conv_nth by metis
qed

text \<open>
  C10. Batches served at the same time by an in-memory server: however the transactions of
  their handlers interleave, the run ends, after at most two steps for each batch; as long as
  a batch is not answered some handler can go on; and when all are answered the counters are
  those of serving the batches one after the other, and every gauge has the value of one of the
  batches that set it, or its old one if none did.
\<close>

theorem concurrent_batches:
  assumes "mem_inv ms"
  shows "\<exists>ms'. in_turn_batches rw w bs ms = Ret ms' \<and>
    (\<forall>steps s. (serve_step ^^ steps) (serving (mem_gauges ms) (mem_counters ms) bs) s \<longrightarrow>
      steps \<le> 2 * length bs \<and>
      (if set (sv_phases s) \<subseteq> {Answered}
       then sv_counters s = mem_counters ms' \<and>
         (\<forall>n. (fmlookup (sv_gauges s) n = fmlookup (mem_gauges ms) n \<and> (\<forall>b \<in> set bs. fmlookup (fst b) n = None)) \<or>
           (\<exists>b \<in> set bs. fmlookup (fst b) n \<noteq> None \<and> fmlookup (sv_gauges s) n = fmlookup (fst b) n))
       else \<exists>s'. serve_step s s'))"
proof -
  obtain ms' where ms': "in_turn_batches rw w bs ms = Ret ms'" "mem_counters ms' = all_counters (map snd bs) (mem_counters ms)"
    using in_turn_result [OF assms, of rw w bs] by blast
  show ?thesis
    using ms' run_bound all_answered [OF relpowp_imp_rtranclp] serve_progress by (intro exI [of _ ms']) auto
qed

text \<open>A handler alone: its phases are \<open>store_batch\<close>.\<close>

lemma batch_is_its_phases:
  assumes "mem_inv ms"
  shows "\<exists>w' ms'. store_batch memory_db rw gm cm w ms = Ret (w', ms') \<and>
    serve_step\<^sup>*\<^sup>* (serving (mem_gauges ms) (mem_counters ms) [(gm, cm)]) \<lparr>sv_gauges = mem_gauges ms', sv_counters = mem_counters ms', sv_phases = [Answered]\<rparr>"
proof -
  have g: "serve_step \<lparr>sv_gauges = g, sv_counters = k, sv_phases = [WriteGauges gm cm]\<rparr>
      \<lparr>sv_gauges = fmadd g gm, sv_counters = k, sv_phases = [after_gauges cm]\<rparr>" for g k
    using serve_step.gauges [of 0 "\<lparr>sv_gauges = g, sv_counters = k, sv_phases = [WriteGauges gm cm]\<rparr>"] by simp
  have k: "serve_step\<^sup>*\<^sup>* \<lparr>sv_gauges = g, sv_counters = k, sv_phases = [after_gauges cm]\<rparr>
      \<lparr>sv_gauges = g, sv_counters = add_counters cm k, sv_phases = [Answered]\<rparr>" for g k
    using serve_step.counters [of 0 "\<lparr>sv_gauges = g, sv_counters = k, sv_phases = [WriteCounters cm]\<rparr>"]
    by (cases "0 < map_len cm") (auto simp: after_gauges_def)
  show ?thesis
    using assms k [of "mem_gauges ms" "mem_counters ms"] converse_rtranclp_into_rtranclp [OF g k, of "mem_gauges ms" "mem_counters ms"]
    by (cases "cm = fmempty")
      (simp_all add: store_batch_def store_gauges_def store_counters_def memory_sets serving_def begin_batch_def)
qed

text \<open>A query between the two steps sees the gauges of a batch and not its counters.\<close>

lemma half_batch_visible:
  assumes "gm \<noteq> fmempty" and "cm \<noteq> fmempty"
  shows "serve_step (serving g k [(gm, cm)])
    \<lparr>sv_gauges = fmadd g gm, sv_counters = k, sv_phases = [WriteCounters cm]\<rparr>"
  using serve_step.gauges [of 0 "serving g k [(gm, cm)]" gm cm] assms
  by (simp add: serving_def begin_batch_def after_gauges_def)

text \<open>Two batches that interleave: the second writes its gauge between the two steps of the first.\<close>

abbreviation two_served :: "float64 gomap \<Rightarrow> int64 gomap \<Rightarrow> phase \<Rightarrow> phase \<Rightarrow> Serving" where
  "two_served g k p q \<equiv> \<lparr>sv_gauges = g, sv_counters = k, sv_phases = [p, q]\<rparr>"

lemma two_steps:
  "serve_step (two_served g k (WriteGauges gm cm) q) (two_served (fmadd g gm) k (after_gauges cm) q)"
  "serve_step (two_served g k p (WriteGauges gm cm)) (two_served (fmadd g gm) k p (after_gauges cm))"
  "serve_step (two_served g k (WriteCounters cm) q) (two_served g (add_counters cm k) Answered q)"
  "serve_step (two_served g k p (WriteCounters cm)) (two_served g (add_counters cm k) p Answered)"
  using serve_step.gauges [of 0 "two_served g k (WriteGauges gm cm) q"] serve_step.gauges [of 1 "two_served g k p (WriteGauges gm cm)"]
    serve_step.counters [of 0 "two_served g k (WriteCounters cm) q"] serve_step.counters [of 1 "two_served g k p (WriteCounters cm)"]
  by simp_all

lemma example_run:
  assumes "ga \<noteq> fmempty" and "gb \<noteq> fmempty" and "ca \<noteq> fmempty" and "cb \<noteq> fmempty"
  shows "serve_step\<^sup>*\<^sup>* (serving g k [(ga, ca), (gb, cb)])
    (two_served (fmadd (fmadd g ga) gb) (add_counters ca (add_counters cb k)) Answered Answered)"
proof -
  have start: "serving g k [(ga, ca), (gb, cb)] = two_served g k (WriteGauges ga ca) (WriteGauges gb cb)"
    using assms by (simp add: serving_def begin_batch_def)
  have a: "after_gauges ca = WriteCounters ca" "after_gauges cb = WriteCounters cb" using assms by (simp_all add: after_gauges_def)
  note s1 = two_steps(1) [of g k ga ca "WriteGauges gb cb", unfolded a(1)]
    and s2 = two_steps(2) [of "fmadd g ga" k "WriteCounters ca" gb cb, unfolded a(2)]
    and s3 = two_steps(4) [of "fmadd (fmadd g ga) gb" k "WriteCounters ca" cb]
    and s4 = two_steps(3) [of "fmadd (fmadd g ga) gb" "add_counters cb k" ca Answered]
  show ?thesis
    unfolding start
    by (rule converse_rtranclp_into_rtranclp [OF s1 converse_rtranclp_into_rtranclp [OF s2 converse_rtranclp_into_rtranclp [OF s3 r_into_rtranclp [where r = serve_step, OF s4]]]])
qed

theorem concurrent_batches_witness:
  "\<exists>ms' s steps. in_turn_batches net_writer fresh_writer
      [(fmupd ''x'' 1 fmempty, fmupd ''c'' 3 fmempty), (fmupd ''x'' 2 fmempty, fmupd ''c'' 4 fmempty)] Memory_Init = Ret ms' \<and>
    (serve_step ^^ steps) (serving fmempty fmempty
      [(fmupd ''x'' 1 fmempty, fmupd ''c'' 3 fmempty), (fmupd ''x'' 2 fmempty, fmupd ''c'' 4 fmempty)]) s \<and> steps \<le> 4 \<and>
    sv_counters s = mem_counters ms' \<and> fmlookup (sv_counters s) ''c'' = Some 7"
proof -
  let ?bs = "[(fmupd ''x'' 1 fmempty, fmupd ''c'' 3 fmempty), (fmupd ''x'' 2 fmempty, fmupd ''c'' 4 fmempty)]"
  let ?s = "two_served (fmadd (fmadd fmempty (fmupd ''x'' 1 fmempty)) (fmupd ''x'' 2 fmempty))
    (add_counters (fmupd ''c'' 3 fmempty) (add_counters (fmupd ''c'' 4 fmempty) fmempty)) Answered Answered"
  have "serve_step\<^sup>*\<^sup>* (serving fmempty fmempty ?bs) ?s"
    using example_run [of "fmupd ''x'' 1 fmempty" "fmupd ''x'' 2 fmempty" "fmupd ''c'' 3 fmempty" "fmupd ''c'' 4 fmempty" fmempty fmempty] by simp
  then obtain steps where run: "(serve_step ^^ steps) (serving fmempty fmempty ?bs) ?s" using rtranclp_imp_relpowp by metis
  moreover have "set (sv_phases ?s) \<subseteq> {Answered}" "fmlookup (sv_counters ?s) ''c'' = Some 7" by simp_all
  ultimately show ?thesis
    using concurrent_batches [OF mem_inv_Init(1), of net_writer fresh_writer ?bs] by fastforce
qed

end
