(* ===== verification/Shared_Hash.thy ===== *)
theory Shared_Hash
  imports Monclient_Facts
begin

text \<open>
  The keyed hash of \<open>MonClient\<close> (\<open>internal/monclient/monclient.go\<close>), which all
  workers of \<open>PollStatsBatch\<close> share without a lock: the \<open>Write\<close>, \<open>Sum\<close> and
  \<open>Reset\<close> of \<open>Post\<close> as steps of one worker each. Every call is taken as atomic,
  which is the best case: the hash itself is not safe for concurrent use.
\<close>

section \<open>State and steps\<close>

text \<open>Where a worker is in \<open>Post\<close>, with the body and the signature it holds.\<close>

datatype signer = Free | Wrote bytes | Summed bytes string | Posting bytes string

record Sharing =
  hash_acc :: bytes
  signers :: "signer list"
  sent_signed :: "(bytes \<times> string) list"

definition hash_init :: "nat \<Rightarrow> Sharing" where
  "hash_init n = \<lparr>hash_acc = [], signers = replicate n Free, sent_signed = []\<rparr>"

inductive hash_step :: "(bytes \<Rightarrow> bytes) \<Rightarrow> Sharing \<Rightarrow> Sharing \<Rightarrow> bool" for mac where
  do_write: "i < length (signers s) \<Longrightarrow> signers s ! i = Free \<Longrightarrow>
    hash_step mac s (s\<lparr>hash_acc := hash_acc s @ p, signers := (signers s)[i := Wrote p]\<rparr>)"
| do_sum: "i < length (signers s) \<Longrightarrow> signers s ! i = Wrote p \<Longrightarrow>
    hash_step mac s (s\<lparr>signers := (signers s)[i := Summed p (b64_encode (mac (hash_acc s)))]\<rparr>)"
| do_reset: "i < length (signers s) \<Longrightarrow> signers s ! i = Summed p sign \<Longrightarrow>
    hash_step mac s (s\<lparr>hash_acc := [], signers := (signers s)[i := Posting p sign]\<rparr>)"
| do_post: "i < length (signers s) \<Longrightarrow> signers s ! i = Posting p sign \<Longrightarrow>
    hash_step mac s (s\<lparr>signers := (signers s)[i := Free], sent_signed := (p, sign) # sent_signed s\<rparr>)"

definition hash_reach :: "(bytes \<Rightarrow> bytes) \<Rightarrow> nat \<Rightarrow> Sharing \<Rightarrow> bool" where
  "hash_reach mac n s \<longleftrightarrow> (hash_step mac)\<^sup>*\<^sup>* (hash_init n) s"

text \<open>The request a worker posts, as \<open>Post\<close> builds it.\<close>

definition signed_request :: "'z Gzip \<Rightarrow> bytes \<Rightarrow> string \<Rightarrow> Request" where
  "signed_request gz p sign =
     \<lparr>Method = ''POST'', URLParams = fmempty, rHeader = post_headers (Some sign), rBody = NopCloser (gzip_bytes gz p)\<rparr>"

lemma post_request_signed:
  "mc_cryptoKey m = None \<Longrightarrow> mc_h m = Some (key, q) \<Longrightarrow>
   post_request gz hmac cr rnd m p path =
     Ret ((mc_addr m @ path, signed_request gz p (b64_encode (hmac key (q @ p)))), m\<lparr>mc_h := Some (key, [])\<rparr>)"
  by (simp add: post_request_def signed_request_def)

section \<open>One worker\<close>

text \<open>What the only worker's state says of the hash.\<close>

definition signer_inv :: "(bytes \<Rightarrow> bytes) \<Rightarrow> Sharing \<Rightarrow> bool" where
  "signer_inv mac s \<longleftrightarrow>
     (\<exists>w. signers s = [w] \<and>
       (case w of
          Free \<Rightarrow> hash_acc s = []
        | Wrote p \<Rightarrow> hash_acc s = p
        | Summed p sign \<Rightarrow> hash_acc s = p \<and> sign = b64_encode (mac p)
        | Posting p sign \<Rightarrow> hash_acc s = [] \<and> sign = b64_encode (mac p))) \<and>
     (\<forall>(p, sign) \<in> set (sent_signed s). sign = b64_encode (mac p))"

lemma signer_inv_step: "hash_step mac s s' \<Longrightarrow> signer_inv mac s \<Longrightarrow> signer_inv mac s'"
  by (induction rule: hash_step.induct) (auto simp: signer_inv_def)

lemma signer_inv_reach: "hash_reach mac (Suc 0) s \<Longrightarrow> signer_inv mac s"
  unfolding hash_reach_def
proof (induction rule: rtranclp_induct)
  case base
  show ?case by (simp add: signer_inv_def hash_init_def)
qed (rule signer_inv_step)

text \<open>
  With a single worker (a rate limit of 1) every request that is ever sent carries the
  keyed hash of its own body, in whatever state the run is looked at; so the server's check of
  its signature passes.
\<close>

theorem single_worker_signs:
  assumes "hash_reach (hmac key) 1 s" and "(p, sign) \<in> set (sent_signed s)"
  shows "b64_decode sign = Some (hmac key p) \<and>
    (\<forall>req. hdr_Get ''HashSHA256'' (rHeader req) = sign \<and> content (rBody req) = p \<longrightarrow> (\<exists>req'. checked hmac key req = Inr req'))"
proof -
  have "signer_inv (hmac key) s" using signer_inv_reach assms(1) by simp
  with assms(2) have "sign = b64_encode (hmac key p)" by (auto simp: signer_inv_def)
  then show ?thesis by (auto simp: b64_decode_encode checked_def Let_def)
qed

lemma one_signed: "hash_reach mac 1 \<lparr>hash_acc = [], signers = [Free], sent_signed = [(p, b64_encode (mac p))]\<rparr>"
proof -
  let ?s = "\<lambda>a w ss. \<lparr>hash_acc = a, signers = [w], sent_signed = ss\<rparr>"
  let ?sig = "b64_encode (mac p)"
  have "hash_step mac (hash_init 1) (?s p (Wrote p) [])"
    using hash_step.do_write [of 0 "hash_init 1" mac p] by (simp add: hash_init_def)
  moreover have "hash_step mac (?s p (Wrote p) []) (?s p (Summed p ?sig) [])"
    using hash_step.do_sum [of 0 "?s p (Wrote p) []" p mac] by simp
  moreover have "hash_step mac (?s p (Summed p ?sig) []) (?s [] (Posting p ?sig) [])"
    using hash_step.do_reset [of 0 "?s p (Summed p ?sig) []" p ?sig mac] by simp
  moreover have "hash_step mac (?s [] (Posting p ?sig) []) (?s [] Free [(p, ?sig)])"
    using hash_step.do_post [of 0 "?s [] (Posting p ?sig) []" p ?sig mac] by simp
  ultimately show ?thesis unfolding hash_reach_def
    by (meson converse_rtranclp_into_rtranclp rtranclp.rtrancl_refl)
qed

theorem single_worker_signs_witness:
  "b64_decode (b64_encode ''key[]'') = Some ''key[]'' \<and>
   (\<exists>req'. checked (lib_hmac toy_libs) ''key'' ((json_request ''[]'')\<lparr>rHeader := hdr_Set ''HashSHA256'' (b64_encode ''key[]'') fmempty\<rparr>) = Inr req')"
  using single_worker_signs [where hmac = "lib_hmac toy_libs" and key = "''key''", OF one_signed, of "''[]''" "b64_encode ''key[]''" "''[]''"]
  by (simp add: toy_libs_def json_request_def NopCloser_def hdr_Get_Set)

section \<open>Several workers\<close>

text \<open>A first worker writes \<open>q\<close>, then the second makes its whole post of \<open>p\<close>.\<close>

definition overlapped :: "(bytes \<Rightarrow> bytes) \<Rightarrow> nat \<Rightarrow> bytes \<Rightarrow> bytes \<Rightarrow> Sharing" where
  "overlapped mac n q p = \<lparr>hash_acc = [], signers = (replicate n Free)[0 := Wrote q], sent_signed = [(p, b64_encode (mac (q @ p)))]\<rparr>"

lemma overlapped_reach: "1 < n \<Longrightarrow> hash_reach mac n (overlapped mac n q p)"
proof -
  assume n: "1 < n"
  let ?s = "\<lambda>a w ss. \<lparr>hash_acc = a, signers = (replicate n Free)[0 := Wrote q, Suc 0 := w], sent_signed = ss\<rparr>"
  let ?sig = "b64_encode (mac (q @ p))"
  have free: "(replicate n Free)[0 := Wrote q, Suc 0 := Free] = (replicate n Free)[0 := Wrote q]"
    using n by (simp add: list_eq_iff_nth_eq nth_list_update)
  have "hash_step mac (hash_init n) (?s q Free [])"
    using hash_step.do_write [of 0 "hash_init n" mac q] n by (simp add: hash_init_def free)
  moreover have "hash_step mac (?s q Free []) (?s (q @ p) (Wrote p) [])"
    using hash_step.do_write [of "Suc 0" "?s q Free []" mac p] n by simp
  moreover have "hash_step mac (?s (q @ p) (Wrote p) []) (?s (q @ p) (Summed p ?sig) [])"
    using hash_step.do_sum [of "Suc 0" "?s (q @ p) (Wrote p) []" p mac] n by simp
  moreover have "hash_step mac (?s (q @ p) (Summed p ?sig) []) (?s [] (Posting p ?sig) [])"
    using hash_step.do_reset [of "Suc 0" "?s (q @ p) (Summed p ?sig) []" p ?sig mac] n by simp
  moreover have "hash_step mac (?s [] (Posting p ?sig) []) (overlapped mac n q p)"
    using hash_step.do_post [of "Suc 0" "?s [] (Posting p ?sig) []" p ?sig mac] n
    by (simp add: overlapped_def free)
  ultimately show ?thesis unfolding hash_reach_def
    by (meson converse_rtranclp_into_rtranclp rtranclp.rtrancl_refl)
qed

text \<open>
  C22. With two or more workers a correct report can be refused: while one worker has written
  its body to the shared hash, another posts its own with a signature over both bodies, and
  the server that has the same key answers 400 and stores nothing (unless the hash collides).
  The request is the one \<open>Post\<close> builds when the hash already holds the other body.
\<close>

theorem shared_hash_rejected:
  assumes "chi_laws chi" and "chi_Find chi (map fst (MountHandlers chi lib tmpl (NewInstance memory_db key ck))) ''POST'' updateBatchPath = Some (6, params)"
    and "mem_inv ms" and "gz_pair gz (lib_gz lib)" and "key \<noteq> []" and "1 < n"
    and "lib_hmac lib key (q @ p) \<notin> {[], lib_hmac lib key p}"
  shows "\<exists>s sign w ms'. hash_reach (lib_hmac lib key) n s \<and> (p, sign) \<in> set (sent_signed s) \<and>
    ServeHTTP chi lib tmpl (NewInstance memory_db key ck) updateBatchPath (signed_request gz p sign) ms = Ret (w, ms') \<and>
    conn_code w = Some 400 \<and> mem_gauges ms' = mem_gauges ms \<and> mem_counters ms' = mem_counters ms"
proof -
  let ?sig = "b64_encode (lib_hmac lib key (q @ p))"
  let ?req = "signed_request gz p ?sig"
  have unc: "uncompressed (lib_gz lib) (?req\<lparr>URLParams := params\<rparr>) =
      Inr (?req\<lparr>URLParams := params, rBody := \<lparr>content = p, read_err = None, close_err = None\<rparr>\<rparr>)"
    using assms(4) by (simp add: uncompressed_def signed_request_def post_headers_get contains_gzip NewGzipReader_def NopCloser_def gz_pair_def)
  have "admit lib key ck (?req\<lparr>URLParams := params\<rparr>) = Ret (Inl 400)"
    unfolding admit_def unc using assms(5,7) by (simp add: checked_def signed_request_def post_headers_get b64_decode_encode b64_encode_empty_iff)
  moreover have "chi_Find chi (map fst (MountHandlers chi lib tmpl (NewInstance memory_db key ck))) (Method ?req) updateBatchPath = Some (6, params)"
    using assms(2) by (simp add: signed_request_def)
  ultimately obtain w ms' where "ServeHTTP chi lib tmpl (NewInstance memory_db key ck) updateBatchPath ?req ms = Ret (w, ms')"
    "conn_code w = Some 400" "mem_gauges ms' = mem_gauges ms" "mem_counters ms' = mem_counters ms"
    using admit_rejects [OF assms(1) _ _ assms(3), of lib tmpl key ck ?req updateBatchPath 6 params 400] by auto
  moreover have "(p, ?sig) \<in> set (sent_signed (overlapped (lib_hmac lib key) n q p))" by (simp add: overlapped_def)
  ultimately show ?thesis using overlapped_reach [OF assms(6)] by blast
qed

theorem shared_hash_rejected_witness:
  "\<exists>s sign w ms'. hash_reach (lib_hmac toy_libs ''key'') 3 s \<and> (''[]'', sign) \<in> set (sent_signed s) \<and>
    ServeHTTP (toy_chi fmempty) toy_libs None (NewInstance memory_db ''key'' None) updateBatchPath (signed_request toy_gz ''[]'' sign) Memory_Init =
      Ret (w, ms') \<and>
    conn_code w = Some 400 \<and> mem_gauges ms' = mem_gauges Memory_Init \<and> mem_counters ms' = mem_counters Memory_Init"
proof (rule shared_hash_rejected [OF toy_chi_laws, where params = fmempty and q = "''[{}]''"])
  show "chi_Find (toy_chi fmempty) (map fst (MountHandlers (toy_chi fmempty) toy_libs None (NewInstance memory_db ''key'' None))) ''POST'' updateBatchPath =
      Some (6, fmempty)"
    by (simp add: updateBatchPath_def toy_routes)
  show "gz_pair toy_gz (lib_gz toy_libs)"
    by (simp add: gz_pair_def toy_libs_def toy_gz_def gzip_bytes_def)
qed (simp_all add: toy_libs_def mem_inv_Init)

end
