(* ===== verification/Safe_Threads.thy ===== *)
theory Safe_Threads
  imports Safe "HOL-Library.Multiset"
begin

text \<open>
  Goroutines on one \<open>MRepo\<close> (\<open>internal/repo/safe/safe.go\<close>): the \<open>Update\<close>s and
  \<open>Read\<close>s of concurrent requests as a step relation. \<open>Begin\<close> and \<open>Unlock\<close> are
  the functions of \<open>Safe\<close>; between them an update looks up and stores one map entry at a
  time, and every step of another goroutine may come in between. A reader that called
  \<open>GetAll\<close> keeps a reference to the live map after its \<open>Unlock\<close> and ranges over it
  entry by entry. The relation lets a reader in while
  a writer waits, which Go's lock may not: it has every interleaving of the program.
\<close>

section \<open>State and steps\<close>

text \<open>
  A Go map is a reference: to the map the repository itself keeps, or to another one that no
  goroutine writes. \<open>GetAll\<close> returns the field \<open>Data\<close>, so the former.
\<close>

datatype 'v map_ref = LiveMap | OwnMap "'v gomap"

definition GetAll_ref :: "'v MRepoTx \<Rightarrow> 'v map_ref" where
  "GetAll_ref tx = LiveMap"

primrec contents :: "'v MRepo \<Rightarrow> 'v map_ref \<Rightarrow> 'v gomap" where
  "contents r LiveMap = Data r"
| "contents r (OwnMap m) = m"

lemma contents_GetAll: "contents (repo tx) (GetAll_ref tx) = GetAll tx"
  by (simp add: GetAll_ref_def GetAll_def)

text \<open>
  An update has its entries, those left to do, and the old value of the first of them once it
  is looked up. A goroutine that has read holds a map and the entries it has ranged over.
\<close>

datatype 'v goroutine =
    WantUpdate "(string \<times> 'v) list"
  | Updating "(string \<times> 'v) list" "(string \<times> 'v) list" "'v option option"
  | WantRead
  | Reading
  | HoldsMap "'v map_ref" "(string \<times> 'v) list"
  | Finished

text \<open>\<open>committed\<close> lists the updates in the order they unlocked; no step depends on it.\<close>

record 'v Shared =
  sh_repo :: "'v MRepo"
  goroutines :: "'v goroutine list"
  committed :: "(string \<times> 'v) list list"

text \<open>The value an entry gets: \<open>SetAccumAll\<close>'s sum or \<open>SetAll\<close>'s overwriting.\<close>

definition entry_value :: "('v \<Rightarrow> 'v \<Rightarrow> 'v) option \<Rightarrow> 'v option \<Rightarrow> 'v \<Rightarrow> 'v" where
  "entry_value add old v =
     (case (add, old) of (Some f, Some o') \<Rightarrow> f o' v | _ \<Rightarrow> v)"

inductive safe_step :: "('v \<Rightarrow> 'v \<Rightarrow> 'v) option \<Rightarrow> 'v Shared \<Rightarrow> 'v Shared \<Rightarrow> bool" for add where
  begin_update: "i < length (goroutines s) \<Longrightarrow> goroutines s ! i = WantUpdate kvs \<Longrightarrow> Begin True (sh_repo s) = Ret tx \<Longrightarrow>
    safe_step add s (s\<lparr>sh_repo := repo tx, goroutines := (goroutines s)[i := Updating kvs kvs None]\<rparr>)"
| look_up: "i < length (goroutines s) \<Longrightarrow> goroutines s ! i = Updating kvs ((k, v) # rest) None \<Longrightarrow>
    safe_step add s (s\<lparr>goroutines := (goroutines s)[i := Updating kvs ((k, v) # rest) (Some (fmlookup (Data (sh_repo s)) k))]\<rparr>)"
| store: "i < length (goroutines s) \<Longrightarrow> goroutines s ! i = Updating kvs ((k, v) # rest) (Some old) \<Longrightarrow>
    safe_step add s (s\<lparr>sh_repo := (sh_repo s)\<lparr>Data := fmupd k (entry_value add old v) (Data (sh_repo s))\<rparr>,
      goroutines := (goroutines s)[i := Updating kvs rest None]\<rparr>)"
| end_update: "i < length (goroutines s) \<Longrightarrow> goroutines s ! i = Updating kvs [] None \<Longrightarrow>
    Unlock \<lparr>repo = sh_repo s, writable = True\<rparr> = Ret tx \<Longrightarrow>
    safe_step add s (s\<lparr>sh_repo := repo tx, goroutines := (goroutines s)[i := Finished], committed := committed s @ [kvs]\<rparr>)"
| begin_read: "i < length (goroutines s) \<Longrightarrow> goroutines s ! i = WantRead \<Longrightarrow> Begin False (sh_repo s) = Ret tx \<Longrightarrow>
    safe_step add s (s\<lparr>sh_repo := repo tx, goroutines := (goroutines s)[i := Reading]\<rparr>)"
| end_read: "i < length (goroutines s) \<Longrightarrow> goroutines s ! i = Reading \<Longrightarrow>
    Unlock \<lparr>repo = sh_repo s, writable = False\<rparr> = Ret tx \<Longrightarrow>
    safe_step add s (s\<lparr>sh_repo := repo tx, goroutines := (goroutines s)[i := HoldsMap (GetAll_ref \<lparr>repo = sh_repo s, writable = False\<rparr>) []]\<rparr>)"
| range_map: "i < length (goroutines s) \<Longrightarrow> goroutines s ! i = HoldsMap ref seen \<Longrightarrow>
    k \<notin> fst ` set seen \<Longrightarrow> fmlookup (contents (sh_repo s) ref) k = Some v \<Longrightarrow>
    safe_step add s (s\<lparr>goroutines := (goroutines s)[i := HoldsMap ref (seen @ [(k, v)])]\<rparr>)"
| drop_map: "i < length (goroutines s) \<Longrightarrow> goroutines s ! i = HoldsMap ref seen \<Longrightarrow>
    safe_step add s (s\<lparr>goroutines := (goroutines s)[i := Finished]\<rparr>)"

definition safe_init :: "'v MRepo \<Rightarrow> 'v goroutine list \<Rightarrow> 'v Shared" where
  "safe_init r gs = \<lparr>sh_repo = r, goroutines = gs, committed = []\<rparr>"

definition safe_reach :: "('v \<Rightarrow> 'v \<Rightarrow> 'v) option \<Rightarrow> 'v MRepo \<Rightarrow> 'v goroutine list \<Rightarrow> 'v Shared \<Rightarrow> bool" where
  "safe_reach add r gs s \<longleftrightarrow> (safe_step add)\<^sup>*\<^sup>* (safe_init r gs) s"

text \<open>The updates, one after the other.\<close>

fun in_turn :: "('v \<Rightarrow> 'v \<Rightarrow> 'v) option \<Rightarrow> (string \<times> 'v) list list \<Rightarrow> 'v MRepo \<Rightarrow> 'v MRepo outcome" where
  "in_turn add [] r = Ret r"
| "in_turn add (kvs # us) r =
     bind_outcome (Update (\<lambda>tx. (None, case add of None \<Rightarrow> SetAll kvs tx | Some f \<Rightarrow> SetAccumAll f kvs tx)) r)
       (\<lambda>(_, r'). in_turn add us r')"

section \<open>The invariant\<close>

primrec job :: "'v goroutine \<Rightarrow> (string \<times> 'v) list multiset" where
  "job (WantUpdate kvs) = {#kvs#}"
| "job (Updating kvs rest l) = {#kvs#}"
| "job WantRead = {#}"
| "job Reading = {#}"
| "job (HoldsMap ref seen) = {#}"
| "job Finished = {#}"

primrec reads :: "'v goroutine \<Rightarrow> nat" where
  "reads (WantUpdate kvs) = 0"
| "reads (Updating kvs rest l) = 0"
| "reads WantRead = 0"
| "reads Reading = 1"
| "reads (HoldsMap ref seen) = 0"
| "reads Finished = 0"

definition is_updating :: "'v goroutine \<Rightarrow> bool" where
  "is_updating g \<longleftrightarrow> (\<exists>kvs rest l. g = Updating kvs rest l)"

lemma is_updating_simps [simp]:
  "is_updating (Updating kvs rest l)" "\<not> is_updating (WantUpdate kvs)" "\<not> is_updating WantRead"
  "\<not> is_updating Reading" "\<not> is_updating (HoldsMap ref seen)" "\<not> is_updating Finished"
  by (simp_all add: is_updating_def)

abbreviation jobs :: "'v goroutine list \<Rightarrow> (string \<times> 'v) list multiset" where
  "jobs gs \<equiv> sum_list (map job gs)"

abbreviation serial :: "('v \<Rightarrow> 'v \<Rightarrow> 'v) option \<Rightarrow> (string \<times> 'v) list list \<Rightarrow> 'v gomap \<Rightarrow> 'v gomap" where
  "serial add us m \<equiv> foldl (foldl (upd_entry (entry_value add))) m us"

text \<open>What a running update has done so far.\<close>

definition partway :: "('v \<Rightarrow> 'v \<Rightarrow> 'v) option \<Rightarrow> 'v gomap \<Rightarrow> 'v gomap \<Rightarrow> 'v goroutine \<Rightarrow> bool" where
  "partway add m0 m g \<longleftrightarrow>
     (\<forall>kvs rest l. g = Updating kvs rest l \<longrightarrow>
        (\<exists>front. kvs = front @ rest \<and> m = foldl (upd_entry (entry_value add)) m0 front) \<and>
        (\<forall>old. l = Some old \<longrightarrow> rest \<noteq> [] \<and> old = fmlookup m (fst (hd rest))))"

definition updaters :: "'v goroutine list \<Rightarrow> nat set" where
  "updaters gs = {i. i < length gs \<and> is_updating (gs ! i)}"

lemma updaters_update [simp]:
  "i < length gs \<Longrightarrow> updaters (gs[i := g]) = (if is_updating g then insert i (updaters gs) else updaters gs - {i})"
  by (auto simp: updaters_def nth_list_update)

definition lock_inv :: "'v Shared \<Rightarrow> bool" where
  "lock_inv s \<longleftrightarrow>
     readers (mu (sh_repo s)) = sum_list (map reads (goroutines s)) \<and>
     (writer (mu (sh_repo s)) \<longrightarrow> readers (mu (sh_repo s)) = 0) \<and>
     (writer (mu (sh_repo s)) \<longleftrightarrow> updaters (goroutines s) \<noteq> {}) \<and>
     (\<forall>i \<in> updaters (goroutines s). \<forall>j \<in> updaters (goroutines s). i = j)"

definition data_inv :: "('v \<Rightarrow> 'v \<Rightarrow> 'v) option \<Rightarrow> 'v gomap \<Rightarrow> 'v Shared \<Rightarrow> bool" where
  "data_inv add m s \<longleftrightarrow>
     (if updaters (goroutines s) = {} then Data (sh_repo s) = serial add (committed s) m
      else \<forall>i \<in> updaters (goroutines s). partway add (serial add (committed s) m) (Data (sh_repo s)) (goroutines s ! i))"

definition jobs_inv :: "'v goroutine list \<Rightarrow> 'v Shared \<Rightarrow> bool" where
  "jobs_inv gs s \<longleftrightarrow> jobs (goroutines s) + mset (committed s) = jobs gs"

text \<open>When the lock's functions return.\<close>

lemma Begin_Ret:
  "Begin True r = Ret tx \<longleftrightarrow> \<not> writer (mu r) \<and> readers (mu r) = 0 \<and>
     tx = \<lparr>repo = r\<lparr>mu := \<lparr>readers = 0, writer = True\<rparr>\<rparr>, writable = True\<rparr>"
  "Begin False r = Ret tx \<longleftrightarrow> \<not> writer (mu r) \<and>
     tx = \<lparr>repo = r\<lparr>mu := \<lparr>readers = Suc (readers (mu r)), writer = False\<rparr>\<rparr>, writable = False\<rparr>"
  by (cases "mu r"; auto simp: Begin_def Lock_def mutex_defs)+

lemma Unlock_Ret:
  "Unlock \<lparr>repo = r, writable = True\<rparr> = Ret tx \<longleftrightarrow> writer (mu r) \<and>
     tx = \<lparr>repo = r\<lparr>mu := (mu r)\<lparr>writer := False\<rparr>\<rparr>, writable = True\<rparr>"
  "Unlock \<lparr>repo = r, writable = False\<rparr> = Ret tx \<longleftrightarrow> readers (mu r) \<noteq> 0 \<and>
     tx = \<lparr>repo = r\<lparr>mu := (mu r)\<lparr>readers := readers (mu r) - 1\<rparr>\<rparr>, writable = False\<rparr>"
  by (auto simp: Unlock_def mutex_defs)

lemma sum_job_update:
  "i < length gs \<Longrightarrow> gs ! i = g \<Longrightarrow> jobs (gs[i := g']) + job g = jobs gs + job g'"
  "i < length gs \<Longrightarrow> gs ! i = g \<Longrightarrow> sum_list (map reads (gs[i := g'])) + reads g = sum_list (map reads gs) + reads g'"
  using sum_map_update [of i gs job g'] sum_map_update [of i gs reads g'] by simp_all

lemma jobs_inv_step: "safe_step add s s' \<Longrightarrow> jobs_inv gs s \<Longrightarrow> jobs_inv gs s'"
proof (induction rule: safe_step.induct)
  case (begin_update i s kvs tx)
  then show ?case using sum_job_update(1) [OF begin_update(1,2), of "Updating kvs kvs None"] by (simp add: jobs_inv_def)
next
  case (look_up i s kvs k v rest)
  then show ?case using sum_job_update(1) [OF look_up(1,2), of "Updating kvs ((k, v) # rest) (Some (fmlookup (Data (sh_repo s)) k))"] by (simp add: jobs_inv_def)
next
  case (store i s kvs k v rest old)
  then show ?case using sum_job_update(1) [OF store(1,2), of "Updating kvs rest None"] by (simp add: jobs_inv_def)
next
  case (end_update i s kvs tx)
  have "jobs (goroutines s) = add_mset kvs (jobs ((goroutines s)[i := Finished]))"
    using sum_job_update(1) [OF end_update(1,2), of Finished] by simp
  with end_update show ?case by (simp add: jobs_inv_def)
next
  case (begin_read i s tx)
  then show ?case using sum_job_update(1) [OF begin_read(1,2), of Reading] by (simp add: jobs_inv_def)
next
  case (end_read i s tx)
  then show ?case using sum_job_update(1) [OF end_read(1,2), of "HoldsMap (GetAll_ref \<lparr>repo = sh_repo s, writable = False\<rparr>) []"] by (simp add: jobs_inv_def)
next
  case (range_map i s ref seen k v)
  then show ?case using sum_job_update(1) [OF range_map(1,2), of "HoldsMap ref (seen @ [(k, v)])"] by (simp add: jobs_inv_def)
next
  case (drop_map i s ref seen)
  then show ?case using sum_job_update(1) [OF drop_map(1,2), of Finished] by (simp add: jobs_inv_def)
qed

lemma lock_inv_step: "safe_step add s s' \<Longrightarrow> lock_inv s \<Longrightarrow> lock_inv s'"
proof (induction rule: safe_step.induct)
  case (begin_update i s kvs tx)
  then show ?case using sum_job_update(2) [OF begin_update(1,2), of "Updating kvs kvs None"] by (auto simp: lock_inv_def Begin_Ret)
next
  case (look_up i s kvs k v rest)
  then have "i \<in> updaters (goroutines s)" by (simp add: updaters_def)
  then show ?case using sum_job_update(2) [OF look_up(1,2), of "Updating kvs ((k, v) # rest) (Some (fmlookup (Data (sh_repo s)) k))"] look_up
    by (auto simp: lock_inv_def)
next
  case (store i s kvs k v rest old)
  then have "i \<in> updaters (goroutines s)" by (simp add: updaters_def)
  then show ?case using sum_job_update(2) [OF store(1,2), of "Updating kvs rest None"] store by (auto simp: lock_inv_def)
next
  case (end_update i s kvs tx)
  then have "i \<in> updaters (goroutines s)" by (simp add: updaters_def)
  then show ?case using sum_job_update(2) [OF end_update(1,2), of Finished] end_update by (auto simp: lock_inv_def Unlock_Ret)
next
  case (begin_read i s tx)
  then have "i \<notin> updaters (goroutines s)" by (simp add: updaters_def)
  then show ?case using sum_job_update(2) [OF begin_read(1,2), of Reading] begin_read by (auto simp: lock_inv_def Begin_Ret)
next
  case (end_read i s tx)
  then have "i \<notin> updaters (goroutines s)" by (simp add: updaters_def)
  then show ?case using sum_job_update(2) [OF end_read(1,2), of "HoldsMap (GetAll_ref \<lparr>repo = sh_repo s, writable = False\<rparr>) []"] end_read
    by (auto simp: lock_inv_def Unlock_Ret)
next
  case (range_map i s ref seen k v)
  then have "i \<notin> updaters (goroutines s)" by (simp add: updaters_def)
  then show ?case using sum_job_update(2) [OF range_map(1,2), of "HoldsMap ref (seen @ [(k, v)])"] range_map by (auto simp: lock_inv_def)
next
  case (drop_map i s ref seen)
  then have "i \<notin> updaters (goroutines s)" by (simp add: updaters_def)
  then show ?case using sum_job_update(2) [OF drop_map(1,2), of Finished] drop_map by (auto simp: lock_inv_def)
qed

lemma no_updater: "lock_inv s \<Longrightarrow> \<not> writer (mu (sh_repo s)) \<Longrightarrow> updaters (goroutines s) = {}"
  by (simp add: lock_inv_def)

lemma only_updater: "lock_inv s \<Longrightarrow> i \<in> updaters (goroutines s) \<Longrightarrow> updaters (goroutines s) = {i}"
  by (auto simp: lock_inv_def)

lemma data_inv_step: "safe_step add s s' \<Longrightarrow> lock_inv s \<Longrightarrow> data_inv add m s \<Longrightarrow> data_inv add m s'"
proof (induction rule: safe_step.induct)
  case (begin_update i s kvs tx)
  then have "updaters (goroutines s) = {}" by (intro no_updater) (simp_all add: Begin_Ret)
  with begin_update show ?case by (auto simp: data_inv_def Begin_Ret partway_def)
next
  case (look_up i s kvs k v rest)
  then have "updaters (goroutines s) = {i}" by (intro only_updater) (simp_all add: updaters_def)
  with look_up show ?case by (auto simp: data_inv_def partway_def)
next
  case (store i s kvs k v rest old)
  then have i: "updaters (goroutines s) = {i}" by (intro only_updater) (simp_all add: updaters_def)
  with store obtain front where "kvs = front @ (k, v) # rest"
    "Data (sh_repo s) = foldl (upd_entry (entry_value add)) (serial add (committed s) m) front" "old = fmlookup (Data (sh_repo s)) k"
    by (auto simp: data_inv_def partway_def)
  then have "kvs = (front @ [(k, v)]) @ rest"
    "fmupd k (entry_value add old v) (Data (sh_repo s)) = foldl (upd_entry (entry_value add)) (serial add (committed s) m) (front @ [(k, v)])"
    by (simp_all add: upd_entry_def)
  with store(1) i show ?case unfolding data_inv_def partway_def by auto
next
  case (end_update i s kvs tx)
  then have "updaters (goroutines s) = {i}" by (intro only_updater) (simp_all add: updaters_def)
  with end_update show ?case by (auto simp: data_inv_def partway_def Unlock_Ret)
next
  case (begin_read i s tx)
  then have "updaters (goroutines s) = {}" by (intro no_updater) (simp_all add: Begin_Ret)
  with begin_read show ?case by (simp add: data_inv_def Begin_Ret)
next
  case (end_read i s tx)
  then have "i \<notin> updaters (goroutines s)" by (simp add: updaters_def)
  then have "updaters (goroutines s) - {i} = updaters (goroutines s)" "\<forall>j \<in> updaters (goroutines s). (goroutines s)[i := HoldsMap (GetAll_ref \<lparr>repo = sh_repo s, writable = False\<rparr>) []] ! j = goroutines s ! j"
    by (auto intro!: nth_list_update_neq)
  with end_read show ?case by (simp add: data_inv_def Unlock_Ret)
next
  case (range_map i s ref seen k v)
  then have "i \<notin> updaters (goroutines s)" by (simp add: updaters_def)
  then have "updaters (goroutines s) - {i} = updaters (goroutines s)" "\<forall>j \<in> updaters (goroutines s). (goroutines s)[i := HoldsMap ref (seen @ [(k, v)])] ! j = goroutines s ! j"
    by (auto intro!: nth_list_update_neq)
  with range_map show ?case by (simp add: data_inv_def)
next
  case (drop_map i s ref seen)
  then have "i \<notin> updaters (goroutines s)" by (simp add: updaters_def)
  then have "updaters (goroutines s) - {i} = updaters (goroutines s)" "\<forall>j \<in> updaters (goroutines s). (goroutines s)[i := Finished] ! j = goroutines s ! j"
    by (auto intro!: nth_list_update_neq)
  with drop_map show ?case by (simp add: data_inv_def)
qed

text \<open>The goroutines at the start.\<close>

definition waiting :: "'v goroutine \<Rightarrow> bool" where
  "waiting g \<longleftrightarrow> g = WantRead \<or> (\<exists>kvs. g = WantUpdate kvs)"

lemma safe_reach_inv:
  assumes "safe_reach add r gs s" and "idle r" and "list_all waiting gs"
  shows "lock_inv s \<and> data_inv add (Data r) s \<and> jobs_inv gs s"
  using assms(1) unfolding safe_reach_def
proof (induction rule: rtranclp_induct)
  case base
  have "updaters gs = {}" using assms(3) by (auto simp: updaters_def list_all_length waiting_def)
  moreover have "sum_list (map reads gs) = 0" using assms(3) by (induction gs) (auto simp: waiting_def)
  ultimately show ?case
    using assms(2) by (simp add: lock_inv_def data_inv_def jobs_inv_def safe_init_def idle_def RWMutex_zero_def)
next
  case (step y z)
  then show ?case using lock_inv_step data_inv_step jobs_inv_step by blast
qed

lemma reading_excluded: "lock_inv s \<Longrightarrow> j < length (goroutines s) \<Longrightarrow> goroutines s ! j = Reading \<Longrightarrow> updaters (goroutines s) = {}"
  using nth_mem [of j "goroutines s"] by (force simp: lock_inv_def)

section \<open>Progress\<close>

lemma safe_progress:
  assumes inv: "lock_inv s" "data_inv add m s" and "i < length (goroutines s)" and "goroutines s ! i \<noteq> Finished"
  shows "\<exists>s'. safe_step add s s'"
proof (cases "updaters (goroutines s) = {}")
  case False
  then obtain j where j: "j \<in> updaters (goroutines s)" by blast
  then obtain kvs rest l where g: "j < length (goroutines s)" "goroutines s ! j = Updating kvs rest l"
    by (auto simp: updaters_def is_updating_def)
  have l: "rest = [] \<longrightarrow> l = None" using inv(2) j g(2) False by (auto simp: data_inv_def partway_def)
  have w: "writer (mu (sh_repo s))" using inv(1) False by (simp add: lock_inv_def)
  show ?thesis
  proof (cases rest)
    case Nil
    with g l w show ?thesis using safe_step.end_update [of j s kvs _ add] by (simp add: Unlock_Ret) blast
  next
    case (Cons kv rest')
    with g show ?thesis
      by (cases kv; cases l) (auto intro: safe_step.look_up safe_step.store)
  qed
next
  case True
  then have w: "\<not> writer (mu (sh_repo s))" using inv(1) by (simp add: lock_inv_def)
  show ?thesis
  proof (cases "\<exists>j < length (goroutines s). goroutines s ! j = Reading")
    case True
    then obtain j where j: "j < length (goroutines s)" "goroutines s ! j = Reading" by blast
    have "\<exists>g \<in> set (goroutines s). 0 < reads g" using j nth_mem [of j "goroutines s"] by (intro bexI [of _ Reading]) simp_all
    then have "readers (mu (sh_repo s)) \<noteq> 0" using inv(1) by (simp add: lock_inv_def)
    with j show ?thesis using safe_step.end_read [of j s _ add] by (simp add: Unlock_Ret) blast
  next
    case False
    have "sum_list (map reads gs) = 0" if "\<forall>j < length gs. gs ! j \<noteq> Reading" for gs :: "'a goroutine list"
    proof -
      have "reads g = 0" if "g \<in> set gs" for g
        using \<open>\<forall>j < length gs. gs ! j \<noteq> Reading\<close> that by (cases g) (auto simp: in_set_conv_nth)
      then show ?thesis by simp
    qed
    with False have r: "readers (mu (sh_repo s)) = 0" using inv(1) by (simp add: lock_inv_def)
    have "\<not> is_updating (goroutines s ! i)" using True assms(3) by (auto simp: updaters_def)
    with assms(3,4) False w r show ?thesis
      using safe_step.begin_update [of i s _ _ add] safe_step.begin_read [of i s _ add] safe_step.drop_map [of i s _ _ add]
      by (cases "goroutines s ! i") (auto simp: Begin_Ret)
  qed
qed

section \<open>Properties\<close>

lemma in_turn_serial: "idle r \<Longrightarrow> in_turn add us r = Ret (r\<lparr>Data := serial add us (Data r)\<rparr>)"
proof (induction us arbitrary: r)
  case (Cons kvs us)
  have upd: "(case add of None \<Rightarrow> SetAll kvs tx | Some f \<Rightarrow> SetAccumAll f kvs tx) = tx_map (\<lambda>m. foldl (upd_entry (entry_value add)) m kvs) tx" for tx
    by (cases add) (simp_all add: SetAll_def SetAccumAll_def set_entry_upd accum_entry_upd entry_value_def [abs_def])
  have "idle (r\<lparr>Data := m\<rparr>)" for m using Cons.prems by (simp add: idle_def)
  then show ?case using Cons by (simp add: upd Update_tx_map)
qed simp

text \<open>
  C9. Whatever the interleaving, concurrent updates and reads of one map behave like a
  sequence: the updates that unlocked, each once, applied one after the other with
  \<open>Update\<close>. When no update is under way the map is exactly their result; an update
  excludes every other update and every reader; no reachable state is stuck before all have
  finished, and then the lock is free and every update is in the sequence. So no increment of
  a counter is lost.
\<close>

theorem transactions_serialize:
  assumes "safe_reach add r gs s" and "idle r" and "list_all waiting gs"
  shows "\<exists>r'. in_turn add (committed s) r = Ret r' \<and> mset (committed s) \<subseteq># jobs gs \<and>
    (updaters (goroutines s) = {} \<longrightarrow> Data (sh_repo s) = Data r') \<and>
    (\<forall>i < length (goroutines s). \<forall>j < length (goroutines s).
       is_updating (goroutines s ! i) \<and> (is_updating (goroutines s ! j) \<or> goroutines s ! j = Reading) \<longrightarrow> i = j) \<and>
    ((\<exists>s'. safe_step add s s') \<or> list_all (\<lambda>g. g = Finished) (goroutines s)) \<and>
    (list_all (\<lambda>g. g = Finished) (goroutines s) \<longrightarrow> sh_repo s = r' \<and> mset (committed s) = jobs gs)"
proof -
  note inv = safe_reach_inv [OF assms, THEN conjunct1] safe_reach_inv [OF assms, THEN conjunct2, THEN conjunct1]
    safe_reach_inv [OF assms, THEN conjunct2, THEN conjunct2]
  have all_done: "updaters (goroutines s) = {} \<and> jobs (goroutines s) = {#} \<and> sum_list (map reads (goroutines s)) = 0"
    if "list_all (\<lambda>g. g = Finished) (goroutines s)"
  proof -
    have "goroutines s = replicate (length (goroutines s)) Finished"
      using that by (intro replicate_eqI) (auto simp: list_all_iff)
    moreover have "updaters (replicate n Finished) = {}" "jobs (replicate n Finished) = {#}" "sum_list (map reads (replicate n Finished)) = 0" for n
      by (induction n) (auto simp: updaters_def nth_Cons split: nat.splits)
    ultimately show ?thesis by metis
  qed
  show ?thesis
  proof (intro exI [of _ "r\<lparr>Data := serial add (committed s) (Data r)\<rparr>"] conjI allI impI, goal_cases)
    case 1
    show ?case by (rule in_turn_serial [OF assms(2)])
  next
    case 2
    show ?case using inv(3) by (simp add: jobs_inv_def) (metis mset_subset_eq_add_right)
  next
    case 3
    then show ?case using inv(2) by (simp add: data_inv_def)
  next
    case (4 i j)
    then show ?case using inv(1) reading_excluded [OF inv(1), of j] by (auto simp: lock_inv_def updaters_def)
  next
    case 5
    show ?case using safe_progress [OF inv(1,2)] by (auto simp: list_all_length)
  next
    case 6
    then show ?case using all_done inv(1,2) assms(2) by (simp add: lock_inv_def data_inv_def idle_def RWMutex_zero_def)
  next
    case 7
    then show ?case using all_done inv(3) by (simp add: jobs_inv_def)
  qed
qed

text \<open>A run of two goroutines that add to one counter and one that reads.\<close>

lemma run_update:
  assumes "safe_reach add r gs s" and "i < length (goroutines s)" and "goroutines s ! i = WantUpdate [(k, v)]"
    and "idle (sh_repo s)"
  shows "safe_reach add r gs (s\<lparr>sh_repo := (sh_repo s)\<lparr>mu := \<lparr>readers = 0, writer = True\<rparr>\<rparr>,
      goroutines := (goroutines s)[i := Updating [(k, v)] [(k, v)] (Some (fmlookup (Data (sh_repo s)) k))]\<rparr>)"
proof -
  let ?s1 = "s\<lparr>sh_repo := (sh_repo s)\<lparr>mu := \<lparr>readers = 0, writer = True\<rparr>\<rparr>, goroutines := (goroutines s)[i := Updating [(k, v)] [(k, v)] None]\<rparr>"
  have "safe_step add s ?s1"
    using assms(2-4) safe_step.begin_update [of i s "[(k, v)]" _ add] by (simp add: Begin_Ret idle_def RWMutex_zero_def)
  moreover have "safe_step add ?s1 (?s1\<lparr>goroutines := (goroutines ?s1)[i := Updating [(k, v)] [(k, v)] (Some (fmlookup (Data (sh_repo ?s1)) k))]\<rparr>)"
    using assms(2) by (intro safe_step.look_up) simp_all
  ultimately show ?thesis using assms(1) unfolding safe_reach_def by (simp add: rtranclp.rtrancl_into_rtrancl)
qed

lemma run_whole_update:
  assumes "safe_reach add r gs s" and "i < length (goroutines s)" and "goroutines s ! i = WantUpdate [(k, v)]"
    and "idle (sh_repo s)"
  shows "safe_reach add r gs \<lparr>sh_repo = (sh_repo s)\<lparr>Data := fmupd k (entry_value add (fmlookup (Data (sh_repo s)) k) v) (Data (sh_repo s))\<rparr>,
      goroutines = (goroutines s)[i := Finished], committed = committed s @ [[(k, v)]]\<rparr>"
proof -
  let ?d = "fmupd k (entry_value add (fmlookup (Data (sh_repo s)) k) v) (Data (sh_repo s))"
  let ?s2 = "s\<lparr>sh_repo := (sh_repo s)\<lparr>mu := \<lparr>readers = 0, writer = True\<rparr>\<rparr>,
      goroutines := (goroutines s)[i := Updating [(k, v)] [(k, v)] (Some (fmlookup (Data (sh_repo s)) k))]\<rparr>"
  let ?s3 = "s\<lparr>sh_repo := (sh_repo s)\<lparr>mu := \<lparr>readers = 0, writer = True\<rparr>, Data := ?d\<rparr>, goroutines := (goroutines s)[i := Updating [(k, v)] [] None]\<rparr>"
  have mu: "mu (sh_repo s) = \<lparr>readers = 0, writer = False\<rparr>" using assms(4) by (simp add: idle_def RWMutex_zero_def)
  have "safe_step add ?s2 ?s3"
    using safe_step.store [of i ?s2 "[(k, v)]" k v "[]" "fmlookup (Data (sh_repo s)) k" add] assms(2) by simp
  moreover have "safe_step add ?s3 \<lparr>sh_repo = (sh_repo s)\<lparr>Data := ?d\<rparr>, goroutines = (goroutines s)[i := Finished], committed = committed s @ [[(k, v)]]\<rparr>"
    using safe_step.end_update [of i ?s3 "[(k, v)]" _ add] assms(2) mu by (cases s; cases "sh_repo s") (simp add: Unlock_Ret)
  ultimately show ?thesis
    using run_update [OF assms] unfolding safe_reach_def by (simp add: rtranclp.rtrancl_into_rtrancl)
qed

theorem transactions_serialize_witness:
  "\<exists>s. safe_reach (Some (+)) NewMRepo [WantUpdate [(''c'', 1)], WantUpdate [(''c'', 2)]] s \<and>
     in_turn (Some (+)) (committed s) NewMRepo = Ret (sh_repo s) \<and> fmlookup (Data (sh_repo s)) ''c'' = Some (3 :: int64)"
proof -
  let ?gs = "[WantUpdate [(''c'', 1 :: int64)], WantUpdate [(''c'', 2)]]"
  let ?s0 = "safe_init NewMRepo ?gs"
  have "safe_reach (Some (+)) NewMRepo ?gs ?s0" by (simp add: safe_reach_def)
  from run_whole_update [OF this, of 1 "''c''" 2]
  have "safe_reach (Some (+)) NewMRepo ?gs \<lparr>sh_repo = NewMRepo\<lparr>Data := fmupd ''c'' 2 fmempty\<rparr>,
      goroutines = [WantUpdate [(''c'', 1)], Finished], committed = [[(''c'', 2)]]\<rparr>"
    by (simp add: safe_init_def entry_value_def)
  from run_whole_update [OF this, of 0 "''c''" 1]
  have r: "safe_reach (Some (+)) NewMRepo ?gs \<lparr>sh_repo = NewMRepo\<lparr>Data := fmupd ''c'' 3 fmempty\<rparr>,
      goroutines = [Finished, Finished], committed = [[(''c'', 2)], [(''c'', 1)]]\<rparr>"
    by (simp add: idle_def NewMRepo_def entry_value_def)
  have "list_all waiting ?gs" by (simp add: waiting_def)
  from transactions_serialize [OF r idle_NewMRepo this]
  have "in_turn (Some (+)) [[(''c'', 2)], [(''c'', 1)]] NewMRepo = Ret (NewMRepo\<lparr>Data := fmupd ''c'' (3 :: int64) fmempty\<rparr>)"
    by auto
  with r show ?thesis by (intro exI conjI) (assumption | simp)+
qed

text \<open>The two goroutines of the race, one step of each at a time.\<close>

abbreviation two_threads :: "'v gomap \<Rightarrow> RWMutex \<Rightarrow> 'v goroutine \<Rightarrow> 'v goroutine \<Rightarrow> 'v Shared" where
  "two_threads m lock g h \<equiv> \<lparr>sh_repo = \<lparr>mu = lock, Data = m\<rparr>, goroutines = [g, h], committed = []\<rparr>"

abbreviation locked :: RWMutex where
  "locked \<equiv> \<lparr>readers = 0, writer = True\<rparr>"

lemma thread_steps:
  "safe_step add (two_threads m RWMutex_zero WantRead h) (two_threads m \<lparr>readers = 1, writer = False\<rparr> Reading h)"
  "safe_step add (two_threads m \<lparr>readers = 1, writer = False\<rparr> Reading h) (two_threads m RWMutex_zero (HoldsMap LiveMap []) h)"
  "safe_step add (two_threads m RWMutex_zero g (WantUpdate kvs)) (two_threads m locked g (Updating kvs kvs None))"
  "safe_step add (two_threads m lock g (Updating kvs ((k, v) # rest) None))
    (two_threads m lock g (Updating kvs ((k, v) # rest) (Some (fmlookup m k))))"
  "safe_step add (two_threads m lock g (Updating kvs ((k, v) # rest) (Some old)))
    (two_threads (fmupd k (entry_value add old v) m) lock g (Updating kvs rest None))"
  "k \<notin> fst ` set seen \<Longrightarrow> fmlookup m k = Some v \<Longrightarrow>
    safe_step add (two_threads m lock (HoldsMap LiveMap seen) h) (two_threads m lock (HoldsMap LiveMap (seen @ [(k, v)])) h)"
  using safe_step.begin_read [of 0 "two_threads m RWMutex_zero WantRead h" _ add]
    safe_step.end_read [of 0 "two_threads m \<lparr>readers = 1, writer = False\<rparr> Reading h" _ add]
    safe_step.begin_update [of 1 "two_threads m RWMutex_zero g (WantUpdate kvs)" kvs _ add]
    safe_step.look_up [of 1 "two_threads m lock g (Updating kvs ((k, v) # rest) None)" kvs k v rest add]
    safe_step.store [of 1 "two_threads m lock g (Updating kvs ((k, v) # rest) (Some old))" kvs k v rest old add]
    safe_step.range_map [of 0 "two_threads m lock (HoldsMap LiveMap seen) h" LiveMap seen k v add]
  by (simp_all add: Begin_Ret Unlock_Ret RWMutex_zero_def GetAll_ref_def)

lemma two_safe_steps: "safe_step add s t \<Longrightarrow> safe_step add t u \<Longrightarrow> (safe_step add)\<^sup>*\<^sup>* s u"
  by (metis converse_rtranclp_into_rtranclp r_into_rtranclp)

text \<open>
  C39. The map that \<open>GetAll\<close> hands out is the live one, and nothing protects it: for every
  free repository, two of its keys and an update that changes both, there is a run in which a
  reader that has left \<open>Read\<close> sees one key as the update leaves it and the other as it was
  before, a map that the store never held between two updates; at that moment the writer
  holds the lock and its next assignment changes the map under the reader (which Go's runtime
  may detect as a concurrent map iteration and map write, ending the server).
\<close>

theorem live_map_race:
  assumes "idle r" and "a \<noteq> b" and "fmlookup (Data r) a = Some va" and "fmlookup (Data r) b = Some vb"
    and "entry_value add (Some va) wa \<noteq> va" and "entry_value add (Some vb) wb \<noteq> vb"
  shows "\<exists>s s' r' ref seen. safe_reach add r [WantRead, WantUpdate [(a, wa), (b, wb)]] s \<and>
    goroutines s ! 0 = HoldsMap ref seen \<and> is_updating (goroutines s ! 1) \<and> writer (mu (sh_repo s)) \<and>
    in_turn add [[(a, wa), (b, wb)]] r = Ret r' \<and>
    (\<exists>(k, v) \<in> set seen. fmlookup (Data r) k \<noteq> Some v) \<and> (\<exists>(k, v) \<in> set seen. fmlookup (Data r') k \<noteq> Some v) \<and>
    safe_step add s s' \<and> goroutines s' ! 0 = HoldsMap ref seen \<and>
    contents (sh_repo s') ref \<noteq> contents (sh_repo s) ref"
proof -
  let ?kvs = "[(a, wa), (b, wb)]" and ?va = "entry_value add (Some va) wa" and ?vb = "entry_value add (Some vb) wb"
  let ?m = "Data r" and ?seen = "[(a, ?va), (b, vb)]"
  let ?m1 = "fmupd a ?va ?m"
  have r: "\<lparr>mu = RWMutex_zero, Data = ?m\<rparr> = r" using assms(1) by (cases r) (simp add: idle_def)
  have b: "fmlookup ?m1 b = Some vb" using assms(2,4) by simp
  let ?s = "two_threads ?m1 locked (HoldsMap LiveMap ?seen) (Updating ?kvs [(b, wb)] (Some (Some vb)))"
  let ?s' = "two_threads (fmupd b ?vb ?m1) locked (HoldsMap LiveMap ?seen) (Updating ?kvs [] None)"
  note steps = thread_steps [where add = add]
  let ?h0 = "HoldsMap LiveMap []"
  have "(safe_step add)\<^sup>*\<^sup>* (two_threads ?m RWMutex_zero WantRead (WantUpdate ?kvs)) (two_threads ?m RWMutex_zero ?h0 (WantUpdate ?kvs))"
    by (rule two_safe_steps [OF steps(1,2)])
  also have "(safe_step add)\<^sup>*\<^sup>* \<dots> (two_threads ?m locked ?h0 (Updating ?kvs ?kvs (Some (Some va))))"
    using two_safe_steps [OF steps(3) steps(4)] assms(3) by metis
  also have "(safe_step add)\<^sup>*\<^sup>* \<dots> (two_threads ?m1 locked ?h0 (Updating ?kvs [(b, wb)] (Some (Some vb))))"
    using two_safe_steps [OF steps(5) steps(4)] b by metis
  also have "(safe_step add)\<^sup>*\<^sup>* \<dots> ?s"
    by (rule two_safe_steps) (use steps(6) [of a "[]" ?m1 ?va] steps(6) [of b "[(a, ?va)]" ?m1 vb] assms(2) b in simp_all)
  finally have reach: "safe_reach add r [WantRead, WantUpdate ?kvs] ?s" unfolding safe_reach_def safe_init_def r .
  have next_step: "safe_step add ?s ?s'" by (rule steps(5))
  have after: "in_turn add [?kvs] r = Ret (r\<lparr>Data := fmupd b ?vb ?m1\<rparr>)"
    using in_turn_serial [OF assms(1), of add "[?kvs]"] assms(3) b by (simp add: upd_entry_def)
  have "fmlookup (fmupd b ?vb ?m1) b \<noteq> fmlookup ?m1 b" using assms(6) b by simp
  then have "fmupd b ?vb ?m1 \<noteq> ?m1" by metis
  then show ?thesis
    using reach next_step after assms(3,5,6)
    by (intro exI [of _ ?s] exI [of _ ?s'] exI [of _ "r\<lparr>Data := fmupd b ?vb ?m1\<rparr>"] exI [of _ LiveMap] exI [of _ ?seen]) simp
qed

theorem live_map_race_witness:
  "let r = NewMRepo\<lparr>Data := fmupd ''a'' 1 (fmupd ''b'' 1 fmempty)\<rparr>
   in \<exists>s s' r' ref seen. safe_reach (Some (+)) r [WantRead, WantUpdate [(''a'', 1), (''b'', 1 :: int64)]] s \<and>
    goroutines s ! 0 = HoldsMap ref seen \<and> is_updating (goroutines s ! 1) \<and> writer (mu (sh_repo s)) \<and>
    in_turn (Some (+)) [[(''a'', 1), (''b'', 1)]] r = Ret r' \<and>
    (\<exists>(k, v) \<in> set seen. fmlookup (Data r) k \<noteq> Some v) \<and> (\<exists>(k, v) \<in> set seen. fmlookup (Data r') k \<noteq> Some v) \<and>
    safe_step (Some (+)) s s' \<and> goroutines s' ! 0 = HoldsMap ref seen \<and>
    contents (sh_repo s') ref \<noteq> contents (sh_repo s) ref"
  unfolding Let_def
  by (rule live_map_race [where va = 1 and vb = 1]) (simp_all add: idle_def NewMRepo_def entry_value_def)

end
