(* ===== verification/Safe_Facts.thy ===== *)
theory Safe_Facts
  imports Memory
begin

text \<open>
  Properties of the guarded map and of the in-memory store: locks are released whatever the
  closure returns, a held lock excludes, loops over maps do not depend on the order the
  runtime picks, and the store's operations are those of the abstract store.
\<close>

section \<open>Locks\<close>

definition hold_writer :: "'v MRepo \<Rightarrow> 'v MRepo" where
  "hold_writer r = r\<lparr>mu := \<lparr>readers = 0, writer = True\<rparr>\<rparr>"

definition hold_reader :: "'v MRepo \<Rightarrow> 'v MRepo" where
  "hold_reader r = r\<lparr>mu := \<lparr>readers = 1, writer = False\<rparr>\<rparr>"

text \<open>
  C33. \<open>Update\<close> on a free repository runs its closure once, returns the closure's error,
  keeps its changes (there is no rollback) and frees the lock. While a writer holds the lock
  both \<open>Read\<close> and \<open>Update\<close> wait; while a reader does, \<open>Update\<close> waits and \<open>Read\<close> gets in.
\<close>

theorem update_locks:
  assumes "idle r"
  shows "Update (\<lambda>tx. (e, tx_map f tx)) r = Ret (e, r\<lparr>Data := f (Data r)\<rparr>) \<and>
    idle (r\<lparr>Data := f (Data r)\<rparr>) \<and>
    Read q (hold_writer r) = Blocked \<and> Update u (hold_writer r) = Blocked \<and> Update u (hold_reader r) = Blocked \<and>
    (\<exists>a. Read q (hold_reader r) = Ret (a, hold_reader r))"
proof -
  have "Read q (hold_writer r) = Blocked" "Update u (hold_writer r) = Blocked" "Update u (hold_reader r) = Blocked"
    by (simp_all add: Read_def Update_def managed_def Begin_def Lock_def mutex_defs hold_writer_def hold_reader_def)
  moreover have "\<exists>a. Read q (hold_reader r) = Ret (a, hold_reader r)"
    by (simp add: Read_def managed_def Begin_def Lock_def Unlock_def mutex_defs hold_reader_def split: prod.splits)
  moreover have "idle (r\<lparr>Data := f (Data r)\<rparr>)" using assms by (simp add: idle_def)
  ultimately show ?thesis using Update_tx_map [OF assms] by blast
qed

theorem update_locks_witness:
  "Update (\<lambda>tx. (Some ErrRange, tx_map (fmupd ''x'' (1 :: int64)) tx)) NewMRepo =
     Ret (Some ErrRange, NewMRepo\<lparr>Data := fmupd ''x'' 1 fmempty\<rparr>)"
  using update_locks [OF idle_NewMRepo, of "Some ErrRange" "fmupd ''x'' (1 :: int64)", THEN conjunct1] by simp

section \<open>Loops over maps\<close>

text \<open>
  \<open>SetAll\<close> and \<open>SetAccumAll\<close> range over their argument in the order the runtime
  picks; any two orders leave the same map: overwritten and accumulated key by key.
\<close>

theorem set_all_any_order:
  assumes "enumerates kvs d" and "enumerates kvs' d"
  shows "SetAll kvs tx = SetAll kvs' tx \<and> SetAccumAll add kvs tx = SetAccumAll add kvs' tx \<and>
    fmlookup (GetAll (SetAll kvs tx)) k = (case fmlookup d k of None \<Rightarrow> Get k tx | Some v \<Rightarrow> Some v) \<and>
    fmlookup (GetAll (SetAccumAll add kvs tx)) k =
      (case (fmlookup d k, Get k tx) of (None, old) \<Rightarrow> old | (Some v, None) \<Rightarrow> Some v | (Some v, Some x) \<Rightarrow> Some (add x v))"
proof -
  have "foldl set_entry m kvs = foldl set_entry m kvs'" "foldl (accum_entry add) m kvs = foldl (accum_entry add) m kvs'" for m
    using foldl_upd_entry_order [OF assms] by (simp_all add: set_entry_upd accum_entry_upd)
  then have "SetAll kvs tx = SetAll kvs' tx" "SetAccumAll add kvs tx = SetAccumAll add kvs' tx"
    by (simp_all add: SetAll_def SetAccumAll_def)
  moreover have "fmlookup (GetAll (SetAll kvs tx)) k = (case fmlookup d k of None \<Rightarrow> Get k tx | Some v \<Rightarrow> Some v)"
    by (simp add: tx_defs set_entry_upd foldl_upd_entry_enum [OF assms(1)] split: option.splits)
  moreover have "fmlookup (GetAll (SetAccumAll add kvs tx)) k =
      (case (fmlookup d k, Get k tx) of (None, old) \<Rightarrow> old | (Some v, None) \<Rightarrow> Some v | (Some v, Some x) \<Rightarrow> Some (add x v))"
    by (simp add: tx_defs accum_entry_upd foldl_upd_entry_enum [OF assms(1)] split: option.splits)
  ultimately show ?thesis by blast
qed

theorem set_all_any_order_witness:
  "SetAccumAll (+) [(''a'', 1 :: int64), (''b'', 2)] \<lparr>repo = NewMRepo, writable = True\<rparr> =
   SetAccumAll (+) [(''b'', 2), (''a'', 1)] \<lparr>repo = NewMRepo, writable = True\<rparr>"
proof -
  have "enumerates [(''a'', 1 :: int64), (''b'', 2)] (fmap_of_list [(''a'', 1), (''b'', 2)])"
    by (simp add: enumerates_def)
  moreover have "enumerates [(''b'', 2), (''a'', 1 :: int64)] (fmap_of_list [(''a'', 1), (''b'', 2)])"
    unfolding enumerates_def by (auto intro!: fmap_ext)
  ultimately show ?thesis using set_all_any_order by blast
qed

section \<open>The in-memory store\<close>

text \<open>
  C21. Every operation of the in-memory store on free locks returns without error and is the
  abstract one: reads return the maps' entries and change nothing, a gauge is overwritten, a
  counter is increased, a batch of counters is the sequence of its increases; the locks are
  free again.
\<close>

theorem memory_is_abstract_store:
  assumes "mem_inv ms" and "enumerates kvs c"
  shows "Memory_GetGauge n ms = Ret (Inr (fmlookup (mem_gauges ms) n), ms) \<and>
    Memory_GetCounter n ms = Ret (Inr (fmlookup (mem_counters ms) n), ms) \<and>
    Memory_GetGaugeAll ms = Ret (Inr (mem_gauges ms), ms) \<and>
    Memory_GetCounterAll ms = Ret (Inr (mem_counters ms), ms) \<and>
    (\<exists>ms'. Memory_SetGauge n v ms = Ret (None, ms') \<and> mem_inv ms' \<and>
      mem_gauges ms' = fmupd n v (mem_gauges ms) \<and> mem_counters ms' = mem_counters ms) \<and>
    (\<exists>ms'. Memory_SetCounter n i ms = Ret (None, ms') \<and> mem_inv ms' \<and>
      mem_gauges ms' = mem_gauges ms \<and> mem_counters ms' = add_counter n i (mem_counters ms)) \<and>
    (\<exists>ms'. Memory_SetGaugeAll g ms = Ret (None, ms') \<and> mem_inv ms' \<and>
      mem_gauges ms' = fmadd (mem_gauges ms) g \<and> mem_counters ms' = mem_counters ms) \<and>
    (\<exists>ms'. Memory_SetCounterAll c ms = Ret (None, ms') \<and> mem_inv ms' \<and> mem_gauges ms' = mem_gauges ms \<and>
      mem_counters ms' = foldl (\<lambda>m kv. add_counter (fst kv) (snd kv) m) (mem_counters ms) kvs)"
  using assms by (simp add: memory_gets memory_sets add_counters_seq)

theorem memory_is_abstract_store_witness:
  "\<exists>ms'. Memory_SetCounterAll (fmupd ''c'' 2 fmempty) Memory_Init = Ret (None, ms') \<and> mem_inv ms' \<and>
     mem_counters ms' = add_counter ''c'' 2 fmempty"
proof -
  have "enumerates [(''c'', 2)] (fmupd ''c'' (2 :: int64) fmempty)"
    unfolding enumerates_def by (auto intro!: fmap_ext)
  from memory_is_abstract_store [OF mem_inv_Init(1) this] show ?thesis by fastforce
qed

end
