(* ===== verification/Staticlint.thy ===== *)
theory Staticlint
  imports Prelude
begin

text \<open>
  \<open>cmd/staticlint\<close>: the program's own lint check, \<open>osexitcheck.go\<close>, on the syntax trees
  of \<open>go/ast\<close>, and the list of analyzers \<open>staticlint.go\<close> hands to \<open>multichecker\<close>.
  The trees keep the three kinds of nodes the check looks at and, for every other kind, the
  node's children in their order. The analyzers of \<open>golang.org/x/tools\<close> and
  \<open>honnef.co/go/tools\<close> are parameters.
\<close>

section \<open>Syntax trees\<close>

record ident =
  NamePos :: int
  Name :: string

datatype node =
    Ident ident
  | SelectorExpr node ident
  | CallExpr node "node list"
  | OtherNode string "node list"

primrec children :: "node \<Rightarrow> node list" where
  "children (Ident i) = []"
| "children (SelectorExpr x sel) = [x, Ident sel]"
| "children (CallExpr f args) = f # args"
| "children (OtherNode k ns) = ns"

primrec weight :: "node \<Rightarrow> nat" where
  "weight (Ident i) = 1"
| "weight (SelectorExpr x sel) = weight x + 2"
| "weight (CallExpr f args) = Suc (weight f + sum_list (map weight args))"
| "weight (OtherNode k ns) = Suc (sum_list (map weight ns))"

lemma weight_children: "weight n = Suc (sum_list (map weight (children n)))"
  by (cases n) simp_all

text \<open>
  \<open>ast.Inspect\<close>: the node, its children from left to right when the visit of the node says
  so, and a visit of nil after them.
\<close>

function Inspect :: "(node option \<Rightarrow> 's \<Rightarrow> bool \<times> 's) \<Rightarrow> node \<Rightarrow> 's \<Rightarrow> 's"
  and Inspect_all :: "(node option \<Rightarrow> 's \<Rightarrow> bool \<times> 's) \<Rightarrow> node list \<Rightarrow> 's \<Rightarrow> 's" where
  "Inspect f n s =
     (case f (Some n) s of (deeper, s') \<Rightarrow>
        if deeper then snd (f None (Inspect_all f (children n) s')) else s')"
| "Inspect_all f [] s = s"
| "Inspect_all f (n # ns) s = Inspect_all f ns (Inspect f n s)"
  by pat_completeness auto

termination
proof (relation "measure (case_sum (\<lambda>(f, n, s). 2 * weight n) (\<lambda>(f, ns, s). Suc (2 * sum_list (map weight ns))))")
qed (auto simp: weight_children)

section \<open>osexitcheck\<close>

text \<open>\<open>Reportf\<close> adds a diagnostic at a position.\<close>

type_synonym diagnostics = "(int \<times> string) list"

definition disallowed :: string where
  "disallowed = ''os.Exit() is disallowed''"

definition osexit_visit :: "node option \<Rightarrow> diagnostics \<Rightarrow> bool \<times> diagnostics" where
  "osexit_visit node ds =
     (True,
      case node of
        Some (CallExpr (SelectorExpr (Ident x) sel) args) \<Rightarrow>
          if Name x = ''os'' \<and> Name sel = ''Exit'' then ds @ [(NamePos x, disallowed)] else ds
      | _ \<Rightarrow> ds)"

fun osexit_run :: "node list \<Rightarrow> diagnostics \<Rightarrow> diagnostics" where
  "osexit_run [] ds = ds"
| "osexit_run (f # fs) ds = osexit_run fs (Inspect osexit_visit f ds)"

text \<open>The analyzer; its run has no result and no error.\<close>

record Analyzer =
  a_Name :: string
  a_Doc :: string
  a_Run :: "node list \<Rightarrow> diagnostics \<Rightarrow> diagnostics"

definition osexitcheck_Analyzer :: Analyzer where
  "osexitcheck_Analyzer =
     \<lparr>a_Name = ''osexitcheck'', a_Doc = ''check for os.Exit() call, which isn't allowed'', a_Run = osexit_run\<rparr>"

section \<open>What it reports\<close>

text \<open>All nodes of a tree, each before the ones below it, and the calls of \<open>os.Exit\<close> by their first name.\<close>

primrec subnodes :: "node \<Rightarrow> node list" where
  "subnodes (Ident i) = [Ident i]"
| "subnodes (SelectorExpr x sel) = SelectorExpr x sel # subnodes x @ [Ident sel]"
| "subnodes (CallExpr f args) = CallExpr f args # subnodes f @ concat (map subnodes args)"
| "subnodes (OtherNode k ns) = OtherNode k ns # concat (map subnodes ns)"

definition exit_call :: "node \<Rightarrow> ident option" where
  "exit_call n =
     (case n of
        CallExpr f args \<Rightarrow>
          (case f of
             SelectorExpr x sel \<Rightarrow> (case x of Ident i \<Rightarrow> if Name i = ''os'' \<and> Name sel = ''Exit'' then Some i else None | _ \<Rightarrow> None)
           | _ \<Rightarrow> None)
      | _ \<Rightarrow> None)"

definition exit_reports :: "node list \<Rightarrow> diagnostics" where
  "exit_reports ns = map (\<lambda>x. (NamePos x, disallowed)) (List.map_filter exit_call ns)"

lemma exit_reports_simps:
  "exit_reports [] = []"
  "exit_reports (n # ns) = (case exit_call n of None \<Rightarrow> [] | Some x \<Rightarrow> [(NamePos x, disallowed)]) @ exit_reports ns"
  "exit_reports (ms @ ns) = exit_reports ms @ exit_reports ns"
  by (simp_all add: exit_reports_def List.map_filter_def split: option.splits)

lemma subnodes_children: "subnodes n = n # concat (map subnodes (children n))"
  by (cases n) simp_all

lemma osexit_visit_reports: "osexit_visit (Some n) ds = (True, ds @ exit_reports [n])"
  by (simp add: osexit_visit_def exit_reports_simps exit_call_def split: node.split)

lemma Inspect_reports:
  "Inspect osexit_visit n ds = ds @ exit_reports (subnodes n)"
  "Inspect_all osexit_visit ns ds = ds @ exit_reports (concat (map subnodes ns))"
proof (induction osexit_visit n ds and osexit_visit ns ds rule: Inspect_Inspect_all.induct)
  case (1 n ds)
  have "snd (osexit_visit None ds') = ds'" for ds' by (simp add: osexit_visit_def)
  with 1 show ?case
    by (simp add: osexit_visit_reports subnodes_children [of n] exit_reports_simps del: subnodes.simps)
qed (simp_all add: exit_reports_simps)

text \<open>
  C32. The lint check reports every call \<open>os.Exit(...)\<close> of the files, wherever it is nested,
  once, at the position of the name \<open>os\<close>, in the order of the source, and nothing else.
\<close>

theorem osexit_reports_calls:
  "a_Run osexitcheck_Analyzer files ds = ds @ exit_reports (concat (map subnodes files)) \<and>
   (exit_call n = Some x \<longleftrightarrow>
      (\<exists>sel args. n = CallExpr (SelectorExpr (Ident x) sel) args \<and> Name x = ''os'' \<and> Name sel = ''Exit''))"
proof
  have "osexit_run files ds = ds @ exit_reports (concat (map subnodes files))"
    by (induction files arbitrary: ds) (simp_all add: Inspect_reports exit_reports_simps del: Inspect.simps)
  then show "a_Run osexitcheck_Analyzer files ds = ds @ exit_reports (concat (map subnodes files))"
    by (simp add: osexitcheck_Analyzer_def)
qed (auto simp: exit_call_def split: node.splits if_splits)

text \<open>
  The check goes by the spelling: an import of \<open>os\<close> under another name and a call in
  parentheses are not found, a local variable \<open>os\<close> is.
\<close>

lemma exit_call_limits:
  "Name x \<noteq> ''os'' \<Longrightarrow> exit_call (CallExpr (SelectorExpr (Ident x) sel) args) = None"
  "exit_call (CallExpr (OtherNode ''ParenExpr'' [f]) args) = None"
  by (simp_all add: exit_call_def)

section \<open>The analyzers\<close>

text \<open>
  \<open>pass p\<close> is the variable \<open>Analyzer\<close> of the package \<open>p\<close> of
  \<open>go/analysis/passes\<close>, \<open>lint_Analyzer\<close> the field of a \<open>lint.Analyzer\<close>.
\<close>

definition passes :: "string list" where
  "passes =
     [''asmdecl'', ''assign'', ''atomic'', ''bools'', ''buildtag'', ''cgocall'', ''composite'', ''copylock'',
      ''httpresponse'', ''loopclosure'', ''lostcancel'', ''nilfunc'', ''printf'', ''shift'', ''stdmethods'',
      ''structtag'', ''tests'', ''unmarshal'', ''unreachable'', ''unsafeptr'', ''unusedresult'']"

fun append_Analyzers :: "('b \<Rightarrow> 'a) \<Rightarrow> 'b list list \<Rightarrow> 'a list \<Rightarrow> 'a list" where
  "append_Analyzers lint_Analyzer [] analyzers = analyzers"
| "append_Analyzers lint_Analyzer (ls # lss) analyzers =
     append_Analyzers lint_Analyzer lss (foldl (\<lambda>as v. as @ [lint_Analyzer v]) analyzers ls)"

definition staticlint_main :: "(Analyzer list \<Rightarrow> 'r) \<Rightarrow> (string \<Rightarrow> Analyzer) \<Rightarrow> ('b \<Rightarrow> Analyzer) \<Rightarrow> 'b list \<Rightarrow> 'b list \<Rightarrow> 'r" where
  "staticlint_main multichecker_Main pass lint_Analyzer staticcheck quickfix =
     (let analyzers = map pass passes @ [osexitcheck_Analyzer]
      in multichecker_Main (append_Analyzers lint_Analyzer [staticcheck, quickfix] analyzers))"

lemma append_Analyzers_eq: "append_Analyzers l lss as = as @ map l (concat lss)"
proof (induction lss arbitrary: as)
  case (Cons ls lss)
  have "foldl (\<lambda>as v. as @ [l v]) as ls = as @ map l ls" by (induction ls arbitrary: as) simp_all
  with Cons show ?case by simp
qed simp

text \<open>Every run of the program checks for \<open>os.Exit\<close>, and with every analyzer of both collections.\<close>

lemma staticlint_analyzers:
  "staticlint_main set pass l sc qf = insert osexitcheck_Analyzer (pass ` set passes \<union> l ` (set sc \<union> set qf))"
  by (auto simp: staticlint_main_def Let_def append_Analyzers_eq)

end
