(* ===== verification/Spec2Isabelle.thy ===== *)
theory Spec2Isabelle
  imports Server_Facts Unreliable_Server Handler_Tests Config_Facts Agent_Facts Signing_Facts Wire_Facts Request_Threads Shared_Hash Safe_Threads Safe_Facts Staticlint
begin

text \<open>
  A model of perfmon, a metrics server and the agent that feeds it, written in Go, and the
  theorems that say what it does. All names of files below are relative to \<open>src/\<close>.

  \<^bold>\<open>The program.\<close> The server (\<open>cmd/server/main.go\<close>) keeps gauges (64-bit floats, overwritten) and
  counters (64-bit integers, added up) in memory or in PostgreSQL, takes updates and queries
  over HTTP, checks signatures, decrypts and decompresses bodies, and without a database
  writes a backup file when it stops. The agent (\<open>cmd/agent/main.go\<close>) polls the system into
  its own maps and posts them as JSON batches through a pool of workers. A lint program
  (\<open>cmd/staticlint\<close>) runs third-party analyzers and one of its own.

  \<^bold>\<open>The parts\<close>, in the order the theories build on each other:
    \<^item> \<open>Prelude\<close>: Go values (strings as byte lists, maps as finite maps, \<open>int64\<close> and
      \<open>float64\<close> as 64-bit words), errors, the \<open>outcome\<close> of a call (returns, panics, waits
      for ever), loops over maps in an order the runtime picks (\<open>enumerates\<close>).
    \<^item> \<open>Go_Strings\<close>, \<open>Go_Float\<close>, \<open>Go_Float_Arith\<close>, \<open>Go_Json\<close>, \<open>Go_Base64\<close>,
      \<open>Go_Scanner\<close>, \<open>Go_Http\<close>, \<open>Go_Flag\<close>, \<open>Go_Group\<close>: what the program uses of the standard library
      (number parsing and printing, IEEE rounding, \<open>encoding/json\<close>, \<open>bufio.Scanner\<close> with its
      buffers, headers and response writers, the command line, contexts, groups and the server's
      \<open>Shutdown\<close>). They are definitions, not assumptions; \<open>Go_Float_Facts\<close>, \<open>Go_Float_Text\<close> and \<open>Go_Json_Facts\<close> show that
      finite floats and valid UTF-8 strings survive printing and parsing.
    \<^item> \<open>Mondata\<close> (\<open>internal/mondata\<close>): the wire record, kinds, text and JSON forms.
    \<^item> \<open>Safe\<close> (\<open>internal/repo/safe\<close>, \<open>internal/repo/transaction\<close>): the map guarded by a
      read-write lock; \<open>Safe_Threads\<close>: goroutines on it as a step relation, with the
      reference to the live map that \<open>GetAll\<close> hands out.
    \<^item> \<open>Metrics_Repo\<close> (the interface of \<open>internal/repo/repo.go\<close>): the record of operations,
      the abstract store, and its contracts, the locales \<open>metrics_repo\<close> (an operation may
      fail, leaving the old or the new value), \<open>reliable_repo\<close> (it does not fail) and
      \<open>offline_repo\<close> (there is no database to ping).
    \<^item> \<open>Memory\<close> (\<open>internal/repo/memory\<close>): interpretation \<open>mem\<close> of \<open>offline_repo\<close>.
      \<open>Pgsql\<close> (\<open>internal/repo/pgsql\<close>): transactions, retries, the texts of the statements; \<open>Pgsql_Facts\<close>
      shows it keeps \<open>metrics_repo\<close>. \<open>Repo\<close> (\<open>internal/repo/repo.go\<close>): the choice between
      the two, with interpretation \<open>in_memory\<close>.
    \<^item> \<open>Fw\<close> (\<open>internal/monserv/fw\<close>): the backup file on an explicit disk of files by
      their paths.
    \<^item> \<open>Handlers\<close> (\<open>internal/monserv/handlers\<close>): every handler over any store and any
      response writer; \<open>Handlers_Spec\<close> holds the abstract server and the refinement, proved
      once in the locales over store and writer; \<open>Request_Threads\<close>: batches served at the
      same time, as a step relation; \<open>Handler_Tests\<close>: the repository's own tests of the
      handlers, run on the model.
    \<^item> \<open>Ciphers\<close> (\<open>internal/ciphers\<close>), \<open>Middlewares\<close> (\<open>internal/monserv/middlewares\<close>),
      \<open>Monserv\<close> (\<open>internal/monserv/monserv.go\<close>): encryption, the middlewares as functions
      from handlers to handlers, the two chains and the routes. \<open>Signing_Facts\<close> follows the
      sent header through the writers, \<open>Wire_Facts\<close> the body. \<open>Unreliable_Store\<close> and
      \<open>Unreliable_Server\<close>: the handlers, the routes and sessions on a store that may fail.
    \<^item> \<open>Collector\<close> (\<open>internal/collector\<close>), \<open>Monclient\<close> (\<open>internal/monclient\<close>): the
      agent's polls and posts; \<open>Worker_Pool\<close>, the channel and the workers as a step relation;
      \<open>Shared_Hash\<close>, the hash the workers share, as a step relation.
    \<^item> \<open>Options\<close> (\<open>internal/options\<close>, \<open>internal/opts\<close>), \<open>Config\<close> (\<open>flags\<close>, \<open>init\<close>,
      \<open>setEnv\<close> of both programs), \<open>Server_Main\<close>, \<open>Agent_Main\<close> (both \<open>main\<close>:
      logger, start, requests or polls and reports, shutdown); \<open>Agent_Facts\<close> has the two
      programs together.
    \<^item> \<open>Staticlint\<close> (\<open>cmd/staticlint\<close>): the check for \<open>os.Exit\<close> on syntax trees and the
      list of analyzers.
  A theory \<open>X_Facts\<close> holds the lemmas and properties of \<open>X\<close>.

  \<^bold>\<open>What is shown.\<close>
    \<^item> Refinement: every store implements the abstract store, every route of the server
      the abstract server behind an admission that is a function of the request, and all
      lives of a server (started, used, stopped, started again on its backup, any number of
      times, with the backup at one path) together one uninterrupted abstract session, handlers
      that panic included, as long as each store is empty or fits the backup file. What the
      agent polls and reports arrives in the server's store when no system call, encryption or
      delivery fails, and a JSON query brings a stored counter or finite gauge back over the
      compressed connection bit for bit.
    \<^item> Failures of the database: a route answers as the abstract server or with 500, 200 is
      never sent for an update that was not made, and over a whole session no confirmed update
      of a counter is lost and none is made twice.
    \<^item> Interleavings: concurrent transactions on a guarded map are serializable and never
      stuck; batches served at the same time are all answered and leave the counters of serving them in turn; the worker pool posts every report exactly once and ends when told to stop.
    \<^item> Round trips: JSON, the backup file, gauge texts, encryption with keys of 2048 bits (with
      others nothing is recovered).
    \<^item> Invariants: the types of the store behind the server, of the agent's maps, of the lock.
    \<^item> Settings: which source each setting of the server comes from.
    \<^item> Limits and faults, each a theorem about the model of the code as it is: lost backups,
      panics, fail-open checks, requests cut off and updates lost by the shutdown, responses that
      are never signed, the hash shared without a lock, the map handed out without one, an agent
      without workers that cannot stop.

  \<^bold>\<open>Fuel and bounds.\<close> The scanner's \<open>scan_fuel\<close> is a bound on its reads that
  \<open>read_parts_ends\<close> shows to be enough; the JSON parser recurses on a fuel of the text's
  length, and the shortest-digits search stops at 17 digits (\<open>shortest_reads_back\<close>). The
  worker pool's runs are bounded by the measure \<open>left\<close>. Everything else is structural.

  \<^bold>\<open>Parameters.\<close> Code that is not in the repository is an argument with its documented
  behaviour as a named hypothesis: chi (\<open>chi_laws\<close>), pgx with what PostgreSQL does
  with the statements of the source by their texts (\<open>pgx_laws\<close>, \<open>apply_sql\<close>), failsafe,
  which a context may end early (\<open>run_laws\<close>), resty (the \<open>send\<close> of \<open>Post\<close>), pgerrcode; of the standard library the
  cryptographic primitives for keys of any size (\<open>crypto_laws\<close>, \<open>oaep_length_checked\<close>,
  \<open>entropy_ok\<close>), compression (\<open>gz_pair\<close>),
  the template engine and what the system reports. The examples instantiate each of them.

  \<^bold>\<open>Not modelled.\<close> Log output, contexts passed only to be passed on, durations and tickers
  (a tick is an event), the listener's network, the profiler's
  routes, the HTML of the root page; the analyzers of other packages the linter runs.
  Requests are served one after the other in \<open>Server_Main\<close>, and polls and reports in
  \<open>agent_life\<close>; interleavings are in \<open>Safe_Threads\<close>, \<open>Request_Threads\<close>,
  \<open>Worker_Pool\<close> and \<open>Shared_Hash\<close>; the requests under way when the server stops are in
  \<open>server_shutdown\<close>. On the disk a path is one file: links are left out. In memory \<open>Blocked\<close> stands for a call that waits on a lock nobody will release.
\<close>

end
